theory Spec2Isabelle
  imports Complex_Main "HOL-Library.Word"
begin

section \<open>Data model of universe.c\<close>

text \<open>
  The headers that declare \<open>vec3d_t\<close>, \<open>atom_t\<close>, \<open>universe_t\<close> and \<open>args_t\<close> are not
  among the sources; the records below list the fields that universe.c reads and writes.
  A C \<open>double\<close> is carried as the \<open>real\<close> it denotes, and arithmetic on doubles is
  arithmetic on reals: rounding, infinities and NaN are outside the model. The one
  exception is the addition that accumulates the simulated time (line 354): its
  rounding decides how many iterations the loop of \<open>universe_simulate\<close> makes, so it
  is the parameter \<open>double_add\<close> below. Arrays are lists whose length is the allocated number of entries; an access
  outside an array is the outcome \<open>Undefined\<close>. Counts and loop indices are natural
  numbers; the integers whose width universe.c itself declares (\<open>uint64_t\<close> bond
  partners, \<open>uint8_t\<close> bond counters and element codes) are words.
\<close>

type_synonym u8 = "8 word"
type_synonym u64 = "64 word"

record vec3d_t =
  vec3d_x :: real
  vec3d_y :: real
  vec3d_z :: real

record atom_t =
  element :: u8
  charge :: real
  epsilon :: real
  sigma :: real
  bond_nb :: nat
  bond :: "u64 list"
  bond_strength :: "real list"
  pos :: vec3d_t
  vel :: vec3d_t
  acc :: vec3d_t
  frc :: vec3d_t

text \<open>
  What one \<open>fprintf\<close> call of \<open>universe_printstate\<close> sends to the trajectory file: the
  frame header (atom count, iteration index) or one atom line (symbol and the three
  coordinates in Angstrom).
\<close>

datatype out_item =
  Header nat nat
  | AtomLine string real real real

text \<open>
  The output stream. \<open>written\<close> is what reached the file; \<open>room\<close> is the number of
  further items the stream accepts before every write fails (\<open>None\<close>: no limit).
\<close>

record ofile_t =
  written :: "out_item list"
  room :: "nat option"

record universe_t =
  meta_name :: string
  meta_author :: string
  meta_comment :: string
  ref_atom_nb :: nat
  ref_bond_nb :: nat
  copy_nb :: nat
  atom_nb :: nat
  box_size :: real
  time :: real
  temperature :: real
  pressure :: real
  iterations :: nat
  ref_atom :: "atom_t list"
  atom :: "atom_t list"
  output_file :: ofile_t

datatype force_mode = MODE_NUMERICAL | MODE_ANALYTICAL

record args_t =
  max_time :: real
  timestep :: real
  frameskip :: u64
  numerical :: force_mode

text \<open>
  State of the C library that the functions thread through: the bytes \<open>malloc\<close> can
  still hand out, and the state of the generator behind \<open>rand\<close>.
\<close>

record libc_t =
  heap_free :: nat
  rand_state :: nat

text \<open>
  The outcomes other than success: \<open>Failure\<close> is the \<open>NULL\<close> that \<open>retstr\<close> returns,
  \<open>Undefined\<close> is an access outside an allocated array.
\<close>

datatype failure = Failure | Undefined

text \<open>
  The functions and constants that universe.c uses and that other files of the
  repository define (model.c, vec3d.c, atom.c, potential.c, the Boltzmann constant)
  or that belong to the C library. They are parameters of every definition below.
  A helper that returns \<open>NULL\<close> yields \<open>None\<close>. \<open>uninit_atom\<close>, \<open>uninit_u8\<close>,
  \<open>uninit_u64\<close> and \<open>uninit_double\<close> give the content of a fresh allocation at
  each slot. \<open>vec3d_marsaglia\<close> and \<open>rand\<close> take the state of the generator and
  return their value with the next state. \<open>double_add\<close> is the addition of two
  doubles as the machine performs it: the exact sum, rounded to a double.

  Modelled from the spec: the per-atom helpers of atom.c are missing; by section 4.F
  each one updates atom \<open>i\<close> only (\<open>atom_enforce_pbc\<close> its position only), so they
  return the new atom (the new position) computed from the universe.
\<close>

record env_t =
  C_BOLTZMANN :: real
  model_mass :: "u8 \<Rightarrow> real"
  model_symbol :: "u8 \<Rightarrow> string"
  vec3d_marsaglia :: "nat \<Rightarrow> vec3d_t \<times> nat"
  rand :: "nat \<Rightarrow> int \<times> nat"
  potential_total :: "universe_t \<Rightarrow> nat \<Rightarrow> real option"
  atom_enforce_pbc :: "universe_t \<Rightarrow> nat \<Rightarrow> vec3d_t option"
  atom_update_pos :: "universe_t \<Rightarrow> args_t \<Rightarrow> nat \<Rightarrow> atom_t option"
  atom_update_frc_numerical :: "universe_t \<Rightarrow> nat \<Rightarrow> atom_t option"
  atom_update_frc_analytical :: "universe_t \<Rightarrow> nat \<Rightarrow> atom_t option"
  atom_update_acc :: "universe_t \<Rightarrow> nat \<Rightarrow> atom_t option"
  atom_update_vel :: "universe_t \<Rightarrow> args_t \<Rightarrow> nat \<Rightarrow> atom_t option"
  sizeof_atom_t :: nat
  atom_init :: "atom_t \<Rightarrow> atom_t"
  uninit_atom :: "nat \<Rightarrow> atom_t"
  uninit_u8 :: "nat \<Rightarrow> u8"
  uninit_u64 :: "nat \<Rightarrow> u64"
  uninit_double :: "nat \<Rightarrow> real"
  double_add :: "real \<Rightarrow> real \<Rightarrow> real"

subsection \<open>Vectors\<close>

text \<open>
  Modelled from the spec: vec3d.c is missing. Section 4.A lists add, scale and
  magnitude as the usual operations on 3-D vectors.
\<close>

definition vec3d_add :: "vec3d_t \<Rightarrow> vec3d_t \<Rightarrow> vec3d_t" where
  "vec3d_add v1 v2 =
     \<lparr>vec3d_x = vec3d_x v1 + vec3d_x v2,
      vec3d_y = vec3d_y v1 + vec3d_y v2,
      vec3d_z = vec3d_z v1 + vec3d_z v2\<rparr>"

definition vec3d_mul :: "vec3d_t \<Rightarrow> real \<Rightarrow> vec3d_t" where
  "vec3d_mul v lambda =
     \<lparr>vec3d_x = vec3d_x v * lambda,
      vec3d_y = vec3d_y v * lambda,
      vec3d_z = vec3d_z v * lambda\<rparr>"

definition vec3d_mag :: "vec3d_t \<Rightarrow> real" where
  "vec3d_mag v = sqrt ((vec3d_x v)\<^sup>2 + (vec3d_y v)\<^sup>2 + (vec3d_z v)\<^sup>2)"

subsection \<open>Loops, allocation and array accesses\<close>

text \<open>
  \<open>for (i = 0; i < n; ++i) body\<close> runs the body at \<open>0, \<dots>, n - 1\<close> and stops at the
  first iteration that does not succeed.
\<close>

fun for_loop :: "nat list \<Rightarrow> (nat \<Rightarrow> 's \<Rightarrow> failure + 's) \<Rightarrow> 's \<Rightarrow> failure + 's" where
  "for_loop [] body s = Inr s"
| "for_loop (i # is) body s =
     (case body i s of Inl e \<Rightarrow> Inl e | Inr s' \<Rightarrow> for_loop is body s')"

definition malloc :: "libc_t \<Rightarrow> nat \<Rightarrow> libc_t option" where
  "malloc l n =
     (if n \<le> heap_free l then Some (l\<lparr>heap_free := heap_free l - n\<rparr>) else None)"

definition free :: "libc_t \<Rightarrow> nat \<Rightarrow> libc_t" where
  "free l n = l\<lparr>heap_free := heap_free l + n\<rparr>"

definition array_get :: "'a list \<Rightarrow> nat \<Rightarrow> failure + 'a" where
  "array_get xs i = (if i < length xs then Inr (xs ! i) else Inl Undefined)"

definition array_set :: "'a list \<Rightarrow> nat \<Rightarrow> 'a \<Rightarrow> failure + 'a list" where
  "array_set xs i v = (if i < length xs then Inr (xs[i := v]) else Inl Undefined)"

section \<open>universe_populate\<close>

text \<open>
  Lines 266 to 270: the bond partners of the reference atom, shifted by
  \<open>i * ref_atom_nb\<close> in 64-bit arithmetic, and its bond strengths.
\<close>

definition populate_bond :: "u64 \<Rightarrow> atom_t \<Rightarrow> nat \<Rightarrow> atom_t \<Rightarrow> failure + atom_t" where
  "populate_bond shift reference iii duplicate =
     (case array_get (bond reference) iii of Inl e \<Rightarrow> Inl e | Inr b \<Rightarrow>
      case array_set (bond duplicate) iii (b + shift) of Inl e \<Rightarrow> Inl e | Inr bs \<Rightarrow>
      case array_get (bond_strength reference) iii of Inl e \<Rightarrow> Inl e | Inr k \<Rightarrow>
      case array_set (bond_strength duplicate) iii k of Inl e \<Rightarrow> Inl e | Inr ks \<Rightarrow>
        Inr (duplicate\<lparr>bond := bs, bond_strength := ks\<rparr>))"

text \<open>Lines 237 to 257: the scalar fields, the three vectors and the position.\<close>

definition populate_fields :: "atom_t \<Rightarrow> vec3d_t \<Rightarrow> atom_t \<Rightarrow> atom_t" where
  "populate_fields reference pos_offset duplicate =
     (let d = duplicate\<lparr>element := element reference\<rparr>;
          d = d\<lparr>charge := charge reference\<rparr>;
          d = d\<lparr>epsilon := epsilon reference\<rparr>;
          d = d\<lparr>sigma := sigma reference\<rparr>;
          d = d\<lparr>bond_nb := bond_nb reference\<rparr>;
          d = d\<lparr>vel := (vel d)\<lparr>vec3d_x := vec3d_x (vel reference)\<rparr>\<rparr>;
          d = d\<lparr>vel := (vel d)\<lparr>vec3d_x := vec3d_y (vel reference)\<rparr>\<rparr>;
          d = d\<lparr>vel := (vel d)\<lparr>vec3d_x := vec3d_z (vel reference)\<rparr>\<rparr>;
          d = d\<lparr>acc := (acc d)\<lparr>vec3d_x := vec3d_x (acc reference)\<rparr>\<rparr>;
          d = d\<lparr>acc := (acc d)\<lparr>vec3d_x := vec3d_y (acc reference)\<rparr>\<rparr>;
          d = d\<lparr>acc := (acc d)\<lparr>vec3d_x := vec3d_z (acc reference)\<rparr>\<rparr>;
          d = d\<lparr>frc := (frc d)\<lparr>vec3d_x := vec3d_x (frc reference)\<rparr>\<rparr>;
          d = d\<lparr>frc := (frc d)\<lparr>vec3d_x := vec3d_y (frc reference)\<rparr>\<rparr>;
          d = d\<lparr>frc := (frc d)\<lparr>vec3d_x := vec3d_z (frc reference)\<rparr>\<rparr>
      in d\<lparr>pos := vec3d_add (pos reference) pos_offset\<rparr>)"

text \<open>
  The body of the loop over \<open>ii\<close> (lines 233 to 270) for copy \<open>i\<close>. The state is
  the universe and the C library.
\<close>

definition populate_atom ::
  "env_t \<Rightarrow> nat \<Rightarrow> vec3d_t \<Rightarrow> nat \<Rightarrow> universe_t \<times> libc_t \<Rightarrow> failure + universe_t \<times> libc_t"
where
  "populate_atom env i pos_offset ii = (\<lambda>(universe, l).
     case array_get (ref_atom universe) ii of Inl e \<Rightarrow> Inl e | Inr reference \<Rightarrow>
    (case array_get (atom universe) (i * ref_atom_nb universe + ii) of Inl e \<Rightarrow> Inl e
     | Inr duplicate \<Rightarrow>
      (let d = populate_fields reference pos_offset duplicate in
       case malloc l (8 * bond_nb reference) of None \<Rightarrow> Inl Failure | Some l \<Rightarrow>
      (let d = d\<lparr>bond := map (uninit_u64 env) [0..<bond_nb reference]\<rparr> in
       case malloc l (8 * bond_nb reference) of None \<Rightarrow> Inl Failure | Some l \<Rightarrow>
      (let d = d\<lparr>bond_strength := map (uninit_double env) [0..<bond_nb reference]\<rparr> in
       case for_loop [0..<bond_nb d]
              (populate_bond (of_nat (i * ref_atom_nb universe)) reference) d of
         Inl e \<Rightarrow> Inl e
       | Inr d \<Rightarrow>
           Inr (universe\<lparr>atom := (atom universe)[i * ref_atom_nb universe + ii := d]\<rparr>,
                l))))))"

text \<open>The body of the loop over the copies (lines 226 to 271).\<close>

definition populate_copy ::
  "env_t \<Rightarrow> nat \<Rightarrow> universe_t \<times> libc_t \<Rightarrow> failure + universe_t \<times> libc_t"
where
  "populate_copy env i = (\<lambda>(universe, l).
     let (pos_offset, g) = vec3d_marsaglia env (rand_state l);
         (r, g) = rand env g;
         pos_offset = vec3d_mul pos_offset (cos (real_of_int r) * box_size universe)
     in for_loop [0..<ref_atom_nb universe] (populate_atom env i pos_offset)
          (universe, l\<lparr>rand_state := g\<rparr>))"

definition universe_populate ::
  "env_t \<Rightarrow> universe_t \<times> libc_t \<Rightarrow> failure + universe_t \<times> libc_t"
where
  "universe_populate env = (\<lambda>(universe, l).
     for_loop [0..<copy_nb universe] (populate_copy env) (universe, l))"


section \<open>universe_setvelocity\<close>

text \<open>Lines 286 to 288: the mass of the reference molecule.\<close>

definition setvelocity_mass :: "env_t \<Rightarrow> universe_t \<Rightarrow> nat \<Rightarrow> real \<Rightarrow> failure + real" where
  "setvelocity_mass env universe i mass_mol =
     (case array_get (ref_atom universe) i of Inl e \<Rightarrow> Inl e
      | Inr a \<Rightarrow> Inr (mass_mol + model_mass env (element a)))"

text \<open>Lines 294 to 299: a fresh direction for atom \<open>i\<close>, scaled by the speed.\<close>

definition setvelocity_atom ::
  "env_t \<Rightarrow> real \<Rightarrow> nat \<Rightarrow> universe_t \<times> libc_t \<Rightarrow> failure + universe_t \<times> libc_t"
where
  "setvelocity_atom env velocity i = (\<lambda>(universe, l).
     let (vec, g) = vec3d_marsaglia env (rand_state l) in
     case array_get (atom universe) i of Inl e \<Rightarrow> Inl e
     | Inr a \<Rightarrow>
         Inr (universe\<lparr>atom := (atom universe)[i := a\<lparr>vel := vec3d_mul vec velocity\<rparr>]\<rparr>,
              l\<lparr>rand_state := g\<rparr>))"

definition universe_setvelocity ::
  "env_t \<Rightarrow> universe_t \<times> libc_t \<Rightarrow> failure + universe_t \<times> libc_t"
where
  "universe_setvelocity env = (\<lambda>(universe, l).
     case for_loop [0..<ref_atom_nb universe] (setvelocity_mass env universe) 0 of
       Inl e \<Rightarrow> Inl e
     | Inr mass_mol \<Rightarrow>
        (let velocity = sqrt (3 * C_BOLTZMANN env * temperature universe / mass_mol)
         in for_loop [0..<atom_nb universe] (setvelocity_atom env velocity) (universe, l)))"

section \<open>universe_printstate, universe_iterate and universe_simulate\<close>

text \<open>
  \<open>fprintf\<close> of the C library on the stream model: the item is appended while the
  stream has room; otherwise nothing is written and the result is negative.
\<close>

definition fprintf :: "ofile_t \<Rightarrow> out_item \<Rightarrow> ofile_t \<times> int" where
  "fprintf f item =
     (case room f of
        None \<Rightarrow> (f\<lparr>written := written f @ [item]\<rparr>, 1)
      | Some 0 \<Rightarrow> (f, - 1)
      | Some (Suc n) \<Rightarrow> (f\<lparr>written := written f @ [item], room := Some n\<rparr>, 1))"

text \<open>Lines 415 to 420: the line of atom \<open>i\<close>; the result of \<open>fprintf\<close> is dropped.\<close>

definition printstate_atom :: "env_t \<Rightarrow> nat \<Rightarrow> universe_t \<Rightarrow> failure + universe_t" where
  "printstate_atom env i universe =
     (case array_get (atom universe) i of Inl e \<Rightarrow> Inl e
      | Inr a \<Rightarrow>
          Inr (universe\<lparr>output_file := fst (fprintf (output_file universe)
                 (AtomLine (model_symbol env (element a))
                    (vec3d_x (pos a) * 10 ^ 10)
                    (vec3d_y (pos a) * 10 ^ 10)
                    (vec3d_z (pos a) * 10 ^ 10)))\<rparr>))"

definition universe_printstate :: "env_t \<Rightarrow> universe_t \<Rightarrow> failure + universe_t" where
  "universe_printstate env universe =
     (let universe = universe\<lparr>output_file := fst (fprintf (output_file universe)
                       (Header (atom_nb universe) (iterations universe)))\<rparr>
      in for_loop [0..<atom_nb universe] (printstate_atom env) universe)"

text \<open>
  One call of a per-atom helper inside a pass over all atoms: \<open>NULL\<close> ends
  \<open>universe_iterate\<close> with \<open>NULL\<close>; otherwise atom \<open>i\<close> takes the new value.
\<close>

definition atom_pass ::
  "(universe_t \<Rightarrow> nat \<Rightarrow> atom_t option) \<Rightarrow> nat \<Rightarrow> universe_t \<Rightarrow> failure + universe_t"
where
  "atom_pass helper i universe =
     (case helper universe i of None \<Rightarrow> Inl Failure
      | Some a \<Rightarrow>
         (case array_set (atom universe) i a of Inl e \<Rightarrow> Inl e
          | Inr as \<Rightarrow> Inr (universe\<lparr>atom := as\<rparr>)))"

definition pbc_pass :: "env_t \<Rightarrow> nat \<Rightarrow> universe_t \<Rightarrow> failure + universe_t" where
  "pbc_pass env i universe =
     (case atom_enforce_pbc env universe i of None \<Rightarrow> Inl Failure
      | Some p \<Rightarrow>
         (case array_get (atom universe) i of Inl e \<Rightarrow> Inl e
          | Inr a \<Rightarrow> Inr (universe\<lparr>atom := (atom universe)[i := a\<lparr>pos := p\<rparr>]\<rparr>)))"

definition universe_iterate :: "env_t \<Rightarrow> args_t \<Rightarrow> universe_t \<Rightarrow> failure + universe_t" where
  "universe_iterate env args universe =
     (case for_loop [0..<atom_nb universe]
             (atom_pass (\<lambda>u. atom_update_pos env u args)) universe of
        Inl e \<Rightarrow> Inl e
      | Inr universe \<Rightarrow>
     (case for_loop [0..<atom_nb universe] (pbc_pass env) universe of
        Inl e \<Rightarrow> Inl e
      | Inr universe \<Rightarrow>
     (case (if numerical args = MODE_NUMERICAL
            then for_loop [0..<atom_nb universe]
                   (atom_pass (atom_update_frc_numerical env)) universe
            else for_loop [0..<atom_nb universe]
                   (atom_pass (atom_update_frc_analytical env)) universe) of
        Inl e \<Rightarrow> Inl e
      | Inr universe \<Rightarrow>
     (case for_loop [0..<atom_nb universe] (atom_pass (atom_update_acc env)) universe of
        Inl e \<Rightarrow> Inl e
      | Inr universe \<Rightarrow>
          for_loop [0..<atom_nb universe]
            (atom_pass (\<lambda>u. atom_update_vel env u args)) universe))))"

text \<open>
  The \<open>while\<close> loop of \<open>universe_simulate\<close> (lines 338 to 356). It may run for
  ever, so the result is an option: \<open>None\<close> is a run that never returns.
\<close>

partial_function (option) simulate_loop ::
  "env_t \<Rightarrow> args_t \<Rightarrow> u64 \<Rightarrow> universe_t \<Rightarrow> (failure + universe_t) option"
where
  "simulate_loop env args frame_nb universe =
     (if time universe < max_time args then
        (case (if frame_nb = 0
               then (case universe_printstate env universe of Inl e \<Rightarrow> Inl e
                     | Inr u \<Rightarrow> Inr (u, frameskip args))
               else Inr (universe, frame_nb - 1)) of
           Inl e \<Rightarrow> Some (Inl e)
         | Inr (u, frame_nb) \<Rightarrow>
            (case universe_iterate env args u of
               Inl e \<Rightarrow> Some (Inl e)
             | Inr u \<Rightarrow>
                 simulate_loop env args frame_nb
                   (u\<lparr>time := double_add env (time u) (timestep args),
                      iterations := iterations u + 1\<rparr>)))
      else Some (Inr universe))"

definition universe_simulate ::
  "env_t \<Rightarrow> args_t \<Rightarrow> universe_t \<Rightarrow> (failure + universe_t) option"
where
  "universe_simulate env args universe = simulate_loop env args 0 universe"

section \<open>universe_energy_potential and universe_montecarlo\<close>

definition energy_potential_atom ::
  "env_t \<Rightarrow> universe_t \<Rightarrow> nat \<Rightarrow> real \<Rightarrow> failure + real"
where
  "energy_potential_atom env universe i energy =
     (case potential_total env universe i of None \<Rightarrow> Inl Failure
      | Some potential \<Rightarrow> Inr (energy + potential))"

definition universe_energy_potential :: "env_t \<Rightarrow> universe_t \<Rightarrow> failure + real" where
  "universe_energy_potential env universe =
     for_loop [0..<atom_nb universe] (energy_potential_atom env universe) 0"

text \<open>
  Lines 509 to 518 of the proposal loop: the random displacement of atom \<open>part_id\<close>
  by a vector of length \<open>pos_offset_mag\<close>, then the periodic boundary conditions.
\<close>

definition montecarlo_propose ::
  "env_t \<Rightarrow> nat \<Rightarrow> real \<Rightarrow> universe_t \<times> libc_t \<Rightarrow> failure + universe_t \<times> libc_t"
where
  "montecarlo_propose env part_id pos_offset_mag = (\<lambda>(universe, l).
     case array_get (atom universe) part_id of Inl e \<Rightarrow> Inl e
     | Inr a \<Rightarrow>
        (let (pos_offset, g) = vec3d_marsaglia env (rand_state l);
             pos_offset = vec3d_mul pos_offset pos_offset_mag;
             universe = universe\<lparr>atom :=
               (atom universe)[part_id := a\<lparr>pos := vec3d_add (pos a) pos_offset\<rparr>]\<rparr>
         in case pbc_pass env part_id universe of Inl e \<Rightarrow> Inl e
            | Inr universe \<Rightarrow> Inr (universe, l\<lparr>rand_state := g\<rparr>)))"

text \<open>Line 529: the rejected move is undone.\<close>

definition montecarlo_restore :: "nat \<Rightarrow> vec3d_t \<Rightarrow> universe_t \<Rightarrow> universe_t" where
  "montecarlo_restore part_id pos_backup universe =
     universe\<lparr>atom := (atom universe)[part_id := (atom universe ! part_id)\<lparr>pos := pos_backup\<rparr>]\<rparr>"

text \<open>
  The \<open>while (1)\<close> loop of lines 498 to 530 for one atom. \<open>None\<close> is a loop that
  never ends.
\<close>

partial_function (option) montecarlo_loop ::
  "env_t \<Rightarrow> nat \<Rightarrow> real \<Rightarrow> u64 \<Rightarrow> real \<Rightarrow> universe_t \<times> libc_t
     \<Rightarrow> (failure + universe_t \<times> libc_t) option"
where
  "montecarlo_loop env part_id potential tries pos_offset_mag state =
     (let (tries, pos_offset_mag) =
            (if tries < 50 then (tries + 1, pos_offset_mag)
             else (0, pos_offset_mag * (1 / 10)));
          pos_backup = pos (atom (fst state) ! part_id)
      in case montecarlo_propose env part_id pos_offset_mag state of
           Inl e \<Rightarrow> Some (Inl e)
         | Inr (universe, l) \<Rightarrow>
            (case universe_energy_potential env universe of
               Inl e \<Rightarrow> Some (Inl e)
             | Inr potential_new \<Rightarrow>
                 if potential_new < potential then Some (Inr (universe, l))
                 else montecarlo_loop env part_id potential tries pos_offset_mag
                        (montecarlo_restore part_id pos_backup universe, l)))"

text \<open>The body of the loop over the atoms (lines 491 to 530).\<close>

definition montecarlo_atom ::
  "env_t \<Rightarrow> nat \<Rightarrow> universe_t \<times> libc_t \<Rightarrow> (failure + universe_t \<times> libc_t) option"
where
  "montecarlo_atom env part_id state =
     (case universe_energy_potential env (fst state) of
        Inl e \<Rightarrow> Some (Inl e)
      | Inr potential \<Rightarrow> montecarlo_loop env part_id potential 0 (1 / 10 ^ 9) state)"

fun montecarlo_for ::
  "env_t \<Rightarrow> nat list \<Rightarrow> universe_t \<times> libc_t \<Rightarrow> (failure + universe_t \<times> libc_t) option"
where
  "montecarlo_for env [] state = Some (Inr state)"
| "montecarlo_for env (part_id # rest) state =
     (case montecarlo_atom env part_id state of
        None \<Rightarrow> None
      | Some (Inl e) \<Rightarrow> Some (Inl e)
      | Some (Inr state') \<Rightarrow> montecarlo_for env rest state')"

definition universe_montecarlo ::
  "env_t \<Rightarrow> universe_t \<times> libc_t \<Rightarrow> (failure + universe_t \<times> libc_t) option"
where
  "universe_montecarlo env state = montecarlo_for env [0..<atom_nb (fst state)] state"

section \<open>universe_load\<close>

text \<open>
  Modelled from the spec: \<open>strtok\<close> and \<open>sscanf\<close> belong to the C library, and section 6
  gives the format of the input file. The input is the file as those calls read it:
  three lines of metadata, the two counts, the atom lines and the bond lines. A line
  that the file does not have is an \<open>Undefined\<close> outcome.
\<close>

record atom_line_t =
  al_x :: real
  al_y :: real
  al_z :: real
  al_element :: u8
  al_charge :: real
  al_epsilon :: real
  al_sigma :: real

record bond_line_t =
  bl_a1 :: u64
  bl_a2 :: u64
  bl_strength :: real

record input_t =
  in_name :: string
  in_author :: string
  in_comment :: string
  in_atom_nb :: nat
  in_bond_nb :: nat
  in_atoms :: "atom_line_t list"
  in_bonds :: "bond_line_t list"

text \<open>The local arrays of \<open>universe_load\<close>, next to the universe being filled.\<close>

record load_t =
  l_universe :: universe_t
  l_a1 :: "u64 list"
  l_a2 :: "u64 list"
  l_bond_strength :: "real list"
  l_bond_index :: "u8 list"

text \<open>\<open>memset (buf, 0, n)\<close> on an array of bytes.\<close>

definition memset_zero :: "u8 list \<Rightarrow> nat \<Rightarrow> failure + u8 list" where
  "memset_zero buf n =
     (if n \<le> length buf then Inr (replicate n 0 @ drop n buf) else Inl Undefined)"

text \<open>
  Lines 111 to 138: the metadata, the counts, and the reference atoms, allocated and
  initialised by \<open>atom_init\<close>.
\<close>

definition load_header ::
  "env_t \<Rightarrow> input_t \<Rightarrow> universe_t \<times> libc_t \<Rightarrow> failure + universe_t \<times> libc_t"
where
  "load_header env inp = (\<lambda>(universe, l).
     case malloc l (length (in_name inp) + 1) of None \<Rightarrow> Inl Failure | Some l \<Rightarrow>
    (let universe = universe\<lparr>meta_name := in_name inp\<rparr> in
     case malloc l (length (in_author inp) + 1) of None \<Rightarrow> Inl Failure | Some l \<Rightarrow>
    (let universe = universe\<lparr>meta_author := in_author inp\<rparr> in
     case malloc l (length (in_comment inp) + 1) of None \<Rightarrow> Inl Failure | Some l \<Rightarrow>
    (let universe = universe\<lparr>meta_comment := in_comment inp\<rparr>;
         universe = universe\<lparr>ref_atom_nb := in_atom_nb inp, ref_bond_nb := in_bond_nb inp\<rparr>
     in case malloc l (sizeof_atom_t env * ref_atom_nb universe) of
          None \<Rightarrow> Inl Failure
        | Some l \<Rightarrow>
            Inr (universe\<lparr>ref_atom :=
                   map (\<lambda>i. atom_init env (uninit_atom env i)) [0..<ref_atom_nb universe]\<rparr>,
                 l)))))"

text \<open>Lines 143 to 153: one atom line, the position scaled from Angstrom to metres.\<close>

definition load_atom :: "input_t \<Rightarrow> nat \<Rightarrow> universe_t \<Rightarrow> failure + universe_t" where
  "load_atom inp i universe =
     (case array_get (in_atoms inp) i of Inl e \<Rightarrow> Inl e | Inr line \<Rightarrow>
     (case array_get (ref_atom universe) i of Inl e \<Rightarrow> Inl e | Inr a \<Rightarrow>
       (let a = a\<lparr>pos := \<lparr>vec3d_x = al_x line, vec3d_y = al_y line, vec3d_z = al_z line\<rparr>,
                   element := al_element line, charge := al_charge line,
                   epsilon := al_epsilon line, sigma := al_sigma line\<rparr>;
            a = a\<lparr>pos := vec3d_mul (pos a) (1 / 10 ^ 10)\<rparr>
        in Inr (universe\<lparr>ref_atom := (ref_atom universe)[i := a]\<rparr>))))"

text \<open>
  Lines 157 to 167: the temporary arrays. \<open>bond_index\<close> is declared \<open>uint8_t *\<close>; its
  allocation has \<open>sizeof (uint64_t) * ref_atom_nb\<close> bytes, of which \<open>memset\<close> zeroes
  the first \<open>ref_bond_nb\<close>.
\<close>

definition load_temporaries ::
  "env_t \<Rightarrow> universe_t \<times> libc_t \<Rightarrow> failure + load_t \<times> libc_t"
where
  "load_temporaries env = (\<lambda>(universe, l).
     case malloc l (8 * ref_bond_nb universe) of None \<Rightarrow> Inl Failure | Some l \<Rightarrow>
    (case malloc l (8 * ref_bond_nb universe) of None \<Rightarrow> Inl Failure | Some l \<Rightarrow>
    (case malloc l (8 * ref_bond_nb universe) of None \<Rightarrow> Inl Failure | Some l \<Rightarrow>
    (case malloc l (8 * ref_atom_nb universe) of None \<Rightarrow> Inl Failure | Some l \<Rightarrow>
    (case memset_zero (map (uninit_u8 env) [0..<8 * ref_atom_nb universe])
            (ref_bond_nb universe) of
       Inl e \<Rightarrow> Inl e
     | Inr bond_index \<Rightarrow>
         Inr (\<lparr>l_universe = universe,
               l_a1 = map (uninit_u64 env) [0..<ref_bond_nb universe],
               l_a2 = map (uninit_u64 env) [0..<ref_bond_nb universe],
               l_bond_strength = map (uninit_double env) [0..<ref_bond_nb universe],
               l_bond_index = bond_index\<rparr>, l))))))"

text \<open>Lines 174 and 175: \<open>++(universe->ref_atom[j].bond_nb)\<close>.\<close>

definition count_bond :: "nat \<Rightarrow> universe_t \<Rightarrow> failure + universe_t" where
  "count_bond j universe =
     (case array_get (ref_atom universe) j of Inl e \<Rightarrow> Inl e
      | Inr a \<Rightarrow>
          Inr (universe\<lparr>ref_atom := (ref_atom universe)[j := a\<lparr>bond_nb := bond_nb a + 1\<rparr>]\<rparr>))"

text \<open>
  Lines 172 to 175: one bond line. The indices of the file count from 1; \<open>a1[i] - 1\<close>
  is a 64-bit subtraction.
\<close>

definition read_bond :: "input_t \<Rightarrow> nat \<Rightarrow> load_t \<Rightarrow> failure + load_t" where
  "read_bond inp i st =
     (case array_get (in_bonds inp) i of Inl e \<Rightarrow> Inl e | Inr line \<Rightarrow>
     (case array_set (l_a1 st) i (bl_a1 line) of Inl e \<Rightarrow> Inl e | Inr a1 \<Rightarrow>
     (case array_set (l_a2 st) i (bl_a2 line) of Inl e \<Rightarrow> Inl e | Inr a2 \<Rightarrow>
     (case array_set (l_bond_strength st) i (bl_strength line) of Inl e \<Rightarrow> Inl e
      | Inr strengths \<Rightarrow>
     (case count_bond (unat (bl_a1 line - 1)) (l_universe st) of Inl e \<Rightarrow> Inl e
      | Inr universe \<Rightarrow>
     (case count_bond (unat (bl_a2 line - 1)) universe of Inl e \<Rightarrow> Inl e
      | Inr universe \<Rightarrow>
          Inr (st\<lparr>l_universe := universe, l_a1 := a1, l_a2 := a2,
                  l_bond_strength := strengths\<rparr>)))))))"

text \<open>Lines 182 to 187: the two bond arrays of reference atom \<open>i\<close>.\<close>

definition alloc_bonds ::
  "env_t \<Rightarrow> nat \<Rightarrow> universe_t \<times> libc_t \<Rightarrow> failure + universe_t \<times> libc_t"
where
  "alloc_bonds env i = (\<lambda>(universe, l).
     case array_get (ref_atom universe) i of Inl e \<Rightarrow> Inl e | Inr a \<Rightarrow>
    (case malloc l (8 * bond_nb a) of None \<Rightarrow> Inl Failure | Some l \<Rightarrow>
    (case malloc l (8 * bond_nb a) of None \<Rightarrow> Inl Failure | Some l \<Rightarrow>
       Inr (universe\<lparr>ref_atom := (ref_atom universe)
              [i := a\<lparr>bond := map (uninit_u64 env) [0..<bond_nb a],
                      bond_strength := map (uninit_double env) [0..<bond_nb a]\<rparr>]\<rparr>, l))))"

text \<open>
  Lines 196 and 197 (and 199 and 200): the partner and the strength are stored in the
  arrays of atom \<open>owner\<close> at the offset that \<open>bond_index[owner]\<close> holds.
\<close>

definition place_bond :: "nat \<Rightarrow> u64 \<Rightarrow> real \<Rightarrow> load_t \<Rightarrow> failure + load_t" where
  "place_bond owner partner strength st =
     (case array_get (l_bond_index st) owner of Inl e \<Rightarrow> Inl e | Inr offset \<Rightarrow>
     (case array_get (ref_atom (l_universe st)) owner of Inl e \<Rightarrow> Inl e | Inr a \<Rightarrow>
     (case array_set (bond a) (unat offset) partner of Inl e \<Rightarrow> Inl e | Inr bs \<Rightarrow>
     (case array_set (bond_strength a) (unat offset) strength of Inl e \<Rightarrow> Inl e
      | Inr ks \<Rightarrow>
          Inr (st\<lparr>l_universe := (l_universe st)\<lparr>ref_atom :=
                 (ref_atom (l_universe st))[owner := a\<lparr>bond := bs, bond_strength := ks\<rparr>]\<rparr>\<rparr>)))))"

text \<open>Lines 202 and 203: \<open>++bond_index[j]\<close>, on eight bits.\<close>

definition next_index :: "nat \<Rightarrow> load_t \<Rightarrow> failure + load_t" where
  "next_index j st =
     (case array_get (l_bond_index st) j of Inl e \<Rightarrow> Inl e
      | Inr offset \<Rightarrow> Inr (st\<lparr>l_bond_index := (l_bond_index st)[j := offset + 1]\<rparr>))"

text \<open>Lines 193 to 203: bond \<open>i\<close> is entered at both of its atoms.\<close>

definition load_bond :: "nat \<Rightarrow> load_t \<Rightarrow> failure + load_t" where
  "load_bond i st =
     (case array_get (l_a1 st) i of Inl e \<Rightarrow> Inl e | Inr a1 \<Rightarrow>
     (case array_get (l_a2 st) i of Inl e \<Rightarrow> Inl e | Inr a2 \<Rightarrow>
     (case array_get (l_bond_strength st) i of Inl e \<Rightarrow> Inl e | Inr strength \<Rightarrow>
     (let first = a1 - 1; second = a2 - 1 in
      case place_bond (unat first) second strength st of Inl e \<Rightarrow> Inl e | Inr st \<Rightarrow>
     (case place_bond (unat second) first strength st of Inl e \<Rightarrow> Inl e | Inr st \<Rightarrow>
     (case next_index (unat first) st of Inl e \<Rightarrow> Inl e | Inr st \<Rightarrow>
        next_index (unat second) st))))))"

definition universe_load ::
  "env_t \<Rightarrow> input_t \<Rightarrow> universe_t \<times> libc_t \<Rightarrow> failure + universe_t \<times> libc_t"
where
  "universe_load env inp state =
     (case load_header env inp state of Inl e \<Rightarrow> Inl e | Inr (universe, l) \<Rightarrow>
     (case for_loop [0..<ref_atom_nb universe] (load_atom inp) universe of
        Inl e \<Rightarrow> Inl e
      | Inr universe \<Rightarrow>
     (case load_temporaries env (universe, l) of Inl e \<Rightarrow> Inl e | Inr (st, l) \<Rightarrow>
     (case for_loop [0..<ref_bond_nb universe] (read_bond inp) st of Inl e \<Rightarrow> Inl e
      | Inr st \<Rightarrow>
     (case for_loop [0..<ref_atom_nb universe] (alloc_bonds env) (l_universe st, l) of
        Inl e \<Rightarrow> Inl e
      | Inr (universe, l) \<Rightarrow>
     (case for_loop [0..<ref_bond_nb universe] load_bond (st\<lparr>l_universe := universe\<rparr>) of
        Inl e \<Rightarrow> Inl e
      | Inr st \<Rightarrow>
          Inr (l_universe st,
               free (free (free (free l (8 * ref_bond_nb universe))
                 (8 * ref_bond_nb universe)) (8 * ref_bond_nb universe))
                 (8 * ref_atom_nb universe))))))))"

section \<open>Predicates used in the proofs\<close>

text \<open>
  State of the bond loop of \<open>universe_populate\<close> after \<open>k\<close> iterations: only the
  two bond arrays of the duplicate \<open>d0\<close> have changed, and their first \<open>k\<close> entries
  are those of the reference atom, the partners shifted.
\<close>

definition bonds_copied :: "u64 \<Rightarrow> atom_t \<Rightarrow> atom_t \<Rightarrow> nat \<Rightarrow> atom_t \<Rightarrow> bool" where
  "bonds_copied shift r d0 k d \<longleftrightarrow>
     d = d0\<lparr>bond := bond d, bond_strength := bond_strength d\<rparr>
     \<and> length (bond d) = length (bond d0)
     \<and> length (bond_strength d) = length (bond_strength d0)
     \<and> (\<forall>iii<k. iii < length (bond r) \<and> iii < length (bond_strength r)
            \<and> bond d ! iii = bond r ! iii + shift
            \<and> bond_strength d ! iii = bond_strength r ! iii)"

text \<open>
  What \<open>universe_populate\<close> makes of the atom \<open>d\<close> at index \<open>i * R + ii\<close>, given the
  reference atom \<open>r\<close>: the result \<open>d'\<close>.
\<close>

definition duplicated :: "nat \<Rightarrow> nat \<Rightarrow> atom_t \<Rightarrow> atom_t \<Rightarrow> atom_t \<Rightarrow> bool" where
  "duplicated i R r d d' \<longleftrightarrow>
     element d' = element r \<and> charge d' = charge r
     \<and> epsilon d' = epsilon r \<and> sigma d' = sigma r
     \<and> bond_nb d' = bond_nb r
     \<and> length (bond d') = bond_nb r \<and> length (bond_strength d') = bond_nb r
     \<and> (\<forall>iii<bond_nb r. iii < length (bond r) \<and> iii < length (bond_strength r)
            \<and> bond d' ! iii = bond r ! iii + of_nat (i * R)
            \<and> bond_strength d' ! iii = bond_strength r ! iii)
     \<and> vel d' = (vel d)\<lparr>vec3d_x := vec3d_z (vel r)\<rparr>
     \<and> acc d' = (acc d)\<lparr>vec3d_x := vec3d_z (acc r)\<rparr>
     \<and> frc d' = (frc d)\<lparr>vec3d_x := vec3d_z (frc r)\<rparr>"

text \<open>Copy \<open>i\<close> after its first \<open>k\<close> atoms, and the universe after its first \<open>m\<close> copies.\<close>

definition copy_done :: "nat \<Rightarrow> universe_t \<Rightarrow> nat \<Rightarrow> universe_t \<times> libc_t \<Rightarrow> bool" where
  "copy_done i u k = (\<lambda>(u', l').
     u' = u\<lparr>atom := atom u'\<rparr> \<and> length (atom u') = length (atom u)
     \<and> (\<forall>ii<k. ii < length (ref_atom u) \<and> i * ref_atom_nb u + ii < length (atom u)
           \<and> duplicated i (ref_atom_nb u) (ref_atom u ! ii)
                 (atom u ! (i * ref_atom_nb u + ii)) (atom u' ! (i * ref_atom_nb u + ii)))
     \<and> (\<forall>j. j < i * ref_atom_nb u \<or> i * ref_atom_nb u + k \<le> j
           \<longrightarrow> atom u' ! j = atom u ! j))"

definition copies_done :: "universe_t \<Rightarrow> nat \<Rightarrow> universe_t \<times> libc_t \<Rightarrow> bool" where
  "copies_done u m = (\<lambda>(u', l').
     u' = u\<lparr>atom := atom u'\<rparr> \<and> length (atom u') = length (atom u)
     \<and> (\<forall>i<m. \<forall>ii<ref_atom_nb u.
           ii < length (ref_atom u) \<and> i * ref_atom_nb u + ii < length (atom u)
           \<and> duplicated i (ref_atom_nb u) (ref_atom u ! ii)
                 (atom u ! (i * ref_atom_nb u + ii)) (atom u' ! (i * ref_atom_nb u + ii)))
     \<and> (\<forall>j. m * ref_atom_nb u \<le> j \<longrightarrow> atom u' ! j = atom u ! j))"

text \<open>
  State of the velocity loop of \<open>universe_setvelocity\<close> after \<open>k\<close> atoms: atom
  \<open>i < k\<close> has the velocity \<open>v\<close> times the \<open>i\<close>-th vector drawn from the sampler.
\<close>

definition velocities_set :: "env_t \<Rightarrow> real \<Rightarrow> universe_t \<Rightarrow> libc_t \<Rightarrow> nat \<Rightarrow> universe_t \<times> libc_t \<Rightarrow> bool" where
  "velocities_set env v u l k = (\<lambda>(u', l').
     u' = u\<lparr>atom := atom u'\<rparr> \<and> length (atom u') = length (atom u)
     \<and> rand_state l' = ((snd \<circ> vec3d_marsaglia env) ^^ k) (rand_state l)
     \<and> (\<forall>i<k. i < length (atom u)
           \<and> vel (atom u' ! i) = vec3d_mul
                (fst (vec3d_marsaglia env (((snd \<circ> vec3d_marsaglia env) ^^ i) (rand_state l)))) v)
     \<and> (\<forall>j\<ge>k. atom u' ! j = atom u ! j))"

section \<open>A small system for concrete runs\<close>


text \<open>
  Two bonded reference atoms, two copies. The sampler always returns the unit vector
  along z, \<open>rand\<close> always 0, the helpers of atom.c leave the atom as it is, and the
  potential of an atom is minus its height, so that a move along z lowers it. The
  sums of the simulated time are exact, as they are in doubles for the small whole
  numbers of the runs below.
\<close>

definition vec3d_zero :: vec3d_t where
  "vec3d_zero = \<lparr>vec3d_x = 0, vec3d_y = 0, vec3d_z = 0\<rparr>"

definition ex_blank :: atom_t where
  "ex_blank = \<lparr>element = 0, charge = 0, epsilon = 0, sigma = 0, bond_nb = 0, bond = [],
     bond_strength = [], pos = vec3d_zero,
     vel = \<lparr>vec3d_x = 7, vec3d_y = 8, vec3d_z = 9\<rparr>,
     acc = \<lparr>vec3d_x = 17, vec3d_y = 18, vec3d_z = 19\<rparr>,
     frc = \<lparr>vec3d_x = 27, vec3d_y = 28, vec3d_z = 29\<rparr>\<rparr>"

definition ex_env :: env_t where
  "ex_env = \<lparr>C_BOLTZMANN = 1, model_mass = (\<lambda>e. 3 / 2), model_symbol = (\<lambda>e. ''H''),
     vec3d_marsaglia = (\<lambda>g. (\<lparr>vec3d_x = 0, vec3d_y = 0, vec3d_z = 1\<rparr>, Suc g)),
     rand = (\<lambda>g. (0, Suc g)),
     potential_total = (\<lambda>u i. Some (- vec3d_z (pos (atom u ! i)))),
     atom_enforce_pbc = (\<lambda>u i. Some (pos (atom u ! i))),
     atom_update_pos = (\<lambda>u a i. Some (atom u ! i)),
     atom_update_frc_numerical = (\<lambda>u i. Some (atom u ! i)),
     atom_update_frc_analytical = (\<lambda>u i. Some (atom u ! i)),
     atom_update_acc = (\<lambda>u i. Some (atom u ! i)),
     atom_update_vel = (\<lambda>u a i. Some (atom u ! i)),
     sizeof_atom_t = 160, atom_init = (\<lambda>a. ex_blank),
     uninit_atom = (\<lambda>n. ex_blank),
     uninit_u8 = (\<lambda>n. 0), uninit_u64 = (\<lambda>n. 0), uninit_double = (\<lambda>n. 0),
     double_add = (\<lambda>x y. x + y)\<rparr>"

definition ex_ref0 :: atom_t where
  "ex_ref0 = \<lparr>element = 1, charge = 0, epsilon = 1, sigma = 1, bond_nb = 1, bond = [1],
     bond_strength = [5], pos = vec3d_zero,
     vel = \<lparr>vec3d_x = 1, vec3d_y = 2, vec3d_z = 3\<rparr>,
     acc = \<lparr>vec3d_x = 11, vec3d_y = 12, vec3d_z = 13\<rparr>,
     frc = \<lparr>vec3d_x = 21, vec3d_y = 22, vec3d_z = 23\<rparr>\<rparr>"

definition ex_ref1 :: atom_t where
  "ex_ref1 = ex_ref0\<lparr>bond := [0], pos := \<lparr>vec3d_x = 1, vec3d_y = 0, vec3d_z = 0\<rparr>\<rparr>"

definition ex_universe :: universe_t where
  "ex_universe = \<lparr>meta_name = ''H2'', meta_author = ''nobody'', meta_comment = ''dimer'',
     ref_atom_nb = 2, ref_bond_nb = 1, copy_nb = 2, atom_nb = 4, box_size = 1, time = 0,
     temperature = 4, pressure = 1, iterations = 0, ref_atom = [ex_ref0, ex_ref1],
     atom = [ex_blank, ex_blank, ex_blank, ex_blank],
     output_file = \<lparr>written = [], room = None\<rparr>\<rparr>"

definition ex_libc :: libc_t where
  "ex_libc = \<lparr>heap_free = 1000, rand_state = 0\<rparr>"

text \<open>What \<open>universe_populate\<close> returns on the small system.\<close>

definition ex_copy :: "u64 \<Rightarrow> atom_t \<Rightarrow> atom_t" where
  "ex_copy shift r = r\<lparr>bond := map (\<lambda>b. b + shift) (bond r),
     pos := vec3d_add (pos r) \<lparr>vec3d_x = 0, vec3d_y = 0, vec3d_z = 1\<rparr>,
     vel := \<lparr>vec3d_x = 3, vec3d_y = 8, vec3d_z = 9\<rparr>,
     acc := \<lparr>vec3d_x = 13, vec3d_y = 18, vec3d_z = 19\<rparr>,
     frc := \<lparr>vec3d_x = 23, vec3d_y = 28, vec3d_z = 29\<rparr>\<rparr>"

definition ex_populated :: universe_t where
  "ex_populated = ex_universe\<lparr>atom :=
     [ex_copy 0 ex_ref0, ex_copy 0 ex_ref1, ex_copy 2 ex_ref0, ex_copy 2 ex_ref1]\<rparr>"

text \<open>What \<open>universe_setvelocity\<close> returns on the small system.\<close>

definition ex_thermal :: universe_t where
  "ex_thermal = ex_universe\<lparr>atom :=
     replicate 4 (ex_blank\<lparr>vel := \<lparr>vec3d_x = 0, vec3d_y = 0, vec3d_z = 2\<rparr>\<rparr>)\<rparr>"

section \<open>Frames in the trajectory file\<close>

text \<open>
  The items of one complete frame of the universe, in the order in which
  \<open>universe_printstate\<close> sends them, and the iteration indices of the frame headers
  that a stream holds.
\<close>

definition atom_line :: "env_t \<Rightarrow> atom_t \<Rightarrow> out_item" where
  "atom_line env a = AtomLine (model_symbol env (element a))
     (vec3d_x (pos a) * 10 ^ 10) (vec3d_y (pos a) * 10 ^ 10) (vec3d_z (pos a) * 10 ^ 10)"

definition frame_of :: "env_t \<Rightarrow> universe_t \<Rightarrow> out_item list" where
  "frame_of env u =
     Header (atom_nb u) (iterations u) # map (atom_line env) (take (atom_nb u) (atom u))"

fun header_index :: "out_item \<Rightarrow> nat list" where
  "header_index (Header n it) = [it]"
| "header_index (AtomLine s x y z) = []"

definition frame_indices :: "out_item list \<Rightarrow> nat list" where
  "frame_indices items = concat (map header_index items)"

text \<open>What a stream keeps of a list of items sent to it, and the room left after.\<close>

definition accepted :: "ofile_t \<Rightarrow> out_item list \<Rightarrow> out_item list" where
  "accepted f items = (case room f of None \<Rightarrow> items | Some r \<Rightarrow> take r items)"

definition room_after :: "ofile_t \<Rightarrow> out_item list \<Rightarrow> nat option" where
  "room_after f items = (case room f of None \<Rightarrow> None | Some r \<Rightarrow> Some (r - length items))"

text \<open>
  The iteration indices at which the countdown of \<open>universe_simulate\<close> emits a frame
  during \<open>k\<close> more steps, when the countdown stands at \<open>c\<close> and the iteration counter
  at \<open>m\<close>.
\<close>

fun schedule :: "u64 \<Rightarrow> u64 \<Rightarrow> nat \<Rightarrow> nat \<Rightarrow> nat list" where
  "schedule skip c m 0 = []"
| "schedule skip c m (Suc k) =
     (if c = 0 then m # schedule skip skip (Suc m) k else schedule skip (c - 1) (Suc m) k)"

text \<open>
  With the countdown at \<open>c\<close> at iteration \<open>m\<close>, a frame is due at iteration \<open>it\<close>
  when \<open>it - m\<close> is \<open>c\<close> plus a multiple of \<open>skip + 1\<close>.
\<close>

definition due :: "u64 \<Rightarrow> u64 \<Rightarrow> nat \<Rightarrow> nat \<Rightarrow> bool" where
  "due skip c m it \<longleftrightarrow> (it - m + unat skip + 1 - unat c) mod (unat skip + 1) = 0"

text \<open>The frame indices in the file after a successful run of \<open>universe_simulate\<close>.\<close>

definition simulated_frames :: "env_t \<Rightarrow> args_t \<Rightarrow> universe_t \<Rightarrow> nat list option" where
  "simulated_frames env args u =
     (case universe_simulate env args u of
        Some (Inr u') \<Rightarrow> Some (frame_indices (written (output_file u')))
      | _ \<Rightarrow> None)"

text \<open>A single atom, twenty steps of one time unit, a frame skip of four.\<close>

definition ex_single :: universe_t where
  "ex_single = ex_universe\<lparr>ref_atom_nb := 1, ref_bond_nb := 0, copy_nb := 1, atom_nb := 1,
     ref_atom := [ex_blank], atom := [ex_blank]\<rparr>"

definition ex_args :: args_t where
  "ex_args = \<lparr>max_time = 20, timestep = 1, frameskip = 4, numerical = MODE_ANALYTICAL\<rparr>"

text \<open>
  State of the loop of \<open>universe_printstate\<close> after \<open>k\<close> atoms: only the output
  stream has changed; it was sent the header and the first \<open>k\<close> atom lines.
\<close>

definition printed :: "env_t \<Rightarrow> universe_t \<Rightarrow> nat \<Rightarrow> universe_t \<Rightarrow> bool" where
  "printed env u k u' \<longleftrightarrow>
     u' = u\<lparr>output_file := output_file u'\<rparr> \<and> k \<le> length (atom u)
     \<and> written (output_file u') = written (output_file u)
          @ accepted (output_file u)
              (Header (atom_nb u) (iterations u) # map (atom_line env) (take k (atom u)))
     \<and> room (output_file u') = room_after (output_file u)
              (Header (atom_nb u) (iterations u) # map (atom_line env) (take k (atom u)))"

text \<open>
  What a run of the loop of \<open>universe_simulate\<close> from \<open>u\<close> to \<open>u'\<close> added to the file:
  every header written carries an iteration index from \<open>iterations u\<close> up to, but not
  including, \<open>iterations u'\<close>.
\<close>

definition emitted_before :: "universe_t \<Rightarrow> universe_t \<Rightarrow> bool" where
  "emitted_before u u' \<longleftrightarrow>
     iterations u \<le> iterations u'
     \<and> (\<exists>items. written (output_file u') = written (output_file u) @ items
          \<and> (\<forall>a n. Header a n \<in> set items \<longrightarrow> iterations u \<le> n \<and> n < iterations u'))"

text \<open>The small system after the twenty steps, and its file.\<close>

definition ex_simulated :: universe_t where
  "ex_simulated = ex_single\<lparr>time := 20, iterations := 20, output_file :=
     \<lparr>written = [Header 1 0, AtomLine ''H'' 0 0 0, Header 1 5, AtomLine ''H'' 0 0 0,
                 Header 1 10, AtomLine ''H'' 0 0 0, Header 1 15, AtomLine ''H'' 0 0 0],
      room = None\<rparr>\<rparr>"

text \<open>The same run with \<open>max_time = 21\<close>: one step more.\<close>

definition ex_args_long :: args_t where
  "ex_args_long = ex_args\<lparr>max_time := 21\<rparr>"

definition ex_simulated_long :: universe_t where
  "ex_simulated_long = ex_single\<lparr>time := 21, iterations := 21, output_file :=
     \<lparr>written = [Header 1 0, AtomLine ''H'' 0 0 0, Header 1 5, AtomLine ''H'' 0 0 0,
                 Header 1 10, AtomLine ''H'' 0 0 0, Header 1 15, AtomLine ''H'' 0 0 0,
                 Header 1 20, AtomLine ''H'' 0 0 0],
      room = None\<rparr>\<rparr>"

text \<open>
  The same system on a stream that accepts one more item and then fails (a full
  disk), run for two steps.
\<close>

definition ex_full :: universe_t where
  "ex_full = ex_single\<lparr>output_file := \<lparr>written = [], room = Some 1\<rparr>\<rparr>"

definition ex_args_short :: args_t where
  "ex_args_short = ex_args\<lparr>max_time := 2\<rparr>"


text \<open>
  What a successful run of the loop over the atoms \<open>part_ids\<close> has done to the
  universe: for each atom in turn, one proposal was accepted, whose total potential
  is strictly below the one before it; the proposal was made on the universe
  exactly as the previous atom left it (only the state of the generator has moved
  on), with a step of \<open>1E-9\<close> times a power of \<open>0.1\<close>. No rejected proposal has
  left a trace.
\<close>

inductive relaxed ::
  "env_t \<Rightarrow> nat list \<Rightarrow> universe_t \<times> libc_t \<Rightarrow> universe_t \<times> libc_t \<Rightarrow> bool"
  for env :: env_t
where
  relaxed_Nil: "relaxed env [] state state"
| relaxed_Cons:
    "universe_energy_potential env universe = Inr potential
     \<Longrightarrow> montecarlo_propose env part_id (1 / 10 ^ 9 * (1 / 10) ^ k)
           (universe, l\<lparr>rand_state := g\<rparr>) = Inr (universe1, l1)
     \<Longrightarrow> universe_energy_potential env universe1 = Inr potential_new
     \<Longrightarrow> potential_new < potential
     \<Longrightarrow> relaxed env rest (universe1, l1) state'
     \<Longrightarrow> relaxed env (part_id # rest) (universe, l) state'"

text \<open>
  The small system where every configuration has the potential 0; the small system
  whose sampler first returns the unit vector pointing down, then the one pointing
  up; and the single atom after the move down and after the move up.
\<close>

definition ex_bouncy :: env_t where
  "ex_bouncy = ex_env\<lparr>vec3d_marsaglia :=
     (\<lambda>g. (\<lparr>vec3d_x = 0, vec3d_y = 0, vec3d_z = (if g = 0 then - 1 else 1)\<rparr>, Suc g))\<rparr>"

definition ex_sunk :: universe_t where
  "ex_sunk = ex_single\<lparr>atom :=
     [ex_blank\<lparr>pos := \<lparr>vec3d_x = 0, vec3d_y = 0, vec3d_z = - (1 / 10 ^ 9)\<rparr>\<rparr>]\<rparr>"


definition ex_relaxed :: universe_t where
  "ex_relaxed = ex_single\<lparr>atom :=
     [ex_blank\<lparr>pos := \<lparr>vec3d_x = 0, vec3d_y = 0, vec3d_z = 1 / 10 ^ 9\<rparr>\<rparr>]\<rparr>"


section \<open>Predicates for universe_load\<close>

text \<open>
  The atoms that bond line \<open>i\<close> names, as the indices \<open>a1[i] - 1\<close> and \<open>a2[i] - 1\<close> that
  the code computes, and the number of times atom \<open>j\<close> is named as an end of one of
  the first \<open>k\<close> bond lines (a line that names the same atom twice counts twice, as
  in lines 174 and 175).
\<close>

definition first_of :: "input_t \<Rightarrow> nat \<Rightarrow> nat" where
  "first_of inp i = unat (bl_a1 (in_bonds inp ! i) - 1)"

definition second_of :: "input_t \<Rightarrow> nat \<Rightarrow> nat" where
  "second_of inp i = unat (bl_a2 (in_bonds inp ! i) - 1)"

definition mentions :: "input_t \<Rightarrow> nat \<Rightarrow> nat \<Rightarrow> nat" where
  "mentions inp k j =
     (\<Sum>i<k. (if first_of inp i = j then 1 else 0) + (if second_of inp i = j then 1 else 0))"

text \<open>The two bond arrays of reference atom \<open>j\<close> in a state of \<open>universe_load\<close>.\<close>

definition bonds_of :: "load_t \<Rightarrow> nat \<Rightarrow> u64 list" where
  "bonds_of st j = bond (ref_atom (l_universe st) ! j)"

definition strengths_of :: "load_t \<Rightarrow> nat \<Rightarrow> real list" where
  "strengths_of st j = bond_strength (ref_atom (l_universe st) ! j)"

text \<open>
  Two states of the loop of lines 191 to 204 with the same temporary arrays, the same
  counts and the same allocated lengths: only the content of the bond arrays and of
  the counters differs.
\<close>

definition same_shape :: "load_t \<Rightarrow> load_t \<Rightarrow> bool" where
  "same_shape st st' \<longleftrightarrow>
     l_a1 st' = l_a1 st \<and> l_a2 st' = l_a2 st \<and> l_bond_strength st' = l_bond_strength st
     \<and> length (l_bond_index st') = length (l_bond_index st)
     \<and> ref_atom_nb (l_universe st') = ref_atom_nb (l_universe st)
     \<and> ref_bond_nb (l_universe st') = ref_bond_nb (l_universe st)
     \<and> length (ref_atom (l_universe st')) = length (ref_atom (l_universe st))
     \<and> (\<forall>j. bond_nb (ref_atom (l_universe st') ! j) = bond_nb (ref_atom (l_universe st) ! j)
           \<and> length (bonds_of st' j) = length (bonds_of st j)
           \<and> length (strengths_of st' j) = length (strengths_of st j))"

text \<open>
  The array \<open>xs\<close> of atom \<open>j\<close> after the two stores of one bond line: slot \<open>p\<close> of
  atom \<open>f\<close> takes \<open>v\<close>, then slot \<open>q\<close> of atom \<open>s\<close> takes \<open>w\<close>.
\<close>

definition twice_set :: "'a list \<Rightarrow> nat \<Rightarrow> nat \<Rightarrow> nat \<Rightarrow> 'a \<Rightarrow> nat \<Rightarrow> nat \<Rightarrow> 'a \<Rightarrow> 'a list" where
  "twice_set xs j f p v s q w =
     (let ys = (if j = f then xs[p := v] else xs) in if j = s then ys[q := w] else ys)"

text \<open>
  Bond line \<open>i\<close> is entered: with the counters starting at \<open>c0\<close>, the slot of each of
  its two atoms is the start value of that atom's counter plus the number of earlier
  mentions of the atom, on eight bits; the slot lies inside the arrays and holds
  the partner and the strength of the line.
\<close>

definition entered :: "input_t \<Rightarrow> u8 list \<Rightarrow> nat \<Rightarrow> load_t \<Rightarrow> bool" where
  "entered inp c0 i st \<longleftrightarrow>
     (let f = first_of inp i; s = second_of inp i;
          p = unat (c0 ! f + of_nat (mentions inp i f));
          q = unat (c0 ! s + of_nat (mentions inp i s));
          b = in_bonds inp ! i
      in p < length (bonds_of st f) \<and> p < length (strengths_of st f)
       \<and> bonds_of st f ! p = bl_a2 b - 1 \<and> strengths_of st f ! p = bl_strength b
       \<and> q < length (bonds_of st s) \<and> q < length (strengths_of st s)
       \<and> bonds_of st s ! q = bl_a1 b - 1 \<and> strengths_of st s ! q = bl_strength b)"

text \<open>
  State of the loop of lines 191 to 204 after \<open>k\<close> bond lines, started in \<open>st0\<close> with
  the counters \<open>c0\<close>.
\<close>

definition loaded :: "input_t \<Rightarrow> u8 list \<Rightarrow> load_t \<Rightarrow> nat \<Rightarrow> load_t \<Rightarrow> bool" where
  "loaded inp c0 st0 k st \<longleftrightarrow>
     same_shape st0 st \<and> length (l_bond_index st) = length c0
     \<and> (\<forall>j<length c0. l_bond_index st ! j = c0 ! j + of_nat (mentions inp k j))
     \<and> (\<forall>i<k. first_of inp i < length c0 \<and> second_of inp i < length c0
            \<and> first_of inp i < length (ref_atom (l_universe st0))
            \<and> second_of inp i < length (ref_atom (l_universe st0))
            \<and> entered inp c0 i st)"

text \<open>The temporary arrays hold the first \<open>B\<close> bond lines of the file.\<close>

definition lines_read :: "input_t \<Rightarrow> nat \<Rightarrow> load_t \<Rightarrow> bool" where
  "lines_read inp B st \<longleftrightarrow>
     (\<forall>i<B. l_a1 st ! i = bl_a1 (in_bonds inp ! i) \<and> l_a2 st ! i = bl_a2 (in_bonds inp ! i)
        \<and> l_bond_strength st ! i = bl_strength (in_bonds inp ! i))"

text \<open>The two counts and the length of the reference array are unchanged.\<close>

definition counts_kept :: "universe_t \<Rightarrow> universe_t \<Rightarrow> bool" where
  "counts_kept u u' \<longleftrightarrow>
     ref_atom_nb u' = ref_atom_nb u \<and> ref_bond_nb u' = ref_bond_nb u
     \<and> length (ref_atom u') = length (ref_atom u)"

text \<open>State of the loop of lines 170 to 176 after \<open>k\<close> bond lines.\<close>

definition read_done :: "input_t \<Rightarrow> load_t \<Rightarrow> nat \<Rightarrow> load_t \<Rightarrow> bool" where
  "read_done inp st0 k st \<longleftrightarrow>
     l_bond_index st = l_bond_index st0
     \<and> length (l_a1 st) = length (l_a1 st0) \<and> length (l_a2 st) = length (l_a2 st0)
     \<and> length (l_bond_strength st) = length (l_bond_strength st0)
     \<and> lines_read inp k st
     \<and> counts_kept (l_universe st0) (l_universe st)
     \<and> (\<forall>j<length (ref_atom (l_universe st0)).
           bond_nb (ref_atom (l_universe st) ! j)
             = bond_nb (ref_atom (l_universe st0) ! j) + mentions inp k j)
     \<and> (\<forall>i<k. first_of inp i < length (ref_atom (l_universe st0))
            \<and> second_of inp i < length (ref_atom (l_universe st0)))"

text \<open>State of the loop of lines 179 to 188 after \<open>k\<close> atoms.\<close>

definition alloc_done :: "universe_t \<Rightarrow> nat \<Rightarrow> universe_t \<times> libc_t \<Rightarrow> bool" where
  "alloc_done u0 k = (\<lambda>(u, l).
     counts_kept u0 u \<and> (\<forall>j. bond_nb (ref_atom u ! j) = bond_nb (ref_atom u0 ! j))
     \<and> (\<forall>j<k. j < length (ref_atom u0)
           \<and> length (bond (ref_atom u ! j)) = bond_nb (ref_atom u0 ! j)
           \<and> length (bond_strength (ref_atom u ! j)) = bond_nb (ref_atom u0 ! j)))"

text \<open>
  What a successful \<open>universe_load\<close> leaves: the counts, the bond arrays of every
  reference atom with their lengths, and every bond line entered, for the counters
  \<open>c0\<close> that \<open>memset\<close> left.
\<close>

definition load_summary :: "env_t \<Rightarrow> input_t \<Rightarrow> universe_t \<Rightarrow> u8 list \<Rightarrow> bool" where
  "load_summary env inp u' c0 \<longleftrightarrow>
     (let R = in_atom_nb inp; B = in_bond_nb inp in
      B \<le> 8 * R
      \<and> c0 = replicate B 0 @ drop B (map (uninit_u8 env) [0..<8 * R])
      \<and> ref_atom_nb u' = R \<and> ref_bond_nb u' = B \<and> length (ref_atom u') = R
      \<and> (\<forall>j<R. bond_nb (ref_atom u' ! j)
              = bond_nb (atom_init env (uninit_atom env j)) + mentions inp B j
            \<and> length (bond (ref_atom u' ! j)) = bond_nb (ref_atom u' ! j)
            \<and> length (bond_strength (ref_atom u' ! j)) = bond_nb (ref_atom u' ! j))
      \<and> (\<forall>i<B. first_of inp i < R \<and> second_of inp i < R
            \<and> entered inp c0 i \<lparr>l_universe = u', l_a1 = [], l_a2 = [],
                 l_bond_strength = [], l_bond_index = []\<rparr>))"

text \<open>
  Lines 111 to 189 of \<open>universe_load\<close>, as in its definition: everything before
  the loop of lines 191 to 204. The result is the state in which that loop starts.
\<close>

definition load_arrays ::
  "env_t \<Rightarrow> input_t \<Rightarrow> universe_t \<times> libc_t \<Rightarrow> failure + load_t \<times> libc_t"
where
  "load_arrays env inp state =
     (case load_header env inp state of Inl e \<Rightarrow> Inl e | Inr (universe, l) \<Rightarrow>
     (case for_loop [0..<ref_atom_nb universe] (load_atom inp) universe of
        Inl e \<Rightarrow> Inl e
      | Inr universe \<Rightarrow>
     (case load_temporaries env (universe, l) of Inl e \<Rightarrow> Inl e | Inr (st, l) \<Rightarrow>
     (case for_loop [0..<ref_bond_nb universe] (read_bond inp) st of Inl e \<Rightarrow> Inl e
      | Inr st \<Rightarrow>
     (case for_loop [0..<ref_atom_nb universe] (alloc_bonds env) (l_universe st, l) of
        Inl e \<Rightarrow> Inl e
      | Inr (universe, l) \<Rightarrow> Inr (st\<lparr>l_universe := universe\<rparr>, l))))))"

text \<open>
  State of the loop of lines 191 to 204 after \<open>k\<close> bond lines, as far as the
  counters go: each counter has advanced by the number of times its atom was named.
\<close>

definition counted :: "input_t \<Rightarrow> load_t \<Rightarrow> nat \<Rightarrow> load_t \<Rightarrow> bool" where
  "counted inp st0 k st \<longleftrightarrow>
     same_shape st0 st
     \<and> (\<forall>j<length (l_bond_index st0).
           l_bond_index st ! j = l_bond_index st0 ! j + of_nat (mentions inp k j))"

text \<open>
  Inputs for concrete runs of \<open>universe_load\<close>: a water molecule (three atoms, two
  bonds, both from the first atom), a single atom without bonds, and a ring of three
  atoms next to a fourth, unbound atom. \<open>ex_dirty\<close> is the small environment where
  every byte of a fresh allocation of counters holds 1 instead of 0.
\<close>

definition ex_empty :: universe_t where
  "ex_empty = \<lparr>meta_name = [], meta_author = [], meta_comment = [],
     ref_atom_nb = 0, ref_bond_nb = 0, copy_nb = 1, atom_nb = 0, box_size = 0, time = 0,
     temperature = 300, pressure = 1, iterations = 0, ref_atom = [], atom = [],
     output_file = \<lparr>written = [], room = None\<rparr>\<rparr>"

definition ex_water :: input_t where
  "ex_water = \<lparr>in_name = ''water'', in_author = ''nobody'', in_comment = ''H2O'',
     in_atom_nb = 3, in_bond_nb = 2,
     in_atoms =
       [\<lparr>al_x = 0, al_y = 0, al_z = 0, al_element = 8, al_charge = 0, al_epsilon = 1, al_sigma = 1\<rparr>,
        \<lparr>al_x = 1, al_y = 0, al_z = 0, al_element = 1, al_charge = 0, al_epsilon = 1, al_sigma = 1\<rparr>,
        \<lparr>al_x = 0, al_y = 1, al_z = 0, al_element = 1, al_charge = 0, al_epsilon = 1, al_sigma = 1\<rparr>],
     in_bonds =
       [\<lparr>bl_a1 = 1, bl_a2 = 2, bl_strength = 5\<rparr>, \<lparr>bl_a1 = 1, bl_a2 = 3, bl_strength = 5\<rparr>]\<rparr>"

definition ex_lone :: input_t where
  "ex_lone = \<lparr>in_name = ''hydrogen'', in_author = ''nobody'', in_comment = ''H'',
     in_atom_nb = 1, in_bond_nb = 0,
     in_atoms =
       [\<lparr>al_x = 0, al_y = 0, al_z = 0, al_element = 1, al_charge = 0, al_epsilon = 1, al_sigma = 1\<rparr>],
     in_bonds = []\<rparr>"

definition ex_dirty :: env_t where
  "ex_dirty = ex_env\<lparr>uninit_u8 := (\<lambda>n. 1)\<rparr>"

definition ex_ring :: input_t where
  "ex_ring = \<lparr>in_name = ''ring'', in_author = ''nobody'', in_comment = ''C3 and an ion'',
     in_atom_nb = 4, in_bond_nb = 3,
     in_atoms =
       [\<lparr>al_x = 0, al_y = 0, al_z = 0, al_element = 6, al_charge = 0, al_epsilon = 1, al_sigma = 1\<rparr>,
        \<lparr>al_x = 1, al_y = 0, al_z = 0, al_element = 6, al_charge = 0, al_epsilon = 1, al_sigma = 1\<rparr>,
        \<lparr>al_x = 0, al_y = 1, al_z = 0, al_element = 6, al_charge = 0, al_epsilon = 1, al_sigma = 1\<rparr>,
        \<lparr>al_x = 5, al_y = 5, al_z = 5, al_element = 11, al_charge = 1, al_epsilon = 1, al_sigma = 1\<rparr>],
     in_bonds =
       [\<lparr>bl_a1 = 1, bl_a2 = 2, bl_strength = 5\<rparr>, \<lparr>bl_a1 = 2, bl_a2 = 3, bl_strength = 5\<rparr>,
        \<lparr>bl_a1 = 3, bl_a2 = 1, bl_strength = 5\<rparr>]\<rparr>"

text \<open>The reference atoms that the runs on these inputs produce.\<close>

definition ex_atom :: "u8 \<Rightarrow> real \<Rightarrow> real \<Rightarrow> real \<Rightarrow> u64 list \<Rightarrow> atom_t" where
  "ex_atom e x y z bs = ex_blank\<lparr>element := e, charge := 0, epsilon := 1, sigma := 1,
     bond_nb := length bs, bond := bs, bond_strength := map (\<lambda>b. 5) bs,
     pos := \<lparr>vec3d_x = x, vec3d_y = y, vec3d_z = z\<rparr>\<rparr>"

definition ex_water_loaded :: universe_t where
  "ex_water_loaded = ex_empty\<lparr>meta_name := ''water'', meta_author := ''nobody'',
     meta_comment := ''H2O'', ref_atom_nb := 3, ref_bond_nb := 2,
     ref_atom := [ex_atom 8 0 0 0 [1, 2], ex_atom 1 (1 / 10 ^ 10) 0 0 [0],
                  ex_atom 1 0 (1 / 10 ^ 10) 0 [0]]\<rparr>"

definition ex_lone_loaded :: universe_t where
  "ex_lone_loaded = ex_empty\<lparr>meta_name := ''hydrogen'', meta_author := ''nobody'',
     meta_comment := ''H'', ref_atom_nb := 1, ref_bond_nb := 0,
     ref_atom := [ex_atom 1 0 0 0 []]\<rparr>"

definition ex_ring_loaded :: universe_t where
  "ex_ring_loaded = ex_empty\<lparr>meta_name := ''ring'', meta_author := ''nobody'',
     meta_comment := ''C3 and an ion'', ref_atom_nb := 4, ref_bond_nb := 3,
     ref_atom := [ex_atom 6 0 0 0 [1, 2], ex_atom 6 (1 / 10 ^ 10) 0 0 [0, 2],
                  ex_atom 6 0 (1 / 10 ^ 10) 0 [1, 0],
                  (ex_atom 11 (5 / 10 ^ 10) (5 / 10 ^ 10) (5 / 10 ^ 10) [])\<lparr>charge := 1\<rparr>]\<rparr>"

text \<open>
  An atom bonded to two others, listed last of four (two bonds, four atoms), and
  the states of \<open>universe_load\<close> on it when every byte of the fresh counters holds
  1: at the start of the loop of lines 191 to 204, and after its first iteration.
\<close>

definition ex_fork :: input_t where
  "ex_fork = \<lparr>in_name = ''fork'', in_author = ''nobody'', in_comment = ''bent'',
     in_atom_nb = 4, in_bond_nb = 2,
     in_atoms =
       [\<lparr>al_x = 0, al_y = 0, al_z = 0, al_element = 11, al_charge = 1, al_epsilon = 1, al_sigma = 1\<rparr>,
        \<lparr>al_x = 1, al_y = 0, al_z = 0, al_element = 1, al_charge = 0, al_epsilon = 1, al_sigma = 1\<rparr>,
        \<lparr>al_x = 0, al_y = 1, al_z = 0, al_element = 1, al_charge = 0, al_epsilon = 1, al_sigma = 1\<rparr>,
        \<lparr>al_x = 0, al_y = 0, al_z = 1, al_element = 8, al_charge = 0, al_epsilon = 1, al_sigma = 1\<rparr>],
     in_bonds =
       [\<lparr>bl_a1 = 4, bl_a2 = 2, bl_strength = 5\<rparr>, \<lparr>bl_a1 = 4, bl_a2 = 3, bl_strength = 5\<rparr>]\<rparr>"

definition ex_fork_atom ::
  "u8 \<Rightarrow> real \<Rightarrow> real \<Rightarrow> real \<Rightarrow> real \<Rightarrow> u64 list \<Rightarrow> real list \<Rightarrow> atom_t"
where
  "ex_fork_atom e q x y z bs ks = ex_blank\<lparr>element := e, charge := q, epsilon := 1, sigma := 1,
     bond_nb := length bs, bond := bs, bond_strength := ks,
     pos := \<lparr>vec3d_x = x, vec3d_y = y, vec3d_z = z\<rparr>\<rparr>"

definition ex_fork_arrays :: load_t where
  "ex_fork_arrays = \<lparr>l_universe = ex_empty\<lparr>meta_name := ''fork'', meta_author := ''nobody'',
       meta_comment := ''bent'', ref_atom_nb := 4, ref_bond_nb := 2,
       ref_atom := [ex_fork_atom 11 1 0 0 0 [] [],
                    ex_fork_atom 1 0 (1 / 10 ^ 10) 0 0 [0] [0],
                    ex_fork_atom 1 0 0 (1 / 10 ^ 10) 0 [0] [0],
                    ex_fork_atom 8 0 0 0 (1 / 10 ^ 10) [0, 0] [0, 0]]\<rparr>,
     l_a1 = [4, 4], l_a2 = [2, 3], l_bond_strength = [5, 5],
     l_bond_index = [0, 0] @ replicate 30 1\<rparr>"

definition ex_fork_first :: load_t where
  "ex_fork_first = ex_fork_arrays\<lparr>l_universe := (l_universe ex_fork_arrays)\<lparr>
       ref_atom := [ex_fork_atom 11 1 0 0 0 [] [],
                    ex_fork_atom 1 0 (1 / 10 ^ 10) 0 0 [3] [5],
                    ex_fork_atom 1 0 0 (1 / 10 ^ 10) 0 [0] [0],
                    ex_fork_atom 8 0 0 0 (1 / 10 ^ 10) [0, 1] [0, 5]]\<rparr>,
     l_bond_index := [0, 1, 1, 2] @ replicate 28 1\<rparr>"

section \<open>Properties of the loops\<close>

subsection \<open>Loops in general\<close>

lemma for_loop_append:
  "for_loop (xs @ ys) body s =
     (case for_loop xs body s of Inl e \<Rightarrow> Inl e | Inr s' \<Rightarrow> for_loop ys body s')"
  by (induction xs arbitrary: s) (auto split: sum.splits)

lemma for_loop_upt_induct:
  assumes "for_loop [0..<n] body s = Inr s'"
    and "I 0 s"
    and "\<And>k t t'. k < n \<Longrightarrow> I k t \<Longrightarrow> body k t = Inr t' \<Longrightarrow> I (Suc k) t'"
  shows "I n s'"
  using assms
proof (induction n arbitrary: s')
  case 0
  then show ?case by simp
next
  case (Suc n)
  from Suc.prems(1) obtain t where t: "for_loop [0..<n] body s = Inr t"
    and b: "body n t = Inr s'"
    by (auto simp: for_loop_append split: sum.splits)
  have "I n t"
    using t Suc.prems(2) Suc.prems(3) by (intro Suc.IH) auto
  then show ?case using Suc.prems(3)[of n t s'] b by simp
qed

lemma for_loop_fails_at:
  assumes "for_loop [0..<i] body s = Inr t" and "body i t = Inl e" and "i < n"
  shows "for_loop [0..<n] body s = Inl e"
proof -
  have "[0..<n] = [0..<i + (n - i)]"
    using assms(3) by simp
  also have "\<dots> = [0..<i] @ [i..<i + (n - i)]"
    by (rule upt_add_eq_append) simp
  also have "[i..<i + (n - i)] = i # [Suc i..<n]"
    using assms(3) by (simp add: upt_conv_Cons)
  finally have "[0..<n] = [0..<i] @ i # [Suc i..<n]" .
  then show ?thesis
    using assms(1,2) by (simp add: for_loop_append)
qed

subsection \<open>The loops of universe_populate\<close>

lemma populate_bond_step:
  assumes "bonds_copied shift r d0 k d" and "populate_bond shift r k d = Inr d'"
  shows "bonds_copied shift r d0 (Suc k) d'"
proof -
  from assms(2) have k: "k < length (bond d)" "k < length (bond_strength d)"
    "k < length (bond r)" "k < length (bond_strength r)"
    and d': "d' = d\<lparr>bond := (bond d)[k := bond r ! k + shift],
                     bond_strength := (bond_strength d)[k := bond_strength r ! k]\<rparr>"
    unfolding populate_bond_def array_get_def array_set_def
    by (auto split: if_splits)
  from assms(1) have fr: "d = d0\<lparr>bond := bond d, bond_strength := bond_strength d\<rparr>"
    by (simp add: bonds_copied_def)
  have "d' = d0\<lparr>bond := bond d', bond_strength := bond_strength d'\<rparr>"
    by (subst (1) d', subst (1) fr) (simp add: d')
  then show ?thesis
    using assms(1) k unfolding bonds_copied_def
    by (simp add: d' nth_list_update less_Suc_eq)
qed

lemma populate_bonds_loop:
  assumes "for_loop [0..<n] (populate_bond shift r) d0 = Inr d'"
  shows "bonds_copied shift r d0 n d'"
proof (rule for_loop_upt_induct[OF assms, where I = "bonds_copied shift r d0"])
  show "bonds_copied shift r d0 0 d0"
    unfolding bonds_copied_def by simp
next
  fix k t t'
  assume "bonds_copied shift r d0 k t" "populate_bond shift r k t = Inr t'"
  then show "bonds_copied shift r d0 (Suc k) t'" by (rule populate_bond_step)
qed


lemma populate_atom_result:
  assumes "populate_atom env i off ii (u, l) = Inr (u', l')"
  shows "ii < length (ref_atom u) \<and> i * ref_atom_nb u + ii < length (atom u)
     \<and> u' = u\<lparr>atom := (atom u)[i * ref_atom_nb u + ii := atom u' ! (i * ref_atom_nb u + ii)]\<rparr>
     \<and> duplicated i (ref_atom_nb u) (ref_atom u ! ii) (atom u ! (i * ref_atom_nb u + ii))
           (atom u' ! (i * ref_atom_nb u + ii))"
proof -
  define idx where "idx = i * ref_atom_nb u + ii"
  define r where "r = ref_atom u ! ii"
  define d where "d = atom u ! idx"
  define d0 where "d0 = (populate_fields r off d)\<lparr>bond := map (uninit_u64 env) [0..<bond_nb r],
      bond_strength := map (uninit_double env) [0..<bond_nb r]\<rparr>"
  have nb: "bond_nb d0 = bond_nb r"
    by (simp add: d0_def populate_fields_def Let_def)
  from assms obtain d' where 1: "ii < length (ref_atom u)" and 2: "idx < length (atom u)"
    and 3: "for_loop [0..<bond_nb r] (populate_bond (of_nat (i * ref_atom_nb u)) r) d0 = Inr d'"
    and 4: "u' = u\<lparr>atom := (atom u)[idx := d']\<rparr>"
    unfolding populate_atom_def array_get_def idx_def r_def d_def d0_def
    by (auto simp: Let_def populate_fields_def split: if_splits option.splits sum.splits)
  have 5: "bonds_copied (of_nat (i * ref_atom_nb u)) r d0 (bond_nb r) d'"
    using 3 by (rule populate_bonds_loop)
  then have 6: "d' = d0\<lparr>bond := bond d', bond_strength := bond_strength d'\<rparr>"
    by (simp add: bonds_copied_def)
  have f: "element d' = element d0" "charge d' = charge d0" "epsilon d' = epsilon d0"
    "sigma d' = sigma d0" "bond_nb d' = bond_nb d0" "vel d' = vel d0" "acc d' = acc d0"
    "frc d' = frc d0"
    using arg_cong[OF 6, of element] arg_cong[OF 6, of charge] arg_cong[OF 6, of epsilon]
      arg_cong[OF 6, of sigma] arg_cong[OF 6, of bond_nb] arg_cong[OF 6, of vel]
      arg_cong[OF 6, of acc] arg_cong[OF 6, of frc]
    by simp_all
  have 7: "duplicated i (ref_atom_nb u) r d d'"
    unfolding duplicated_def f
    using 5 unfolding bonds_copied_def
    by (simp add: d0_def populate_fields_def Let_def)
  have "atom u' ! idx = d'" using 2 4 by simp
  then show ?thesis using 1 2 4 7 by (simp add: idx_def r_def d_def)
qed


lemma block_index_less: "i < m \<Longrightarrow> ii < R \<Longrightarrow> i * R + ii < m * (R::nat)"
proof -
  assume "i < m" "ii < R"
  then have "i * R + ii < Suc i * R" by simp
  also have "\<dots> \<le> m * R" using \<open>i < m\<close> by (intro mult_le_mono1) simp
  finally show ?thesis .
qed

lemma populate_atom_step:
  assumes "copy_done i u k t" and "populate_atom env i off k t = Inr t'"
  shows "copy_done i u (Suc k) t'"
proof -
  obtain u1 l1 u2 l2 where t: "t = (u1, l1)" and t': "t' = (u2, l2)"
    by (cases t, cases t') auto
  from assms(1) have fr: "u1 = u\<lparr>atom := atom u1\<rparr>" and len: "length (atom u1) = length (atom u)"
    and dn: "\<forall>ii<k. ii < length (ref_atom u) \<and> i * ref_atom_nb u + ii < length (atom u)
           \<and> duplicated i (ref_atom_nb u) (ref_atom u ! ii)
                 (atom u ! (i * ref_atom_nb u + ii)) (atom u1 ! (i * ref_atom_nb u + ii))"
    and rest: "\<forall>j. j < i * ref_atom_nb u \<or> i * ref_atom_nb u + k \<le> j \<longrightarrow> atom u1 ! j = atom u ! j"
    by (simp_all add: copy_done_def t)
  have R: "ref_atom_nb u1 = ref_atom_nb u" and ra: "ref_atom u1 = ref_atom u"
    using arg_cong[OF fr, of ref_atom_nb] arg_cong[OF fr, of ref_atom] by simp_all
  define idx where "idx = i * ref_atom_nb u + k"
  from populate_atom_result[OF assms(2)[unfolded t t']]
  have a: "k < length (ref_atom u)" and b: "idx < length (atom u)"
    and c: "u2 = u1\<lparr>atom := (atom u1)[idx := atom u2 ! idx]\<rparr>"
    and d: "duplicated i (ref_atom_nb u) (ref_atom u ! k) (atom u1 ! idx) (atom u2 ! idx)"
    by (simp_all add: R ra len idx_def)
  have atoms: "atom u2 = (atom u1)[idx := atom u2 ! idx]"
    using arg_cong[OF c, of atom] by simp
  have other: "\<And>j. j \<noteq> idx \<Longrightarrow> atom u2 ! j = atom u1 ! j"
    by (subst atoms) simp
  have "u2 = u\<lparr>atom := atom u2\<rparr>"
    by (subst c, subst fr) (simp add: atoms[symmetric])
  moreover have "length (atom u2) = length (atom u)"
    by (subst atoms) (simp add: len)
  moreover have "atom u1 ! idx = atom u ! idx"
    using rest by (simp add: idx_def)
  moreover have "\<And>ii. ii < k \<Longrightarrow> atom u2 ! (i * ref_atom_nb u + ii) = atom u1 ! (i * ref_atom_nb u + ii)"
    by (rule other) (simp add: idx_def)
  moreover have "\<And>j. j < i * ref_atom_nb u \<or> i * ref_atom_nb u + Suc k \<le> j \<Longrightarrow> atom u2 ! j = atom u ! j"
    using rest other by (auto simp: idx_def)
  ultimately show ?thesis
    using a b d dn unfolding copy_done_def t' idx_def
    by (auto simp: less_Suc_eq)
qed

lemma populate_copy_result:
  assumes "populate_copy env i (u, l) = Inr t'"
  shows "copy_done i u (ref_atom_nb u) t'"
proof -
  obtain off g where loop: "for_loop [0..<ref_atom_nb u] (populate_atom env i off)
      (u, l\<lparr>rand_state := g\<rparr>) = Inr t'"
    using assms unfolding populate_copy_def by (auto simp: Let_def split: prod.splits)
  show ?thesis
  proof (rule for_loop_upt_induct[OF loop, where I = "copy_done i u"])
    show "copy_done i u 0 (u, l\<lparr>rand_state := g\<rparr>)"
      by (simp add: copy_done_def)
  next
    fix k t t'
    assume "copy_done i u k t" "populate_atom env i off k t = Inr t'"
    then show "copy_done i u (Suc k) t'" by (rule populate_atom_step)
  qed
qed

lemma populate_copy_step:
  assumes "copies_done u m t" and "populate_copy env m t = Inr t'"
  shows "copies_done u (Suc m) t'"
proof -
  obtain u1 l1 u2 l2 where t: "t = (u1, l1)" and t': "t' = (u2, l2)"
    by (cases t, cases t') auto
  let ?R = "ref_atom_nb u"
  from assms(1) have fr: "u1 = u\<lparr>atom := atom u1\<rparr>" and len: "length (atom u1) = length (atom u)"
    and dn: "\<forall>i<m. \<forall>ii<?R. ii < length (ref_atom u) \<and> i * ?R + ii < length (atom u)
           \<and> duplicated i ?R (ref_atom u ! ii) (atom u ! (i * ?R + ii)) (atom u1 ! (i * ?R + ii))"
    and rest: "\<forall>j. m * ?R \<le> j \<longrightarrow> atom u1 ! j = atom u ! j"
    by (simp_all add: copies_done_def t)
  have R: "ref_atom_nb u1 = ?R" and ra: "ref_atom u1 = ref_atom u"
    using arg_cong[OF fr, of ref_atom_nb] arg_cong[OF fr, of ref_atom] by simp_all
  from populate_copy_result[OF assms(2)[unfolded t]]
  have fr2: "u2 = u1\<lparr>atom := atom u2\<rparr>" and len2: "length (atom u2) = length (atom u1)"
    and dn2: "\<forall>ii<?R. ii < length (ref_atom u) \<and> m * ?R + ii < length (atom u)
           \<and> duplicated m ?R (ref_atom u ! ii) (atom u1 ! (m * ?R + ii)) (atom u2 ! (m * ?R + ii))"
    and rest2: "\<forall>j. j < m * ?R \<or> m * ?R + ?R \<le> j \<longrightarrow> atom u2 ! j = atom u1 ! j"
    by (simp_all add: copy_done_def t' R ra len)
  have "u2 = u\<lparr>atom := atom u2\<rparr>"
    by (subst fr2, subst fr) simp
  moreover have "length (atom u2) = length (atom u)"
    using len len2 by simp
  moreover have "\<And>i ii. i < m \<Longrightarrow> ii < ?R \<Longrightarrow> atom u2 ! (i * ?R + ii) = atom u1 ! (i * ?R + ii)"
    using rest2 block_index_less by blast
  moreover have "\<And>ii. atom u1 ! (m * ?R + ii) = atom u ! (m * ?R + ii)"
    using rest by simp
  moreover have "\<And>j. Suc m * ?R \<le> j \<Longrightarrow> atom u2 ! j = atom u ! j"
    using rest rest2 by simp
  ultimately show ?thesis
    using dn dn2 unfolding copies_done_def t'
    by (auto simp: less_Suc_eq)
qed

lemma universe_populate_result:
  assumes "universe_populate env (u, l) = Inr t'"
  shows "copies_done u (copy_nb u) t'"
proof -
  have loop: "for_loop [0..<copy_nb u] (populate_copy env) (u, l) = Inr t'"
    using assms by (simp add: universe_populate_def)
  show ?thesis
  proof (rule for_loop_upt_induct[OF loop, where I = "copies_done u"])
    show "copies_done u 0 (u, l)"
      by (simp add: copies_done_def)
  next
    fix k t t'
    assume "copies_done u k t" "populate_copy env k t = Inr t'"
    then show "copies_done u (Suc k) t'" by (rule populate_copy_step)
  qed
qed


subsection \<open>The loops of universe_setvelocity\<close>

lemma setvelocity_mass_loop:
  assumes "for_loop [0..<n] (setvelocity_mass env u) 0 = Inr m"
  shows "n \<le> length (ref_atom u) \<and> m = (\<Sum>j<n. model_mass env (element (ref_atom u ! j)))"
proof (rule for_loop_upt_induct[OF assms,
      where I = "\<lambda>k m. k \<le> length (ref_atom u)
                 \<and> m = (\<Sum>j<k. model_mass env (element (ref_atom u ! j)))"])
  show "0 \<le> length (ref_atom u) \<and> (0::real) = (\<Sum>j<0. model_mass env (element (ref_atom u ! j)))"
    by simp
next
  fix k t t'
  assume "k \<le> length (ref_atom u) \<and> t = (\<Sum>j<k. model_mass env (element (ref_atom u ! j)))"
    and "setvelocity_mass env u k t = Inr t'"
  then show "Suc k \<le> length (ref_atom u)
      \<and> t' = (\<Sum>j<Suc k. model_mass env (element (ref_atom u ! j)))"
    by (auto simp: setvelocity_mass_def array_get_def split: if_splits)
qed

lemma setvelocity_atom_step:
  assumes "velocities_set env v u l k t" and "setvelocity_atom env v k t = Inr t'"
  shows "velocities_set env v u l (Suc k) t'"
proof -
  obtain u1 l1 u2 l2 where t: "t = (u1, l1)" and t': "t' = (u2, l2)"
    by (cases t, cases t') auto
  from assms(1) have fr: "u1 = u\<lparr>atom := atom u1\<rparr>" and len: "length (atom u1) = length (atom u)"
    and rs: "rand_state l1 = ((snd \<circ> vec3d_marsaglia env) ^^ k) (rand_state l)"
    and dn: "\<forall>i<k. i < length (atom u)
           \<and> vel (atom u1 ! i) = vec3d_mul
                (fst (vec3d_marsaglia env (((snd \<circ> vec3d_marsaglia env) ^^ i) (rand_state l)))) v"
    and rest: "\<forall>j\<ge>k. atom u1 ! j = atom u ! j"
    by (simp_all add: velocities_set_def t)
  from assms(2) have k: "k < length (atom u1)"
    and u2: "u2 = u1\<lparr>atom := (atom u1)[k := (atom u1 ! k)
        \<lparr>vel := vec3d_mul (fst (vec3d_marsaglia env (rand_state l1))) v\<rparr>]\<rparr>"
    and l2: "l2 = l1\<lparr>rand_state := snd (vec3d_marsaglia env (rand_state l1))\<rparr>"
    unfolding setvelocity_atom_def t t' array_get_def
    by (auto simp: Let_def split: prod.splits if_splits)
  have atoms: "atom u2 = (atom u1)[k := (atom u1 ! k)
        \<lparr>vel := vec3d_mul (fst (vec3d_marsaglia env (rand_state l1))) v\<rparr>]"
    by (subst u2) simp
  have "u2 = u\<lparr>atom := atom u2\<rparr>"
    by (subst u2, subst fr) (simp add: atoms)
  moreover have "length (atom u2) = length (atom u)"
    by (simp add: atoms len)
  moreover have "rand_state l2 = ((snd \<circ> vec3d_marsaglia env) ^^ Suc k) (rand_state l)"
    by (simp add: l2 rs)
  moreover have "vel (atom u2 ! k) = vec3d_mul
      (fst (vec3d_marsaglia env (((snd \<circ> vec3d_marsaglia env) ^^ k) (rand_state l)))) v"
    using k by (simp add: atoms rs)
  moreover have "\<And>i. i < k \<Longrightarrow> atom u2 ! i = atom u1 ! i"
    by (simp add: atoms)
  moreover have "\<And>j. Suc k \<le> j \<Longrightarrow> atom u2 ! j = atom u ! j"
    using rest by (simp add: atoms)
  ultimately show ?thesis
    using dn k len unfolding velocities_set_def t'
    by (auto simp: less_Suc_eq)
qed

lemma vec3d_mag_mul: "vec3d_mag (vec3d_mul u c) = \<bar>c\<bar> * vec3d_mag u"
proof -
  have "(vec3d_x u * c)\<^sup>2 + (vec3d_y u * c)\<^sup>2 + (vec3d_z u * c)\<^sup>2
      = c\<^sup>2 * ((vec3d_x u)\<^sup>2 + (vec3d_y u)\<^sup>2 + (vec3d_z u)\<^sup>2)"
    by (simp add: power_mult_distrib algebra_simps)
  then show ?thesis
    by (simp add: vec3d_mag_def vec3d_mul_def real_sqrt_mult)
qed

subsection \<open>universe_printstate and universe_iterate\<close>

lemma fprintf_written:
  "written (fst (fprintf f item)) = written f @ accepted f [item]"
  "room (fst (fprintf f item)) = room_after f [item]"
  by (auto simp: fprintf_def accepted_def room_after_def split: option.splits nat.splits)

lemma accepted_append:
  "accepted f (xs @ ys) = accepted f xs @ accepted (f\<lparr>room := room_after f xs\<rparr>) ys"
  by (auto simp: accepted_def room_after_def split: option.splits)

lemma room_after_append:
  "room_after f (xs @ ys) = room_after (f\<lparr>room := room_after f xs\<rparr>) ys"
  by (auto simp: room_after_def split: option.splits)

lemma printstate_atom_step:
  assumes "printed env u k t" and "printstate_atom env k t = Inr t'"
  shows "printed env u (Suc k) t'"
proof -
  from assms(1) have fr: "t = u\<lparr>output_file := output_file t\<rparr>"
    and w: "written (output_file t) = written (output_file u)
          @ accepted (output_file u)
              (Header (atom_nb u) (iterations u) # map (atom_line env) (take k (atom u)))"
    and r: "room (output_file t) = room_after (output_file u)
              (Header (atom_nb u) (iterations u) # map (atom_line env) (take k (atom u)))"
    by (simp_all add: printed_def)
  have at: "atom t = atom u" using arg_cong[OF fr, of atom] by simp
  from assms(2) have k: "k < length (atom u)"
    and t': "t' = t\<lparr>output_file := fst (fprintf (output_file t) (atom_line env (atom u ! k)))\<rparr>"
    unfolding printstate_atom_def array_get_def atom_line_def at
    by (auto split: if_splits)
  have o: "output_file t' = fst (fprintf (output_file t) (atom_line env (atom u ! k)))"
    by (subst t') simp
  have tk: "take (Suc k) (atom u) = take k (atom u) @ [atom u ! k]"
    using k by (simp add: take_Suc_conv_app_nth)
  have same: "output_file t\<lparr>room := room_after (output_file u)
      (Header (atom_nb u) (iterations u) # map (atom_line env) (take k (atom u)))\<rparr> = output_file t"
    using r by (metis ofile_t.surjective ofile_t.update_convs(2))
  have items: "Header (atom_nb u) (iterations u) # map (atom_line env) (take (Suc k) (atom u))
      = (Header (atom_nb u) (iterations u) # map (atom_line env) (take k (atom u)))
        @ [atom_line env (atom u ! k)]"
    by (simp add: tk)
  have acc: "accepted (output_file t) [atom_line env (atom u ! k)]
      = accepted (output_file u\<lparr>room := room_after (output_file u)
          (Header (atom_nb u) (iterations u) # map (atom_line env) (take k (atom u)))\<rparr>)
          [atom_line env (atom u ! k)]"
    by (simp add: accepted_def r)
  have ra: "room_after (output_file t) [atom_line env (atom u ! k)]
      = room_after (output_file u\<lparr>room := room_after (output_file u)
          (Header (atom_nb u) (iterations u) # map (atom_line env) (take k (atom u)))\<rparr>)
          [atom_line env (atom u ! k)]"
    by (simp add: room_after_def r)
  have "t' = u\<lparr>output_file := output_file t'\<rparr>"
    by (subst t', subst fr) (simp add: o)
  moreover have "written (output_file t') = written (output_file u)
      @ accepted (output_file u)
          (Header (atom_nb u) (iterations u) # map (atom_line env) (take (Suc k) (atom u)))"
    unfolding items accepted_append by (simp add: o fprintf_written w acc)
  moreover have "room (output_file t') = room_after (output_file u)
          (Header (atom_nb u) (iterations u) # map (atom_line env) (take (Suc k) (atom u)))"
    unfolding items room_after_append by (simp add: o fprintf_written ra)
  ultimately show ?thesis
    using k by (simp add: printed_def)
qed

lemma universe_printstate_result:
  assumes "universe_printstate env u = Inr u'"
  shows "u' = u\<lparr>output_file := output_file u'\<rparr> \<and> atom_nb u \<le> length (atom u)
     \<and> written (output_file u') = written (output_file u) @ accepted (output_file u) (frame_of env u)
     \<and> room (output_file u') = room_after (output_file u) (frame_of env u)"
proof -
  define u0 where "u0 = u\<lparr>output_file := fst (fprintf (output_file u)
                       (Header (atom_nb u) (iterations u)))\<rparr>"
  have loop: "for_loop [0..<atom_nb u] (printstate_atom env) u0 = Inr u'"
    using assms by (simp add: universe_printstate_def Let_def u0_def)
  have "printed env u (atom_nb u) u'"
  proof (rule for_loop_upt_induct[OF loop, where I = "printed env u"])
    show "printed env u 0 u0"
      by (simp add: printed_def u0_def fprintf_written)
  next
    fix k t t'
    assume "printed env u k t" "printstate_atom env k t = Inr t'"
    then show "printed env u (Suc k) t'" by (rule printstate_atom_step)
  qed
  then show ?thesis
    by (simp add: printed_def frame_of_def)
qed

lemma for_loop_never:
  assumes "\<And>i s. body i s \<noteq> Inl e"
  shows "for_loop xs body s \<noteq> Inl e"
  using assms by (induction xs arbitrary: s) (auto split: sum.splits)

lemma universe_printstate_no_failure: "universe_printstate env u \<noteq> Inl Failure"
  unfolding universe_printstate_def Let_def
  by (rule for_loop_never) (simp add: printstate_atom_def array_get_def)


lemma atom_pass_frame:
  assumes "atom_pass helper i u = Inr u'"
  shows "u' = u\<lparr>atom := atom u'\<rparr>"
  using assms unfolding atom_pass_def array_set_def
  by (auto split: option.splits if_splits)

lemma pbc_pass_frame:
  assumes "pbc_pass env i u = Inr u'"
  shows "u' = u\<lparr>atom := atom u'\<rparr>"
  using assms unfolding pbc_pass_def array_get_def
  by (auto split: option.splits if_splits)

lemma atoms_only_trans:
  "t = (u::universe_t)\<lparr>atom := atom t\<rparr> \<Longrightarrow> t' = t\<lparr>atom := atom t'\<rparr> \<Longrightarrow> t' = u\<lparr>atom := atom t'\<rparr>"
  by (metis universe_t.update_convs(14) universe_t.surjective)

lemma pass_loop_frame:
  assumes "for_loop xs body (u::universe_t) = Inr u'"
    and "\<And>i t t'. body i t = Inr t' \<Longrightarrow> t' = t\<lparr>atom := atom t'\<rparr>"
  shows "u' = u\<lparr>atom := atom u'\<rparr>"
  using assms(1)
proof (induction xs arbitrary: u)
  case Nil
  then show ?case by simp
next
  case (Cons i xs)
  then obtain t where t: "body i u = Inr t" and r: "for_loop xs body t = Inr u'"
    by (auto split: sum.splits)
  show ?case
    using atoms_only_trans[OF assms(2)[OF t] Cons.IH[OF r]] .
qed

lemma universe_iterate_frame:
  assumes "universe_iterate env args u = Inr u'"
  shows "u' = u\<lparr>atom := atom u'\<rparr>"
proof -
  from assms obtain u1 u2 u3 u4 where
    1: "for_loop [0..<atom_nb u] (atom_pass (\<lambda>u. atom_update_pos env u args)) u = Inr u1"
    and 2: "for_loop [0..<atom_nb u1] (pbc_pass env) u1 = Inr u2"
    and 3: "(if numerical args = MODE_NUMERICAL
            then for_loop [0..<atom_nb u2] (atom_pass (atom_update_frc_numerical env)) u2
            else for_loop [0..<atom_nb u2] (atom_pass (atom_update_frc_analytical env)) u2) = Inr u3"
    and 4: "for_loop [0..<atom_nb u3] (atom_pass (atom_update_acc env)) u3 = Inr u4"
    and 5: "for_loop [0..<atom_nb u4] (atom_pass (\<lambda>u. atom_update_vel env u args)) u4 = Inr u'"
    unfolding universe_iterate_def by (auto split: sum.splits)
  have f1: "u1 = u\<lparr>atom := atom u1\<rparr>"
    using 1 by (rule pass_loop_frame) (rule atom_pass_frame)
  have f2: "u2 = u1\<lparr>atom := atom u2\<rparr>"
    using 2 by (rule pass_loop_frame) (rule pbc_pass_frame)
  have f3: "u3 = u2\<lparr>atom := atom u3\<rparr>"
  proof (cases "numerical args = MODE_NUMERICAL")
    case True
    with 3 have "for_loop [0..<atom_nb u2] (atom_pass (atom_update_frc_numerical env)) u2 = Inr u3"
      by simp
    then show ?thesis by (rule pass_loop_frame) (rule atom_pass_frame)
  next
    case False
    with 3 have "for_loop [0..<atom_nb u2] (atom_pass (atom_update_frc_analytical env)) u2 = Inr u3"
      by simp
    then show ?thesis by (rule pass_loop_frame) (rule atom_pass_frame)
  qed
  have f4: "u4 = u3\<lparr>atom := atom u4\<rparr>"
    using 4 by (rule pass_loop_frame) (rule atom_pass_frame)
  have f5: "u' = u4\<lparr>atom := atom u'\<rparr>"
    using 5 by (rule pass_loop_frame) (rule atom_pass_frame)
  show ?thesis
    using f1 f2 f3 f4 f5 by (blast intro: atoms_only_trans)
qed

text \<open>One iteration of the while loop, unfolded.\<close>

subsection \<open>The loop of universe_simulate\<close>

lemma simulate_loop_exit:
  "\<not> time u < max_time args \<Longrightarrow> simulate_loop env args c u = Some (Inr u)"
  by (subst simulate_loop.simps) simp

lemma simulate_loop_step:
  assumes "time u < max_time args" and "simulate_loop env args c u = Some (Inr u')"
  shows "\<exists>u1 u2. (if c = 0 then universe_printstate env u = Inr u1 else u1 = u)
     \<and> universe_iterate env args u1 = Inr u2
     \<and> simulate_loop env args (if c = 0 then frameskip args else c - 1)
          (u2\<lparr>time := double_add env (time u2) (timestep args), iterations := iterations u2 + 1\<rparr>) = Some (Inr u')"
  using assms(2)
  by (subst (asm) simulate_loop.simps) (auto simp: assms(1) split: sum.splits if_splits)


lemma frame_indices_append: "frame_indices (xs @ ys) = frame_indices xs @ frame_indices ys"
  by (simp add: frame_indices_def)

lemma header_in_frame:
  assumes "Header a n \<in> set (accepted f (frame_of env u))"
  shows "n = iterations u"
proof -
  have "set (accepted f (frame_of env u)) \<subseteq> set (frame_of env u)"
    by (auto simp: accepted_def split: option.splits dest: in_set_takeD)
  with assms have "Header a n \<in> set (frame_of env u)" by blast
  then show ?thesis by (auto simp: frame_of_def atom_line_def)
qed

lemma simulate_loop_emitted:
  assumes "simulate_loop env0 args0 c0 u0 = Some (Inr u0')"
  shows "emitted_before u0 u0'"
proof -
  have "\<forall>u'. (Inr u0' :: failure + universe_t) = Inr u' \<longrightarrow> emitted_before u0 u'"
  proof (rule simulate_loop.raw_induct[where
        P = "\<lambda>env args c u r. \<forall>u'. r = Inr u' \<longrightarrow> emitted_before u u'"
        and env = env0 and args = args0 and frame_nb = c0 and universe = u0
        and y = "Inr u0'"], goal_cases)
    case (1 f env args c u r)
    show ?case
    proof (intro allI impI)
      fix u'
      assume r: "r = Inr u'"
      show "emitted_before u u'"
      proof (cases "time u < max_time args")
        case False
        with 1(2) r have "u' = u" by simp
        then show ?thesis by (simp add: emitted_before_def)
      next
        case True
        with 1(2) r obtain u1 u2 where
          p: "if c = 0 then universe_printstate env u = Inr u1 else u1 = u"
          and it: "universe_iterate env args u1 = Inr u2"
          and rec: "f env args (if c = 0 then frameskip args else c - 1)
              (u2\<lparr>time := double_add env (time u2) (timestep args), iterations := iterations u2 + 1\<rparr>) = Some (Inr u')"
          by (auto split: sum.splits if_splits)
        let ?u3 = "u2\<lparr>time := double_add env (time u2) (timestep args), iterations := iterations u2 + 1\<rparr>"
        have e3: "emitted_before ?u3 u'"
          using 1(1)[OF rec] by simp
    have f2: "u2 = u1\<lparr>atom := atom u2\<rparr>"
      using it by (rule universe_iterate_frame)
    have o2: "output_file u2 = output_file u1" and i2: "iterations u2 = iterations u1"
      using arg_cong[OF f2, of output_file] arg_cong[OF f2, of iterations] by simp_all
    obtain items1 where w1: "written (output_file u1) = written (output_file u) @ items1"
      and h1: "\<forall>a n. Header a n \<in> set items1 \<longrightarrow> n = iterations u"
      and i1: "iterations u1 = iterations u"
    proof (cases "c = 0")
      case True
      with p have pr: "universe_printstate env u = Inr u1" by simp
      note res = universe_printstate_result[OF pr]
      from res have f1: "u1 = u\<lparr>output_file := output_file u1\<rparr>" by simp
      have "iterations u1 = iterations u"
        using arg_cong[OF f1, of iterations] by simp
      moreover have "written (output_file u1)
          = written (output_file u) @ accepted (output_file u) (frame_of env u)"
        using res by simp
      moreover have "\<forall>a n. Header a n \<in> set (accepted (output_file u) (frame_of env u))
          \<longrightarrow> n = iterations u"
        using header_in_frame by blast
      ultimately show ?thesis using that by blast
    next
      case False
      with p have "u1 = u" by simp
      then show ?thesis using that[of "[]"] by simp
    qed
    from e3 obtain items3 where
      le3: "iterations u + 1 \<le> iterations u'"
      and w3: "written (output_file u') = written (output_file u1) @ items3"
      and h3: "\<forall>a n. Header a n \<in> set items3 \<longrightarrow> iterations u + 1 \<le> n \<and> n < iterations u'"
      by (auto simp: emitted_before_def o2 i2 i1)
    have "written (output_file u') = written (output_file u) @ (items1 @ items3)"
      by (simp add: w3 w1)
    moreover have "\<forall>a n. Header a n \<in> set (items1 @ items3)
        \<longrightarrow> iterations u \<le> n \<and> n < iterations u'"
      using h1 h3 le3 by fastforce
    ultimately show ?thesis
      unfolding emitted_before_def using le3 by (intro conjI exI[of _ "items1 @ items3"]) simp_all
      qed
    qed
  next
    case 2
    show ?case by (rule assms)
  qed
  then show ?thesis by simp
qed


lemma simulate_loop_next:
  assumes "time u < max_time args" and "simulate_loop env args c u = Some (Inr u')"
  shows "\<exists>u3. simulate_loop env args (if c = 0 then frameskip args else c - 1) u3 = Some (Inr u')
     \<and> iterations u3 = iterations u + 1
     \<and> time u3 = double_add env (time u) (timestep args)
     \<and> (room (output_file u) = None
          \<longrightarrow> room (output_file u3) = None
            \<and> frame_indices (written (output_file u3))
                = frame_indices (written (output_file u)) @ (if c = 0 then [iterations u] else []))"
proof -
  from simulate_loop_step[OF assms] obtain u1 u2 where
    p: "if c = 0 then universe_printstate env u = Inr u1 else u1 = u"
    and it: "universe_iterate env args u1 = Inr u2"
    and rec: "simulate_loop env args (if c = 0 then frameskip args else c - 1)
        (u2\<lparr>time := double_add env (time u2) (timestep args), iterations := iterations u2 + 1\<rparr>)
        = Some (Inr u')"
    by blast
  let ?u3 = "u2\<lparr>time := double_add env (time u2) (timestep args), iterations := iterations u2 + 1\<rparr>"
  have f2: "u2 = u1\<lparr>atom := atom u2\<rparr>"
    using it by (rule universe_iterate_frame)
  have o2: "output_file u2 = output_file u1" and i2: "iterations u2 = iterations u1"
    and t2: "time u2 = time u1"
    using arg_cong[OF f2, of output_file] arg_cong[OF f2, of iterations]
      arg_cong[OF f2, of time] by simp_all
  have u1: "iterations u1 = iterations u \<and> time u1 = time u
      \<and> (room (output_file u) = None
          \<longrightarrow> room (output_file u1) = None
            \<and> frame_indices (written (output_file u1))
              = frame_indices (written (output_file u)) @ (if c = 0 then [iterations u] else []))"
  proof (cases "c = 0")
    case True
    with p have pr: "universe_printstate env u = Inr u1" by simp
    note res = universe_printstate_result[OF pr]
    from res have f1: "u1 = u\<lparr>output_file := output_file u1\<rparr>" by simp
    have "iterations u1 = iterations u" "time u1 = time u"
      using arg_cong[OF f1, of iterations] arg_cong[OF f1, of time] by simp_all
    moreover have "room (output_file u1) = None" if "room (output_file u) = None"
      using res that by (simp add: room_after_def)
    moreover have "written (output_file u1) = written (output_file u) @ frame_of env u"
      if "room (output_file u) = None"
      using res that by (simp add: accepted_def)
    moreover have "frame_indices (frame_of env u) = [iterations u]"
      by (induction "take (atom_nb u) (atom u)")
        (simp_all add: frame_of_def frame_indices_def atom_line_def)
    ultimately show ?thesis using True by (simp add: frame_indices_append)
  next
    case False
    with p show ?thesis by simp
  qed
  have "simulate_loop env args (if c = 0 then frameskip args else c - 1) ?u3 = Some (Inr u')
     \<and> iterations ?u3 = iterations u + 1
     \<and> time ?u3 = double_add env (time u) (timestep args)
     \<and> (room (output_file u) = None
          \<longrightarrow> room (output_file ?u3) = None
            \<and> frame_indices (written (output_file ?u3))
                = frame_indices (written (output_file u)) @ (if c = 0 then [iterations u] else []))"
    using rec u1 o2 i2 t2 by simp
  then show ?thesis by (rule exI)
qed

lemma simulate_loop_frames:
  assumes "simulate_loop env args c u = Some (Inr u')"
    and "room (output_file u) = None"
    and "iterations u' = iterations u + k"
  shows "frame_indices (written (output_file u'))
         = frame_indices (written (output_file u)) @ schedule (frameskip args) c (iterations u) k"
  using assms
proof (induction k arbitrary: c u)
  case 0
  have "\<not> time u < max_time args"
  proof
    assume lt: "time u < max_time args"
    from simulate_loop_next[OF lt "0.prems"(1)] obtain u3 where
      rec: "simulate_loop env args (if c = 0 then frameskip args else c - 1) u3 = Some (Inr u')"
      and i3: "iterations u3 = iterations u + 1"
      by blast
    from simulate_loop_emitted[OF rec] have "iterations u3 \<le> iterations u'"
      by (simp add: emitted_before_def)
    with i3 "0.prems"(3) show False by simp
  qed
  from simulate_loop_exit[OF this, of env c] "0.prems"(1) have "u' = u" by simp
  then show ?case by simp
next
  case (Suc k)
  have lt: "time u < max_time args"
  proof (rule ccontr)
    assume "\<not> time u < max_time args"
    from simulate_loop_exit[OF this, of env c] Suc.prems(1) have "u' = u" by simp
    with Suc.prems(3) show False by simp
  qed
  from simulate_loop_next[OF lt Suc.prems(1)] Suc.prems(2) obtain u3 where
    rec: "simulate_loop env args (if c = 0 then frameskip args else c - 1) u3 = Some (Inr u')"
    and i3: "iterations u3 = iterations u + 1"
    and r3: "room (output_file u3) = None"
    and w3: "frame_indices (written (output_file u3))
        = frame_indices (written (output_file u)) @ (if c = 0 then [iterations u] else [])"
    by blast
  have k3: "iterations u' = iterations u3 + k"
    using Suc.prems(3) i3 by simp
  from Suc.IH[OF rec r3 k3] show ?case
    using w3 i3 by simp
qed

lemma simulate_loop_exact_steps:
  assumes "simulate_loop env args c u = Some (Inr u')"
    and "0 < timestep args"
    and "time u = real n * timestep args"
    and "max_time args = real (n + k) * timestep args"
    and "\<forall>m. n \<le> m \<and> m < n + k
          \<longrightarrow> double_add env (real m * timestep args) (timestep args)
                = real (Suc m) * timestep args"
  shows "iterations u' = iterations u + k"
  using assms
proof (induction k arbitrary: n c u)
  case 0
  then have "\<not> time u < max_time args" by simp
  from simulate_loop_exit[OF this, of env c] 0(1) have "u' = u" by simp
  then show ?case by simp
next
  case (Suc k)
  have lt: "time u < max_time args"
    using Suc.prems(2,3,4) by simp
  from simulate_loop_next[OF lt Suc.prems(1)] obtain u3 where
    rec: "simulate_loop env args (if c = 0 then frameskip args else c - 1) u3 = Some (Inr u')"
    and i3: "iterations u3 = iterations u + 1"
    and t3: "time u3 = double_add env (time u) (timestep args)"
    by blast
  have t3': "time u3 = real (Suc n) * timestep args"
    using t3 Suc.prems(3,5) by simp
  have m3: "max_time args = real (Suc n + k) * timestep args"
    using Suc.prems(4) by simp
  have e3: "\<forall>m. Suc n \<le> m \<and> m < Suc n + k
          \<longrightarrow> double_add env (real m * timestep args) (timestep args)
                = real (Suc m) * timestep args"
    using Suc.prems(5) by simp
  from Suc.IH[OF rec Suc.prems(2) t3' m3 e3] show ?case
    using i3 by simp
qed

lemma due_head: "unat c \<le> unat skip \<Longrightarrow> due skip c m m \<longleftrightarrow> c = 0"
proof (cases "c = 0")
  case True
  then show ?thesis by (simp add: due_def)
next
  case False
  assume le: "unat c \<le> unat skip"
  from False have "0 < unat c" by (simp add: unat_gt_0)
  then have "0 < unat skip + 1 - unat c" "unat skip + 1 - unat c < unat skip + 1"
    using le by simp_all
  then have "(unat skip + 1 - unat c) mod (unat skip + 1) \<noteq> 0"
    by (metis mod_less less_numeral_extra(3))
  then show ?thesis using False by (simp add: due_def)
qed

lemma due_tail_zero: "Suc m \<le> it \<Longrightarrow> due skip 0 m it \<longleftrightarrow> due skip skip (Suc m) it"
proof -
  assume a: "Suc m \<le> it"
  have l: "it - m + unat skip + 1 - unat (0 :: u64) = (it - m) + (unat skip + 1)"
    by simp
  have r: "it - Suc m + unat skip + 1 - unat skip = it - m"
    using a by simp
  show ?thesis
    unfolding due_def l r by (simp only: mod_add_self2)
qed

lemma due_tail_pos:
  assumes "Suc m \<le> it" and "c \<noteq> 0" and "unat c \<le> unat skip"
  shows "due skip c m it \<longleftrightarrow> due skip (c - 1) (Suc m) it"
proof -
  have pos: "0 < unat c" using assms(2) by (simp add: unat_gt_0)
  have dec: "unat (c - 1) = unat c - 1"
    using assms(2) by (simp add: unat_minus_one)
  have "it - m + unat skip + 1 - unat c = it - Suc m + unat skip + 1 - unat (c - 1)"
    using assms(1,3) pos dec by simp
  then show ?thesis unfolding due_def by (simp only:)
qed

lemma schedule_filter:
  assumes "unat c \<le> unat skip"
  shows "schedule skip c m k = filter (due skip c m) [m..<m + k]"
  using assms
proof (induction k arbitrary: c m)
  case 0
  then show ?case by simp
next
  case (Suc k)
  have split: "[m..<m + Suc k] = m # [Suc m..<Suc m + k]"
    by (simp add: upt_conv_Cons)
  show ?case
  proof (cases "c = 0")
    case True
    have "filter (due skip c m) [Suc m..<Suc m + k] = filter (due skip skip (Suc m)) [Suc m..<Suc m + k]"
      using True by (intro filter_cong refl) (simp add: due_tail_zero del: upt_Suc)
    moreover have "due skip c m m" using due_head[OF Suc.prems] True by simp
    moreover have "schedule skip skip (Suc m) k = filter (due skip skip (Suc m)) [Suc m..<Suc m + k]"
      by (rule Suc.IH) simp
    ultimately show ?thesis
      unfolding split using True by simp
  next
    case False
    then have dec: "unat (c - 1) = unat c - 1"
      by (simp add: unat_minus_one)
    have "filter (due skip c m) [Suc m..<Suc m + k] = filter (due skip (c - 1) (Suc m)) [Suc m..<Suc m + k]"
      using False Suc.prems by (intro filter_cong refl) (simp add: due_tail_pos del: upt_Suc)
    moreover have "\<not> due skip c m m" using due_head[OF Suc.prems] False by simp
    moreover have "schedule skip (c - 1) (Suc m) k = filter (due skip (c - 1) (Suc m)) [Suc m..<Suc m + k]"
      by (rule Suc.IH) (use dec Suc.prems in simp)
    ultimately show ?thesis
      unfolding split using False by simp
  qed
qed


subsection \<open>The loops of universe_montecarlo\<close>

lemma montecarlo_propose_restore:
  assumes "montecarlo_propose env part_id mag (u, l) = Inr (u2, l2)"
  shows "montecarlo_restore part_id (pos (atom u ! part_id)) u2 = u"
    and "l2 = l\<lparr>rand_state := snd (vec3d_marsaglia env (rand_state l))\<rparr>"
    and "atom_nb u2 = atom_nb u"
  using assms
  unfolding montecarlo_propose_def montecarlo_restore_def pbc_pass_def array_get_def
  by (auto simp: Let_def split: if_splits prod.splits option.splits)

lemma montecarlo_loop_decreases:
  assumes "montecarlo_loop env0 p0 pot0 tries0 mag0 s0 = Some (Inr (u0', l0'))"
  shows "\<exists>e. universe_energy_potential env0 u0' = Inr e \<and> e < pot0"
proof -
  have "\<forall>u' l'. (Inr (u0', l0') :: failure + universe_t \<times> libc_t) = Inr (u', l')
      \<longrightarrow> (\<exists>e. universe_energy_potential env0 u' = Inr e \<and> e < pot0)"
  proof (rule montecarlo_loop.raw_induct[where
        P = "\<lambda>env p pot tries mag s r. \<forall>u' l'. r = Inr (u', l')
               \<longrightarrow> (\<exists>e. universe_energy_potential env u' = Inr e \<and> e < pot)"
        and env = env0 and part_id = p0 and potential = pot0 and tries = tries0
        and pos_offset_mag = mag0 and state = s0 and y = "Inr (u0', l0')"], goal_cases)
    case (1 f env p pot tries mag s r)
    show ?case
    proof (intro allI impI)
      fix u' l'
      assume r: "r = Inr (u', l')"
      define tries' where "tries' = (if tries < 50 then tries + 1 else 0)"
      define mag' where "mag' = (if tries < 50 then mag else mag * (1 / 10))"
      from 1(2) r obtain u2 l2 e where
        pr: "montecarlo_propose env p mag' s = Inr (u2, l2)"
        and en: "universe_energy_potential env u2 = Inr e"
        and res: "if e < pot then (u2, l2) = (u', l')
            else f env p pot tries' mag'
              (montecarlo_restore p (pos (atom (fst s) ! p)) u2, l2) = Some (Inr (u', l'))"
        unfolding tries'_def mag'_def
        by (auto simp: Let_def split: sum.splits if_splits prod.splits)
      show "\<exists>e. universe_energy_potential env u' = Inr e \<and> e < pot"
      proof (cases "e < pot")
        case True
        with res en show ?thesis by auto
      next
        case False
        with res have "f env p pot tries' mag'
              (montecarlo_restore p (pos (atom (fst s) ! p)) u2, l2) = Some (Inr (u', l'))"
          by simp
        from 1(1)[OF this] show ?thesis by simp
      qed
    qed
  next
    case 2
    show ?case by (rule assms)
  qed
  then show ?thesis by simp
qed


lemma montecarlo_atom_decreases:
  assumes "montecarlo_atom env p (u, l) = Some (Inr (u', l'))"
  shows "\<exists>e0 e1. universe_energy_potential env u = Inr e0
     \<and> universe_energy_potential env u' = Inr e1 \<and> e1 < e0"
proof -
  from assms obtain e0 where e0: "universe_energy_potential env u = Inr e0"
    and loop: "montecarlo_loop env p e0 0 (1 / 10 ^ 9) (u, l) = Some (Inr (u', l'))"
    unfolding montecarlo_atom_def by (auto split: sum.splits)
  from montecarlo_loop_decreases[OF loop] e0 show ?thesis by blast
qed

lemma montecarlo_for_decreases:
  assumes "montecarlo_for env ps (u, l) = Some (Inr (u', l'))"
  shows "(ps = [] \<and> u' = u \<and> l' = l)
     \<or> (ps \<noteq> [] \<and> (\<exists>e0 e1. universe_energy_potential env u = Inr e0
           \<and> universe_energy_potential env u' = Inr e1 \<and> e1 < e0))"
  using assms
proof (induction ps arbitrary: u l)
  case Nil
  then show ?case by simp
next
  case (Cons p ps)
  from Cons.prems obtain u1 l1 where
    a: "montecarlo_atom env p (u, l) = Some (Inr (u1, l1))"
    and r: "montecarlo_for env ps (u1, l1) = Some (Inr (u', l'))"
    by (auto split: option.splits sum.splits)
  from montecarlo_atom_decreases[OF a] obtain e0 e1 where
    e: "universe_energy_potential env u = Inr e0" "universe_energy_potential env u1 = Inr e1"
      "e1 < e0"
    by blast
  from Cons.IH[OF r] show ?case
  proof
    assume "ps = [] \<and> u' = u1 \<and> l' = l1"
    with e show ?thesis by auto
  next
    assume "ps \<noteq> [] \<and> (\<exists>e0 e1. universe_energy_potential env u1 = Inr e0
           \<and> universe_energy_potential env u' = Inr e1 \<and> e1 < e0)"
    then obtain e2 where "universe_energy_potential env u' = Inr e2" "e2 < e1"
      using e(2) by auto
    with e show ?thesis by auto
  qed
qed

lemma montecarlo_loop_rejected:
  assumes "montecarlo_propose env p (if tries < 50 then mag else mag * (1 / 10)) (u, l)
      = Inr (u2, l2)"
    and "universe_energy_potential env u2 = Inr e" and "\<not> e < pot"
  shows "montecarlo_loop env p pot tries mag (u, l)
     = montecarlo_loop env p pot (if tries < 50 then tries + 1 else 0)
         (if tries < 50 then mag else mag * (1 / 10)) (u, l2)"
proof -
  have restored: "montecarlo_restore p (pos (atom u ! p)) u2 = u"
    using montecarlo_propose_restore(1)[OF assms(1)] .
  show ?thesis
  proof (cases "tries < 50")
    case True
    then show ?thesis
      using assms restored by (subst montecarlo_loop.simps) (simp add: Let_def)
  next
    case False
    then show ?thesis
      using assms restored by (subst montecarlo_loop.simps) (simp add: Let_def)
  qed
qed

lemma montecarlo_loop_accepts:
  assumes "montecarlo_loop env0 p0 pot0 tries0 mag0 (u0, l0) = Some (Inr (u0', l0'))"
  shows "\<exists>k g e. montecarlo_propose env0 p0 (mag0 * (1 / 10) ^ k) (u0, l0\<lparr>rand_state := g\<rparr>)
        = Inr (u0', l0')
     \<and> universe_energy_potential env0 u0' = Inr e \<and> e < pot0"
proof -
  have "\<forall>u' l'. (Inr (u0', l0') :: failure + universe_t \<times> libc_t) = Inr (u', l')
      \<longrightarrow> (\<exists>k g e. montecarlo_propose env0 p0 (mag0 * (1 / 10) ^ k)
                (fst (u0, l0), (snd (u0, l0))\<lparr>rand_state := g\<rparr>) = Inr (u', l')
            \<and> universe_energy_potential env0 u' = Inr e \<and> e < pot0)"
  proof (rule montecarlo_loop.raw_induct[where
        P = "\<lambda>env p pot tries mag s r. \<forall>u' l'. r = Inr (u', l')
               \<longrightarrow> (\<exists>k g e. montecarlo_propose env p (mag * (1 / 10) ^ k)
                         (fst s, (snd s)\<lparr>rand_state := g\<rparr>) = Inr (u', l')
                     \<and> universe_energy_potential env u' = Inr e \<and> e < pot)"
        and env = env0 and part_id = p0 and potential = pot0 and tries = tries0
        and pos_offset_mag = mag0 and state = "(u0, l0)" and y = "Inr (u0', l0')"], goal_cases)
    case (1 f env p pot tries mag s r)
    show ?case
    proof (intro allI impI)
      fix u' l'
      assume r: "r = Inr (u', l')"
      obtain u l where s: "s = (u, l)" by (cases s)
      define tries' where "tries' = (if tries < 50 then tries + 1 else 0)"
      define n :: nat where "n = (if tries < 50 then 0 else 1)"
      define mag' where "mag' = mag * (1 / 10) ^ n"
      have mag': "mag' = (if tries < 50 then mag else mag * (1 / 10))"
        by (simp add: mag'_def n_def)
      from 1(2) r obtain u2 l2 e where
        pr: "montecarlo_propose env p mag' (u, l) = Inr (u2, l2)"
        and en: "universe_energy_potential env u2 = Inr e"
        and res: "if e < pot then (u2, l2) = (u', l')
            else f env p pot tries' mag'
              (montecarlo_restore p (pos (atom u ! p)) u2, l2) = Some (Inr (u', l'))"
        unfolding tries'_def mag' s
        by (auto simp: Let_def split: sum.splits if_splits prod.splits)
      have restored: "montecarlo_restore p (pos (atom u ! p)) u2 = u"
        and l2: "l2 = l\<lparr>rand_state := snd (vec3d_marsaglia env (rand_state l))\<rparr>"
        using montecarlo_propose_restore[OF pr] by simp_all
      show "\<exists>k g e. montecarlo_propose env p (mag * (1 / 10) ^ k)
                (fst s, (snd s)\<lparr>rand_state := g\<rparr>) = Inr (u', l')
            \<and> universe_energy_potential env u' = Inr e \<and> e < pot"
      proof (cases "e < pot")
        case True
        with res have eq: "u2 = u'" "l2 = l'" by simp_all
        have "montecarlo_propose env p (mag * (1 / 10) ^ n)
            (fst s, (snd s)\<lparr>rand_state := rand_state l\<rparr>) = Inr (u', l')"
          using pr by (simp add: s mag'_def eq)
        moreover have "universe_energy_potential env u' = Inr e"
          using en eq by simp
        ultimately show ?thesis using True by blast
      next
        case False
        with res have "f env p pot tries' mag' (u, l2) = Some (Inr (u', l'))"
          by (simp add: restored)
        from 1(1)[OF this] obtain k g e' where
          k: "montecarlo_propose env p (mag' * (1 / 10) ^ k) (u, l2\<lparr>rand_state := g\<rparr>)
              = Inr (u', l')"
          and e': "universe_energy_potential env u' = Inr e'" "e' < pot"
          by auto
        have "l2\<lparr>rand_state := g\<rparr> = l\<lparr>rand_state := g\<rparr>"
          by (simp add: l2)
        moreover have "mag' * (1 / 10) ^ k = mag * (1 / 10) ^ (n + k)"
          by (simp add: mag'_def power_add)
        ultimately have "montecarlo_propose env p (mag * (1 / 10) ^ (n + k))
            (fst s, (snd s)\<lparr>rand_state := g\<rparr>) = Inr (u', l')"
          using k by (simp add: s)
        then show ?thesis using e' by blast
      qed
    qed
  next
    case 2
    show ?case by (rule assms)
  qed
  then show ?thesis by simp
qed

lemma montecarlo_for_relaxed:
  assumes "montecarlo_for env ps (u, l) = Some (Inr state')"
  shows "relaxed env ps (u, l) state'"
  using assms
proof (induction ps arbitrary: u l)
  case Nil
  then show ?case by (simp add: relaxed_Nil)
next
  case (Cons p ps)
  from Cons.prems obtain u1 l1 where
    a: "montecarlo_atom env p (u, l) = Some (Inr (u1, l1))"
    and r: "montecarlo_for env ps (u1, l1) = Some (Inr state')"
    by (auto split: option.splits sum.splits)
  from a obtain e0 where e0: "universe_energy_potential env u = Inr e0"
    and loop: "montecarlo_loop env p e0 0 (1 / 10 ^ 9) (u, l) = Some (Inr (u1, l1))"
    unfolding montecarlo_atom_def by (auto split: sum.splits)
  from montecarlo_loop_accepts[OF loop] obtain k g e1 where
    pr: "montecarlo_propose env p (1 / 10 ^ 9 * (1 / 10) ^ k) (u, l\<lparr>rand_state := g\<rparr>)
        = Inr (u1, l1)"
    and e1: "universe_energy_potential env u1 = Inr e1" "e1 < e0"
    by blast
  show ?case
    using e0 pr e1 Cons.IH[OF r] by (rule relaxed_Cons)
qed




subsection \<open>The loops of universe_load\<close>

lemma same_shape_refl: "same_shape st st"
  by (simp add: same_shape_def)

lemma same_shape_trans: "same_shape a b \<Longrightarrow> same_shape b c \<Longrightarrow> same_shape a c"
  by (simp add: same_shape_def)

lemma place_bond_result:
  assumes "place_bond owner partner k st = Inr st'"
  shows "owner < length (l_bond_index st)" "owner < length (ref_atom (l_universe st))"
    "unat (l_bond_index st ! owner) < length (bonds_of st owner)"
    "unat (l_bond_index st ! owner) < length (strengths_of st owner)"
    "l_bond_index st' = l_bond_index st"
    "same_shape st st'"
    "\<And>j. bonds_of st' j = (if j = owner
        then (bonds_of st j)[unat (l_bond_index st ! owner) := partner] else bonds_of st j)"
    "\<And>j. strengths_of st' j = (if j = owner
        then (strengths_of st j)[unat (l_bond_index st ! owner) := k] else strengths_of st j)"
proof -
  let ?u = "l_universe st"
  let ?a = "ref_atom ?u ! owner"
  let ?c = "unat (l_bond_index st ! owner)"
  from assms have 1: "owner < length (l_bond_index st)" and 2: "owner < length (ref_atom ?u)"
    and 3: "?c < length (bond ?a)" and 4: "?c < length (bond_strength ?a)"
    and st': "st' = st\<lparr>l_universe := ?u\<lparr>ref_atom := (ref_atom ?u)
        [owner := ?a\<lparr>bond := (bond ?a)[?c := partner],
                       bond_strength := (bond_strength ?a)[?c := k]\<rparr>]\<rparr>\<rparr>"
    unfolding place_bond_def array_get_def array_set_def
    by (auto split: if_splits)
  show "owner < length (l_bond_index st)" "owner < length (ref_atom (l_universe st))"
    "unat (l_bond_index st ! owner) < length (bonds_of st owner)"
    "unat (l_bond_index st ! owner) < length (strengths_of st owner)"
    using 1 2 3 4 by (simp_all add: bonds_of_def strengths_of_def)
  show "l_bond_index st' = l_bond_index st"
    by (simp add: st')
  show "same_shape st st'"
    using 2 by (simp add: st' same_shape_def bonds_of_def strengths_of_def nth_list_update)
  show "bonds_of st' j = (if j = owner
        then (bonds_of st j)[unat (l_bond_index st ! owner) := partner] else bonds_of st j)" for j
    using 2 by (simp add: st' bonds_of_def nth_list_update)
  show "strengths_of st' j = (if j = owner
        then (strengths_of st j)[unat (l_bond_index st ! owner) := k] else strengths_of st j)" for j
    using 2 by (simp add: st' strengths_of_def nth_list_update)
qed

lemma next_index_result:
  assumes "next_index j st = Inr st'"
  shows "j < length (l_bond_index st)"
    "l_bond_index st' = (l_bond_index st)[j := l_bond_index st ! j + 1]"
    "l_universe st' = l_universe st" "same_shape st st'"
  using assms unfolding next_index_def array_get_def
  by (auto split: if_splits simp: same_shape_def bonds_of_def strengths_of_def)

lemma twice_set_length: "length (twice_set xs j f p v s q w) = length xs"
  by (simp add: twice_set_def Let_def)

lemma twice_set_other:
  "(j = f \<longrightarrow> t \<noteq> p) \<Longrightarrow> (j = s \<longrightarrow> t \<noteq> q) \<Longrightarrow> twice_set xs j f p v s q w ! t = xs ! t"
  by (auto simp: twice_set_def Let_def nth_list_update)

lemma load_bond_result:
  assumes "load_bond i st = Inr st'"
  defines "f \<equiv> unat (l_a1 st ! i - 1)" and "s \<equiv> unat (l_a2 st ! i - 1)"
  defines "p \<equiv> unat (l_bond_index st ! f)" and "q \<equiv> unat (l_bond_index st ! s)"
  shows "f < length (l_bond_index st)" "s < length (l_bond_index st)"
    "f < length (ref_atom (l_universe st))" "s < length (ref_atom (l_universe st))"
    "p < length (bonds_of st f)" "p < length (strengths_of st f)"
    "q < length (bonds_of st s)" "q < length (strengths_of st s)"
    "same_shape st st'"
    "l_bond_index st' = ((l_bond_index st)[f := l_bond_index st ! f + 1])
        [s := ((l_bond_index st)[f := l_bond_index st ! f + 1]) ! s + 1]"
    "\<And>j. bonds_of st' j = twice_set (bonds_of st j) j f p (l_a2 st ! i - 1) s q (l_a1 st ! i - 1)"
    "\<And>j. strengths_of st' j = twice_set (strengths_of st j) j f p (l_bond_strength st ! i)
        s q (l_bond_strength st ! i)"
proof -
  from assms(1) obtain st1 st2 st3 where
    1: "place_bond f (l_a2 st ! i - 1) (l_bond_strength st ! i) st = Inr st1"
    and 2: "place_bond s (l_a1 st ! i - 1) (l_bond_strength st ! i) st1 = Inr st2"
    and 3: "next_index f st2 = Inr st3"
    and 4: "next_index s st3 = Inr st'"
    unfolding load_bond_def array_get_def f_def s_def
    by (auto simp: Let_def split: if_splits sum.splits)
  note r1 = place_bond_result[OF 1]
  note r2 = place_bond_result[OF 2]
  note r3 = next_index_result[OF 3]
  note r4 = next_index_result[OF 4]
  have sh1: "same_shape st st1" by (rule r1(6))
  show "f < length (l_bond_index st)" "f < length (ref_atom (l_universe st))"
    "p < length (bonds_of st f)" "p < length (strengths_of st f)"
    using r1(1-4) by (simp_all add: p_def)
  show "s < length (l_bond_index st)" "s < length (ref_atom (l_universe st))"
    using r2(1,2) r1(5) sh1 by (simp_all add: same_shape_def)
  show "q < length (bonds_of st s)" "q < length (strengths_of st s)"
    using r2(3,4) r1(5) sh1 by (simp_all add: same_shape_def q_def)
  show "same_shape st st'"
    using sh1 r2(6) r3(4) r4(4) by (blast intro: same_shape_trans)
  show "l_bond_index st' = ((l_bond_index st)[f := l_bond_index st ! f + 1])
        [s := ((l_bond_index st)[f := l_bond_index st ! f + 1]) ! s + 1]"
    by (simp add: r4(2) r3(2) r2(5) r1(5))
  have u: "l_universe st' = l_universe st2"
    by (simp add: r4(3) r3(3))
  show "bonds_of st' j = twice_set (bonds_of st j) j f p (l_a2 st ! i - 1) s q (l_a1 st ! i - 1)" for j
  proof -
    have "bonds_of st' j = bonds_of st2 j"
      by (simp add: bonds_of_def u)
    then show ?thesis
      by (simp add: r2(7) r1(7) r1(5) twice_set_def Let_def p_def q_def)
  qed
  show "strengths_of st' j = twice_set (strengths_of st j) j f p (l_bond_strength st ! i)
        s q (l_bond_strength st ! i)" for j
  proof -
    have "strengths_of st' j = strengths_of st2 j"
      by (simp add: strengths_of_def u)
    then show ?thesis
      by (simp add: r2(8) r1(8) r1(5) twice_set_def Let_def p_def q_def)
  qed
qed

lemma mentions_Suc:
  "mentions inp (Suc k) j = mentions inp k j
     + (if first_of inp k = j then 1 else 0) + (if second_of inp k = j then 1 else 0)"
  by (simp add: mentions_def)

lemma mentions_mono: "i \<le> k \<Longrightarrow> mentions inp i j \<le> mentions inp k j"
  unfolding mentions_def by (intro sum_mono2) auto

lemma mentions_less:
  assumes "i < k" and "first_of inp i = j \<or> second_of inp i = j"
  shows "mentions inp i j < mentions inp k j"
proof -
  have "mentions inp i j < mentions inp (Suc i) j"
    using assms(2) by (auto simp: mentions_Suc)
  also have "\<dots> \<le> mentions inp k j"
    using assms(1) by (intro mentions_mono) simp
  finally show ?thesis .
qed

lemma mentions_room:
  assumes "k < B" and "first_of inp k = j \<or> second_of inp k = j" and "mentions inp B j \<le> 256"
  shows "mentions inp k j \<le> 255"
  using mentions_less[OF assms(1,2)] assms(3) by simp

lemma slot_distinct:
  fixes c :: u8
  assumes "a < b" and "b \<le> 255"
  shows "unat (c + of_nat a) \<noteq> unat (c + of_nat b)"
proof
  assume "unat (c + of_nat a) = unat (c + of_nat b)"
  then have "c + of_nat a = c + of_nat b" by (simp add: word_unat_eq_iff)
  then have "(of_nat a :: u8) = of_nat b" by simp
  then have "unat (of_nat a :: u8) = unat (of_nat b :: u8)" by simp
  then have "a = b" using assms by (simp add: unat_of_nat)
  with assms(1) show False by simp
qed

lemma entered_kept:
  assumes e: "entered inp c0 i st"
    and i: "i < k" and k: "k < B" and cap: "\<forall>j. mentions inp B j \<le> 256"
    and b: "\<And>j. bonds_of st' j = twice_set (bonds_of st j) j (first_of inp k)
          (unat (c0 ! first_of inp k + of_nat (mentions inp k (first_of inp k)))) v
          (second_of inp k)
          (unat (c0 ! second_of inp k + of_nat (mentions inp k (second_of inp k)))) w"
    and s: "\<And>j. strengths_of st' j = twice_set (strengths_of st j) j (first_of inp k)
          (unat (c0 ! first_of inp k + of_nat (mentions inp k (first_of inp k)))) x
          (second_of inp k)
          (unat (c0 ! second_of inp k + of_nat (mentions inp k (second_of inp k)))) y"
  shows "entered inp c0 i st'"
proof -
  have other: "unat (c0 ! j + of_nat (mentions inp i j)) \<noteq> unat (c0 ! j + of_nat (mentions inp k j))"
    if "first_of inp i = j \<or> second_of inp i = j" and "first_of inp k = j \<or> second_of inp k = j"
    for j
    using slot_distinct[OF mentions_less[OF i that(1)] mentions_room[OF k that(2)]] cap by simp
  let ?f = "first_of inp i" and ?s = "second_of inp i"
  let ?p = "unat (c0 ! ?f + of_nat (mentions inp i ?f))"
  let ?q = "unat (c0 ! ?s + of_nat (mentions inp i ?s))"
  have bp: "bonds_of st' ?f ! ?p = bonds_of st ?f ! ?p"
    unfolding b by (rule twice_set_other) (use other[of ?f] in auto)
  have sp: "strengths_of st' ?f ! ?p = strengths_of st ?f ! ?p"
    unfolding s by (rule twice_set_other) (use other[of ?f] in auto)
  have bq: "bonds_of st' ?s ! ?q = bonds_of st ?s ! ?q"
    unfolding b by (rule twice_set_other) (use other[of ?s] in auto)
  have sq: "strengths_of st' ?s ! ?q = strengths_of st ?s ! ?q"
    unfolding s by (rule twice_set_other) (use other[of ?s] in auto)
  have len: "length (bonds_of st' j) = length (bonds_of st j)"
    "length (strengths_of st' j) = length (strengths_of st j)" for j
    by (simp_all add: b s twice_set_length)
  show ?thesis
    using e unfolding entered_def Let_def bp sp bq sq len by simp
qed

lemma entered_new:
  fixes a1 a2 :: u64
  assumes f: "f = unat (a1 - 1)" and s: "s = unat (a2 - 1)"
    and fk: "first_of inp k = f" and sk: "second_of inp k = s"
    and l1: "bl_a1 (in_bonds inp ! k) = a1" and l2: "bl_a2 (in_bonds inp ! k) = a2"
    and l3: "bl_strength (in_bonds inp ! k) = x"
    and p: "p = unat (c0 ! f + of_nat (mentions inp k f))"
    and q: "q = unat (c0 ! s + of_nat (mentions inp k s))"
    and pl: "p < length (bonds_of st f)" "p < length (strengths_of st f)"
    and ql: "q < length (bonds_of st s)" "q < length (strengths_of st s)"
    and b: "\<And>j. bonds_of st' j = twice_set (bonds_of st j) j f p (a2 - 1) s q (a1 - 1)"
    and t: "\<And>j. strengths_of st' j = twice_set (strengths_of st j) j f p x s q x"
  shows "entered inp c0 k st'"
proof (cases "f = s")
  case True
  then have "a1 - 1 = a2 - 1"
    using f s by (simp add: word_unat_eq_iff)
  moreover have "p = q" using True p q by simp
  ultimately show ?thesis
    using True pl ql
    unfolding entered_def Let_def fk sk l1 l2 l3 p[symmetric] q[symmetric] b t
    by (simp add: twice_set_def Let_def)
next
  case False
  then show ?thesis
    using pl ql
    unfolding entered_def Let_def fk sk l1 l2 l3 p[symmetric] q[symmetric] b t
    by (simp add: twice_set_def Let_def)
qed

lemma load_bond_step:
  assumes inv: "loaded inp c0 st0 k st" and step: "load_bond k st = Inr st'"
    and rd: "lines_read inp B st0" and k: "k < B"
    and cap: "\<forall>j. mentions inp B j \<le> 256"
  shows "loaded inp c0 st0 (Suc k) st'"
proof -
  from inv have sh: "same_shape st0 st" and len: "length (l_bond_index st) = length c0"
    and cnt: "\<forall>j<length c0. l_bond_index st ! j = c0 ! j + of_nat (mentions inp k j)"
    and old: "\<forall>i<k. first_of inp i < length c0 \<and> second_of inp i < length c0
            \<and> first_of inp i < length (ref_atom (l_universe st0))
            \<and> second_of inp i < length (ref_atom (l_universe st0))
            \<and> entered inp c0 i st"
    by (simp_all add: loaded_def)
  have a1: "l_a1 st ! k = bl_a1 (in_bonds inp ! k)"
    and a2: "l_a2 st ! k = bl_a2 (in_bonds inp ! k)"
    and a3: "l_bond_strength st ! k = bl_strength (in_bonds inp ! k)"
    using sh rd k by (simp_all add: same_shape_def lines_read_def)
  define f where "f = first_of inp k"
  define s where "s = second_of inp k"
  have f': "unat (l_a1 st ! k - 1) = f" and s': "unat (l_a2 st ! k - 1) = s"
    by (simp_all add: f_def s_def first_of_def second_of_def a1 a2)
  note r = load_bond_result[OF step, unfolded f' s']
  have fl: "f < length c0" and sl: "s < length c0"
    using r(1,2) len by simp_all
  define p where "p = unat (c0 ! f + of_nat (mentions inp k f))"
  define q where "q = unat (c0 ! s + of_nat (mentions inp k s))"
  have p': "unat (l_bond_index st ! f) = p" and q': "unat (l_bond_index st ! s) = q"
    using cnt fl sl by (simp_all add: p_def q_def)
  have sh': "same_shape st0 st'"
    using sh r(9) by (rule same_shape_trans)
  have len': "length (l_bond_index st') = length c0"
    by (simp add: r(10) len)
  have cnt': "l_bond_index st' ! j = c0 ! j + of_nat (mentions inp (Suc k) j)"
    if "j < length c0" for j
    using that cnt fl sl len
    by (simp add: r(10) nth_list_update mentions_Suc f_def[symmetric] s_def[symmetric])
  have b: "bonds_of st' j = twice_set (bonds_of st j) j f p (bl_a2 (in_bonds inp ! k) - 1)
      s q (bl_a1 (in_bonds inp ! k) - 1)" for j
    using r(11)[of j] by (simp add: p' q' a1 a2)
  have t: "strengths_of st' j = twice_set (strengths_of st j) j f p
      (bl_strength (in_bonds inp ! k)) s q (bl_strength (in_bonds inp ! k))" for j
    using r(12)[of j] by (simp add: p' q' a3)
  have pl: "p < length (bonds_of st f)" "p < length (strengths_of st f)"
    and ql: "q < length (bonds_of st s)" "q < length (strengths_of st s)"
    using r(5-8) by (simp_all add: p' q')
  have fw: "f = unat (bl_a1 (in_bonds inp ! k) - 1)" and sw: "s = unat (bl_a2 (in_bonds inp ! k) - 1)"
    by (simp_all add: f_def s_def first_of_def second_of_def)
  have new: "entered inp c0 k st'"
    using fw sw f_def[symmetric] s_def[symmetric] refl refl refl p_def q_def pl ql b t
    by (rule entered_new)
  have kept: "entered inp c0 i st'" if "i < k" for i
    using old that
    by (intro entered_kept[OF _ that k cap, where st = st and st' = st'
          and v = "bl_a2 (in_bonds inp ! k) - 1" and w = "bl_a1 (in_bonds inp ! k) - 1"
          and x = "bl_strength (in_bonds inp ! k)" and y = "bl_strength (in_bonds inp ! k)"])
      (simp_all add: b t f_def s_def p_def q_def)
  have rng: "f < length (ref_atom (l_universe st0))" "s < length (ref_atom (l_universe st0))"
    using r(3,4) sh by (simp_all add: same_shape_def)
  show ?thesis
    unfolding loaded_def
    using sh' len' cnt' new kept old fl sl rng
    by (auto simp: less_Suc_eq f_def s_def)
qed

lemma for_loop_preserves:
  assumes "for_loop xs body s = Inr s'" and "P s"
    and "\<And>i t t'. P t \<Longrightarrow> body i t = Inr t' \<Longrightarrow> P t'"
  shows "P s'"
  using assms(1,2)
proof (induction xs arbitrary: s)
  case Nil
  then show ?case by simp
next
  case (Cons i xs)
  then obtain t where t: "body i s = Inr t" and r: "for_loop xs body t = Inr s'"
    by (auto split: sum.splits)
  show ?case
    using Cons.IH[OF r assms(3)[OF Cons.prems(2) t]] .
qed

lemma load_bond_loop:
  assumes loop: "for_loop [0..<B] load_bond st0 = Inr st'"
    and rd: "lines_read inp B st0"
    and cap: "\<forall>j. mentions inp B j \<le> 256"
  shows "loaded inp (l_bond_index st0) st0 B st'"
proof (rule for_loop_upt_induct[OF loop, where I = "loaded inp (l_bond_index st0) st0"])
  show "loaded inp (l_bond_index st0) st0 0 st0"
    by (simp add: loaded_def same_shape_refl mentions_def)
next
  fix k t t'
  assume "k < B" "loaded inp (l_bond_index st0) st0 k t" "load_bond k t = Inr t'"
  then show "loaded inp (l_bond_index st0) st0 (Suc k) t'"
    using rd cap by (intro load_bond_step[where B = B and st = t]) simp_all
qed

lemma load_header_result:
  assumes "load_header env inp (u, l) = Inr (u1, l1)"
  shows "ref_atom_nb u1 = in_atom_nb inp" "ref_bond_nb u1 = in_bond_nb inp"
    "ref_atom u1 = map (\<lambda>i. atom_init env (uninit_atom env i)) [0..<in_atom_nb inp]"
  using assms unfolding load_header_def
  by (auto simp: Let_def split: option.splits)

lemma load_atom_loop:
  assumes "for_loop xs (load_atom inp) u1 = Inr u2"
  shows "counts_kept u1 u2 \<and> (\<forall>j. bond_nb (ref_atom u2 ! j) = bond_nb (ref_atom u1 ! j))"
proof (rule for_loop_preserves[OF assms, where
      P = "\<lambda>t. counts_kept u1 t \<and> (\<forall>j. bond_nb (ref_atom t ! j) = bond_nb (ref_atom u1 ! j))"])
  show "counts_kept u1 u1 \<and> (\<forall>j. bond_nb (ref_atom u1 ! j) = bond_nb (ref_atom u1 ! j))"
    by (simp add: counts_kept_def)
next
  fix i t t'
  assume "counts_kept u1 t \<and> (\<forall>j. bond_nb (ref_atom t ! j) = bond_nb (ref_atom u1 ! j))"
    and "load_atom inp i t = Inr t'"
  then show "counts_kept u1 t' \<and> (\<forall>j. bond_nb (ref_atom t' ! j) = bond_nb (ref_atom u1 ! j))"
    unfolding load_atom_def array_get_def counts_kept_def
    by (auto simp: Let_def nth_list_update split: if_splits)
qed

lemma load_temporaries_result:
  assumes "load_temporaries env (u, l) = Inr (st, l')"
  shows "l_universe st = u" "ref_bond_nb u \<le> 8 * ref_atom_nb u"
    "l_bond_index st = replicate (ref_bond_nb u) 0
        @ drop (ref_bond_nb u) (map (uninit_u8 env) [0..<8 * ref_atom_nb u])"
    "length (l_a1 st) = ref_bond_nb u" "length (l_a2 st) = ref_bond_nb u"
    "length (l_bond_strength st) = ref_bond_nb u"
  using assms unfolding load_temporaries_def memset_zero_def
  by (auto split: option.splits if_splits)

lemma count_bond_result:
  assumes "count_bond j u = Inr u'"
  shows "j < length (ref_atom u)" "counts_kept u u'"
    "\<And>i. i < length (ref_atom u) \<Longrightarrow>
       bond_nb (ref_atom u' ! i) = bond_nb (ref_atom u ! i) + (if j = i then 1 else 0)"
  using assms unfolding count_bond_def array_get_def counts_kept_def
  by (auto simp: nth_list_update split: if_splits)

lemma read_bond_step:
  assumes inv: "read_done inp st0 k st" and step: "read_bond inp k st = Inr st'"
  shows "read_done inp st0 (Suc k) st'"
proof -
  let ?b = "in_bonds inp ! k"
  from step obtain u1 u2 where
    k: "k < length (l_a1 st)" "k < length (l_a2 st)" "k < length (l_bond_strength st)"
    and c1: "count_bond (first_of inp k) (l_universe st) = Inr u1"
    and c2: "count_bond (second_of inp k) u1 = Inr u2"
    and st': "st' = st\<lparr>l_universe := u2, l_a1 := (l_a1 st)[k := bl_a1 ?b],
        l_a2 := (l_a2 st)[k := bl_a2 ?b],
        l_bond_strength := (l_bond_strength st)[k := bl_strength ?b]\<rparr>"
    unfolding read_bond_def array_get_def array_set_def first_of_def second_of_def
    by (auto split: if_splits sum.splits)
  note r1 = count_bond_result[OF c1]
  note r2 = count_bond_result[OF c2]
  from inv have ck: "counts_kept (l_universe st0) (l_universe st)"
    and nb: "\<forall>j<length (ref_atom (l_universe st0)).
           bond_nb (ref_atom (l_universe st) ! j)
             = bond_nb (ref_atom (l_universe st0) ! j) + mentions inp k j"
    and rd: "lines_read inp k st"
    and rng: "\<forall>i<k. first_of inp i < length (ref_atom (l_universe st0))
            \<and> second_of inp i < length (ref_atom (l_universe st0))"
    by (simp_all add: read_done_def)
  have len: "length (ref_atom (l_universe st)) = length (ref_atom (l_universe st0))"
    "length (ref_atom u1) = length (ref_atom (l_universe st0))"
    using ck r1(2) by (simp_all add: counts_kept_def)
  have ck': "counts_kept (l_universe st0) u2"
    using ck r1(2) r2(2) by (simp add: counts_kept_def)
  have nb': "bond_nb (ref_atom u2 ! j)
      = bond_nb (ref_atom (l_universe st0) ! j) + mentions inp (Suc k) j"
    if "j < length (ref_atom (l_universe st0))" for j
    using that nb r1(3)[of j] r2(3)[of j] len by (simp add: mentions_Suc)
  have rd': "lines_read inp (Suc k) st'"
    using rd k by (auto simp: lines_read_def st' less_Suc_eq nth_list_update)
  have rng': "first_of inp k < length (ref_atom (l_universe st0))"
    "second_of inp k < length (ref_atom (l_universe st0))"
    using r1(1) r2(1) len by simp_all
  show ?thesis
    unfolding read_done_def
    using inv ck' nb' rd' rng rng'
    by (auto simp: st' read_done_def less_Suc_eq)
qed

lemma read_bond_loop:
  assumes "for_loop [0..<B] (read_bond inp) st0 = Inr st'"
  shows "read_done inp st0 B st'"
proof (rule for_loop_upt_induct[OF assms, where I = "read_done inp st0"])
  show "read_done inp st0 0 st0"
    by (simp add: read_done_def lines_read_def counts_kept_def mentions_def)
next
  fix k t t'
  assume "read_done inp st0 k t" "read_bond inp k t = Inr t'"
  then show "read_done inp st0 (Suc k) t'" by (rule read_bond_step)
qed

lemma alloc_bonds_step:
  assumes inv: "alloc_done u0 k t" and step: "alloc_bonds env k t = Inr t'"
  shows "alloc_done u0 (Suc k) t'"
proof -
  obtain u l u' l' where t: "t = (u, l)" and t': "t' = (u', l')"
    by (cases t, cases t') auto
  let ?a = "ref_atom u ! k"
  from step have k: "k < length (ref_atom u)"
    and u': "u' = u\<lparr>ref_atom := (ref_atom u)
              [k := ?a\<lparr>bond := map (uninit_u64 env) [0..<bond_nb ?a],
                      bond_strength := map (uninit_double env) [0..<bond_nb ?a]\<rparr>]\<rparr>"
    unfolding alloc_bonds_def array_get_def t t'
    by (auto split: if_splits option.splits)
  from inv have ck: "counts_kept u0 u"
    and nb: "\<forall>j. bond_nb (ref_atom u ! j) = bond_nb (ref_atom u0 ! j)"
    and dn: "\<forall>j<k. j < length (ref_atom u0)
           \<and> length (bond (ref_atom u ! j)) = bond_nb (ref_atom u0 ! j)
           \<and> length (bond_strength (ref_atom u ! j)) = bond_nb (ref_atom u0 ! j)"
    by (simp_all add: alloc_done_def t)
  have "counts_kept u0 u'"
    using ck by (simp add: counts_kept_def u')
  moreover have "bond_nb (ref_atom u' ! j) = bond_nb (ref_atom u0 ! j)" for j
    using nb k by (simp add: u' nth_list_update)
  moreover have "j < length (ref_atom u0)
      \<and> length (bond (ref_atom u' ! j)) = bond_nb (ref_atom u0 ! j)
      \<and> length (bond_strength (ref_atom u' ! j)) = bond_nb (ref_atom u0 ! j)"
    if "j < Suc k" for j
    using that dn nb k ck by (auto simp: u' nth_list_update less_Suc_eq counts_kept_def)
  ultimately show ?thesis
    by (simp add: alloc_done_def t')
qed

lemma alloc_bonds_loop:
  assumes "for_loop [0..<R] (alloc_bonds env) (u0, l) = Inr t'"
  shows "alloc_done u0 R t'"
proof (rule for_loop_upt_induct[OF assms, where I = "alloc_done u0"])
  show "alloc_done u0 0 (u0, l)"
    by (simp add: alloc_done_def counts_kept_def)
next
  fix k t t'
  assume "alloc_done u0 k t" "alloc_bonds env k t = Inr t'"
  then show "alloc_done u0 (Suc k) t'" by (rule alloc_bonds_step)
qed

lemma entered_universe:
  "l_universe st = l_universe st' \<Longrightarrow> entered inp c0 i st \<Longrightarrow> entered inp c0 i st'"
  by (simp add: entered_def bonds_of_def strengths_of_def)

lemma universe_load_summary:
  assumes ok: "universe_load env inp (u, l) = Inr (u', l')"
    and cap: "\<forall>j. mentions inp (in_bond_nb inp) j \<le> 256"
  shows "load_summary env inp u'
     (replicate (in_bond_nb inp) 0
        @ drop (in_bond_nb inp) (map (uninit_u8 env) [0..<8 * in_atom_nb inp]))"
proof -
  let ?R = "in_atom_nb inp" and ?B = "in_bond_nb inp"
  from ok obtain u1 l1 u2 st2 l2 st3 u4 l4 st5 where
    h: "load_header env inp (u, l) = Inr (u1, l1)"
    and a: "for_loop [0..<ref_atom_nb u1] (load_atom inp) u1 = Inr u2"
    and t: "load_temporaries env (u2, l1) = Inr (st2, l2)"
    and r: "for_loop [0..<ref_bond_nb u2] (read_bond inp) st2 = Inr st3"
    and m: "for_loop [0..<ref_atom_nb u2] (alloc_bonds env) (l_universe st3, l2) = Inr (u4, l4)"
    and b: "for_loop [0..<ref_bond_nb u4] load_bond (st3\<lparr>l_universe := u4\<rparr>) = Inr st5"
    and u': "u' = l_universe st5"
    unfolding universe_load_def by (auto split: sum.splits prod.splits)
  note hr = load_header_result[OF h]
  from load_atom_loop[OF a] have ck2: "counts_kept u1 u2"
    and nb2: "\<And>j. bond_nb (ref_atom u2 ! j) = bond_nb (ref_atom u1 ! j)"
    by simp_all
  have R2: "ref_atom_nb u2 = ?R" and B2: "ref_bond_nb u2 = ?B" and len2: "length (ref_atom u2) = ?R"
    using ck2 hr by (simp_all add: counts_kept_def)
  note tr = load_temporaries_result[OF t, unfolded R2 B2]
  from read_bond_loop[OF r[unfolded B2]] have rd: "read_done inp st2 ?B st3" .
  then have idx3: "l_bond_index st3 = l_bond_index st2"
    and lr3: "lines_read inp ?B st3"
    and ck3: "counts_kept u2 (l_universe st3)"
    and nb3: "\<And>j. j < ?R \<Longrightarrow> bond_nb (ref_atom (l_universe st3) ! j)
        = bond_nb (ref_atom u2 ! j) + mentions inp ?B j"
    and rng3: "\<And>i. i < ?B \<Longrightarrow> first_of inp i < ?R \<and> second_of inp i < ?R"
    by (simp_all add: read_done_def tr(1) len2)
  from alloc_bonds_loop[OF m[unfolded R2]] have
    ck4: "counts_kept (l_universe st3) u4"
    and nb4: "\<And>j. bond_nb (ref_atom u4 ! j) = bond_nb (ref_atom (l_universe st3) ! j)"
    and len4: "\<And>j. j < ?R \<Longrightarrow>
        length (bond (ref_atom u4 ! j)) = bond_nb (ref_atom (l_universe st3) ! j)
        \<and> length (bond_strength (ref_atom u4 ! j)) = bond_nb (ref_atom (l_universe st3) ! j)"
    by (simp_all add: alloc_done_def)
  have B4: "ref_bond_nb u4 = ?B" and R4: "ref_atom_nb u4 = ?R" and l4: "length (ref_atom u4) = ?R"
    using ck4 ck3 B2 R2 len2 by (simp_all add: counts_kept_def)
  let ?st0 = "st3\<lparr>l_universe := u4\<rparr>"
  have lr0: "lines_read inp ?B ?st0"
    using lr3 by (simp add: lines_read_def)
  from load_bond_loop[OF b[unfolded B4] lr0 cap]
  have ld: "loaded inp (l_bond_index st2) ?st0 ?B st5"
    by (simp add: idx3)
  then have sh: "same_shape ?st0 st5"
    and ent: "\<And>i. i < ?B \<Longrightarrow> entered inp (l_bond_index st2) i st5"
    by (simp_all add: loaded_def)
  have fin: "ref_atom_nb u' = ?R" "ref_bond_nb u' = ?B" "length (ref_atom u') = ?R"
    using sh B4 R4 l4 by (simp_all add: same_shape_def u')
  have nb0: "bond_nb (ref_atom u1 ! j) = bond_nb (atom_init env (uninit_atom env j))"
    if "j < ?R" for j
    using that by (simp add: hr(3))
  have atoms: "bond_nb (ref_atom u' ! j)
              = bond_nb (atom_init env (uninit_atom env j)) + mentions inp ?B j
            \<and> length (bond (ref_atom u' ! j)) = bond_nb (ref_atom u' ! j)
            \<and> length (bond_strength (ref_atom u' ! j)) = bond_nb (ref_atom u' ! j)"
    if "j < ?R" for j
  proof -
    from sh have "bond_nb (ref_atom u' ! j) = bond_nb (ref_atom u4 ! j)"
      and "length (bond (ref_atom u' ! j)) = length (bond (ref_atom u4 ! j))"
      and "length (bond_strength (ref_atom u' ! j)) = length (bond_strength (ref_atom u4 ! j))"
      by (simp_all add: same_shape_def u' bonds_of_def strengths_of_def)
    then show ?thesis
      using len4[OF that] nb4[of j] nb3[OF that] nb2[of j] nb0[OF that] by simp
  qed
  have ent': "entered inp (l_bond_index st2) i \<lparr>l_universe = u', l_a1 = [], l_a2 = [],
                 l_bond_strength = [], l_bond_index = []\<rparr>" if "i < ?B" for i
    using ent[OF that] by (rule entered_universe[rotated]) (simp add: u')
  show ?thesis
    unfolding load_summary_def Let_def
    using tr(2) fin atoms rng3 ent' by (simp add: tr(3))
qed

lemma universe_load_arrays:
  "universe_load env inp state =
     (case load_arrays env inp state of Inl e \<Rightarrow> Inl e
      | Inr (st, l) \<Rightarrow>
         (case for_loop [0..<ref_bond_nb (l_universe st)] load_bond st of
            Inl e \<Rightarrow> Inl e
          | Inr st' \<Rightarrow>
              Inr (l_universe st',
                   free (free (free (free l (8 * ref_bond_nb (l_universe st)))
                     (8 * ref_bond_nb (l_universe st))) (8 * ref_bond_nb (l_universe st)))
                     (8 * ref_atom_nb (l_universe st)))))"
  unfolding universe_load_def load_arrays_def
  by (simp split: sum.splits prod.splits)

lemma load_arrays_result:
  assumes "load_arrays env inp (u, l) = Inr (st0, l0)"
  shows "in_bond_nb inp \<le> 8 * in_atom_nb inp"
    "l_bond_index st0 = replicate (in_bond_nb inp) 0
        @ drop (in_bond_nb inp) (map (uninit_u8 env) [0..<8 * in_atom_nb inp])"
    "lines_read inp (in_bond_nb inp) st0"
    "length (l_a1 st0) = in_bond_nb inp" "length (l_a2 st0) = in_bond_nb inp"
    "length (l_bond_strength st0) = in_bond_nb inp"
    "ref_bond_nb (l_universe st0) = in_bond_nb inp"
    "ref_atom_nb (l_universe st0) = in_atom_nb inp"
    "length (ref_atom (l_universe st0)) = in_atom_nb inp"
    "\<And>i. i < in_bond_nb inp \<Longrightarrow> first_of inp i < in_atom_nb inp \<and> second_of inp i < in_atom_nb inp"
    "\<And>j. j < in_atom_nb inp \<Longrightarrow>
       bond_nb (ref_atom (l_universe st0) ! j)
         = bond_nb (atom_init env (uninit_atom env j)) + mentions inp (in_bond_nb inp) j
       \<and> length (bonds_of st0 j) = bond_nb (ref_atom (l_universe st0) ! j)
       \<and> length (strengths_of st0 j) = bond_nb (ref_atom (l_universe st0) ! j)"
proof -
  let ?R = "in_atom_nb inp" and ?B = "in_bond_nb inp"
  from assms obtain u1 l1 u2 st2 l2 st3 u4 where
    h: "load_header env inp (u, l) = Inr (u1, l1)"
    and a: "for_loop [0..<ref_atom_nb u1] (load_atom inp) u1 = Inr u2"
    and t: "load_temporaries env (u2, l1) = Inr (st2, l2)"
    and r: "for_loop [0..<ref_bond_nb u2] (read_bond inp) st2 = Inr st3"
    and m: "for_loop [0..<ref_atom_nb u2] (alloc_bonds env) (l_universe st3, l2) = Inr (u4, l0)"
    and st0: "st0 = st3\<lparr>l_universe := u4\<rparr>"
    unfolding load_arrays_def by (auto split: sum.splits prod.splits)
  note hr = load_header_result[OF h]
  from load_atom_loop[OF a] have ck2: "counts_kept u1 u2"
    and nb2: "\<And>j. bond_nb (ref_atom u2 ! j) = bond_nb (ref_atom u1 ! j)"
    by simp_all
  have R2: "ref_atom_nb u2 = ?R" and B2: "ref_bond_nb u2 = ?B" and len2: "length (ref_atom u2) = ?R"
    using ck2 hr by (simp_all add: counts_kept_def)
  note tr = load_temporaries_result[OF t, unfolded R2 B2]
  from read_bond_loop[OF r[unfolded B2]] have rd: "read_done inp st2 ?B st3" .
  then have idx3: "l_bond_index st3 = l_bond_index st2"
    and lr3: "lines_read inp ?B st3"
    and ck3: "counts_kept u2 (l_universe st3)"
    and nb3: "\<And>j. j < ?R \<Longrightarrow> bond_nb (ref_atom (l_universe st3) ! j)
        = bond_nb (ref_atom u2 ! j) + mentions inp ?B j"
    and rng3: "\<And>i. i < ?B \<Longrightarrow> first_of inp i < ?R \<and> second_of inp i < ?R"
    and ln3: "length (l_a1 st3) = ?B" "length (l_a2 st3) = ?B" "length (l_bond_strength st3) = ?B"
    by (simp_all add: read_done_def tr len2)
  from alloc_bonds_loop[OF m[unfolded R2]] have
    ck4: "counts_kept (l_universe st3) u4"
    and nb4: "\<And>j. bond_nb (ref_atom u4 ! j) = bond_nb (ref_atom (l_universe st3) ! j)"
    and len4: "\<And>j. j < ?R \<Longrightarrow>
        length (bond (ref_atom u4 ! j)) = bond_nb (ref_atom (l_universe st3) ! j)
        \<and> length (bond_strength (ref_atom u4 ! j)) = bond_nb (ref_atom (l_universe st3) ! j)"
    by (simp_all add: alloc_done_def)
  have B4: "ref_bond_nb u4 = ?B" and R4: "ref_atom_nb u4 = ?R" and l4: "length (ref_atom u4) = ?R"
    using ck4 ck3 B2 R2 len2 by (simp_all add: counts_kept_def)
  have nb0: "bond_nb (ref_atom u1 ! j) = bond_nb (atom_init env (uninit_atom env j))"
    if "j < ?R" for j
    using that by (simp add: hr(3))
  show "?B \<le> 8 * ?R" by (rule tr(2))
  show "l_bond_index st0 = replicate ?B 0 @ drop ?B (map (uninit_u8 env) [0..<8 * ?R])"
    by (simp add: st0 idx3 tr(3))
  show "lines_read inp ?B st0"
    using lr3 by (simp add: lines_read_def st0)
  show "length (l_a1 st0) = ?B" "length (l_a2 st0) = ?B" "length (l_bond_strength st0) = ?B"
    using ln3 by (simp_all add: st0)
  show "ref_bond_nb (l_universe st0) = ?B" "ref_atom_nb (l_universe st0) = ?R"
    "length (ref_atom (l_universe st0)) = ?R"
    using B4 R4 l4 by (simp_all add: st0)
  show "first_of inp i < ?R \<and> second_of inp i < ?R" if "i < ?B" for i
    using rng3[OF that] .
  show "bond_nb (ref_atom (l_universe st0) ! j)
         = bond_nb (atom_init env (uninit_atom env j)) + mentions inp ?B j
       \<and> length (bonds_of st0 j) = bond_nb (ref_atom (l_universe st0) ! j)
       \<and> length (strengths_of st0 j) = bond_nb (ref_atom (l_universe st0) ! j)"
    if "j < ?R" for j
    using len4[OF that] nb4[of j] nb3[OF that] nb2[of j] nb0[OF that]
    by (simp add: st0 bonds_of_def strengths_of_def)
qed

lemma counted_step:
  assumes inv: "counted inp st0 k st" and step: "load_bond k st = Inr st'"
    and rd: "lines_read inp B st0" and k: "k < B"
  shows "counted inp st0 (Suc k) st'"
proof -
  from inv have sh: "same_shape st0 st"
    and cnt: "\<forall>j<length (l_bond_index st0).
        l_bond_index st ! j = l_bond_index st0 ! j + of_nat (mentions inp k j)"
    by (simp_all add: counted_def)
  have len: "length (l_bond_index st) = length (l_bond_index st0)"
    using sh by (simp add: same_shape_def)
  have a1: "l_a1 st ! k = bl_a1 (in_bonds inp ! k)"
    and a2: "l_a2 st ! k = bl_a2 (in_bonds inp ! k)"
    using sh rd k by (simp_all add: same_shape_def lines_read_def)
  have f': "unat (l_a1 st ! k - 1) = first_of inp k" and s': "unat (l_a2 st ! k - 1) = second_of inp k"
    by (simp_all add: first_of_def second_of_def a1 a2)
  note r = load_bond_result[OF step, unfolded f' s']
  have sh': "same_shape st0 st'"
    using sh r(9) by (rule same_shape_trans)
  have cnt': "l_bond_index st' ! j = l_bond_index st0 ! j + of_nat (mentions inp (Suc k) j)"
    if "j < length (l_bond_index st0)" for j
    using that cnt r(1,2) len
    by (simp add: r(10) nth_list_update mentions_Suc)
  show ?thesis
    unfolding counted_def using sh' cnt' by simp
qed

lemma counted_loop:
  assumes loop: "for_loop [0..<i] load_bond st0 = Inr st"
    and rd: "lines_read inp B st0" and i: "i \<le> B"
  shows "counted inp st0 i st"
proof (rule for_loop_upt_induct[OF loop, where I = "counted inp st0"])
  show "counted inp st0 0 st0"
    by (simp add: counted_def same_shape_refl mentions_def)
next
  fix k t t'
  assume "k < i" "counted inp st0 k t" "load_bond k t = Inr t'"
  then show "counted inp st0 (Suc k) t'"
    using rd i by (intro counted_step[where B = B and st = t]) simp_all
qed

lemma load_bond_failure: "load_bond i st = Inl e \<Longrightarrow> e = Undefined"
  unfolding load_bond_def place_bond_def next_index_def array_get_def array_set_def
  by (auto simp: Let_def split: if_splits sum.splits)


subsection \<open>Evaluation of the concrete runs\<close>

lemmas load_defs = universe_load_def load_header_def load_atom_def load_temporaries_def
  memset_zero_def count_bond_def read_bond_def alloc_bonds_def place_bond_def next_index_def
  load_bond_def malloc_def free_def array_get_def array_set_def vec3d_mul_def Let_def

lemma replicate_numeral: "replicate (numeral k) x = x # replicate (pred_numeral k) x"
  by (simp add: numeral_eq_Suc)


lemmas ex_defs = ex_env_def ex_universe_def ex_libc_def ex_ref0_def ex_ref1_def ex_blank_def
  vec3d_zero_def

lemma ex_populate:
  "universe_populate ex_env (ex_universe, ex_libc)
     = Inr (ex_populated, \<lparr>heap_free = 936, rand_state = 4\<rparr>)"
  by (simp add: universe_populate_def populate_copy_def populate_atom_def populate_bond_def
      populate_fields_def array_get_def array_set_def malloc_def vec3d_add_def vec3d_mul_def
      ex_defs ex_populated_def ex_copy_def Let_def upt_rec)

section \<open>universe_populate: bonds of the copies (C7)\<close>



section \<open>universe_populate: velocity, acceleration and force of the copies (C8)\<close>

text \<open>
  C8. \<open>universe_populate\<close> writes the velocity of each duplicate atom in its x
  component only: the three assignments of lines 244 to 246 all go to \<open>vel.x\<close>, so
  it ends equal to the reference atom's \<open>vel.z\<close>, while \<open>vel.y\<close> and \<open>vel.z\<close> of
  the duplicate keep the values they had before the call (those of \<open>atom_init\<close>).
  The same holds for the acceleration and the force.
\<close>

theorem populate_assigns_x_only:
  assumes "universe_populate env (universe, l) = Inr (universe', l')"
    and "i < copy_nb universe" and "ii < ref_atom_nb universe"
  shows "let reference = ref_atom universe ! ii;
             before = atom universe ! (i * ref_atom_nb universe + ii);
             duplicate = atom universe' ! (i * ref_atom_nb universe + ii)
         in vec3d_x (vel duplicate) = vec3d_z (vel reference)
          \<and> vec3d_y (vel duplicate) = vec3d_y (vel before)
          \<and> vec3d_z (vel duplicate) = vec3d_z (vel before)
          \<and> vec3d_x (acc duplicate) = vec3d_z (acc reference)
          \<and> vec3d_y (acc duplicate) = vec3d_y (acc before)
          \<and> vec3d_z (acc duplicate) = vec3d_z (acc before)
          \<and> vec3d_x (frc duplicate) = vec3d_z (frc reference)
          \<and> vec3d_y (frc duplicate) = vec3d_y (frc before)
          \<and> vec3d_z (frc duplicate) = vec3d_z (frc before)"
proof -
  from universe_populate_result[OF assms(1)] assms(2,3)
  have "duplicated i (ref_atom_nb universe) (ref_atom universe ! ii)
          (atom universe ! (i * ref_atom_nb universe + ii))
          (atom universe' ! (i * ref_atom_nb universe + ii))"
    by (simp add: copies_done_def)
  then show ?thesis
    by (simp add: duplicated_def Let_def)
qed

theorem populate_assigns_x_only_witness:
  "universe_populate ex_env (ex_universe, ex_libc)
     = Inr (ex_populated, \<lparr>heap_free = 936, rand_state = 4\<rparr>)
   \<and> (1::nat) < copy_nb ex_universe \<and> (1::nat) < ref_atom_nb ex_universe
   \<and> vel (ref_atom ex_universe ! 1) = \<lparr>vec3d_x = 1, vec3d_y = 2, vec3d_z = 3\<rparr>
   \<and> vel (atom ex_universe ! 3) = \<lparr>vec3d_x = 7, vec3d_y = 8, vec3d_z = 9\<rparr>
   \<and> vel (atom ex_populated ! 3) = \<lparr>vec3d_x = 3, vec3d_y = 8, vec3d_z = 9\<rparr>"
  using populate_assigns_x_only[OF ex_populate, of 1 1] ex_populate
  by (simp add: ex_defs ex_populated_def ex_copy_def)

section \<open>universe_setvelocity (C5)\<close>

lemma ex_setvelocity:
  "universe_setvelocity ex_env (ex_universe, ex_libc)
     = Inr (ex_thermal, \<lparr>heap_free = 1000, rand_state = 4\<rparr>)"
  by (simp add: universe_setvelocity_def setvelocity_mass_def setvelocity_atom_def
      array_get_def vec3d_mul_def ex_defs ex_thermal_def Let_def upt_rec numeral_eq_Suc)

text \<open>
  C5. After \<open>universe_setvelocity\<close> has returned successfully, the velocity of every
  live atom \<open>i\<close> is \<open>v\<close> times the vector \<open>u\<close> that the \<open>i\<close>-th call of the
  Marsaglia sampler returned, where \<open>v = sqrt (3 k\<^sub>B T / m_mol)\<close> and \<open>m_mol\<close> is
  the sum of \<open>model_mass\<close> over the reference atoms. Doubles are reals here; for a
  sampler that returns unit vectors, a positive molecular mass and a non-negative
  \<open>k\<^sub>B T\<close> (where the formula is defined), the speed of every live atom is \<open>v\<close>.
\<close>

theorem setvelocity_speed:
  assumes "universe_setvelocity env (universe, l) = Inr (universe', l')"
    and "i < atom_nb universe"
    and "\<And>g. vec3d_mag (fst (vec3d_marsaglia env g)) = 1"
    and "0 < (\<Sum>j<ref_atom_nb universe. model_mass env (element (ref_atom universe ! j)))"
    and "0 \<le> C_BOLTZMANN env * temperature universe"
  shows "let m_mol = (\<Sum>j<ref_atom_nb universe. model_mass env (element (ref_atom universe ! j)));
             v = sqrt (3 * C_BOLTZMANN env * temperature universe / m_mol);
             u = fst (vec3d_marsaglia env (((snd \<circ> vec3d_marsaglia env) ^^ i) (rand_state l)))
         in vel (atom universe' ! i) = vec3d_mul u v \<and> vec3d_mag u = 1
          \<and> vec3d_mag (vel (atom universe' ! i)) = v"
proof -
  define m_mol where "m_mol = (\<Sum>j<ref_atom_nb universe. model_mass env (element (ref_atom universe ! j)))"
  define v where "v = sqrt (3 * C_BOLTZMANN env * temperature universe / m_mol)"
  from assms(1) obtain m where m: "for_loop [0..<ref_atom_nb universe] (setvelocity_mass env universe) 0 = Inr m"
    and loop: "for_loop [0..<atom_nb universe]
        (setvelocity_atom env (sqrt (3 * C_BOLTZMANN env * temperature universe / m))) (universe, l)
        = Inr (universe', l')"
    unfolding universe_setvelocity_def by (auto simp: Let_def split: sum.splits)
  have "m = m_mol" using setvelocity_mass_loop[OF m] by (simp add: m_mol_def)
  with loop have loop': "for_loop [0..<atom_nb universe] (setvelocity_atom env v) (universe, l)
        = Inr (universe', l')"
    by (simp add: v_def)
  have "velocities_set env v universe l (atom_nb universe) (universe', l')"
  proof (rule for_loop_upt_induct[OF loop', where I = "velocities_set env v universe l"])
    show "velocities_set env v universe l 0 (universe, l)"
      by (simp add: velocities_set_def)
  next
    fix k t t'
    assume "velocities_set env v universe l k t" "setvelocity_atom env v k t = Inr t'"
    then show "velocities_set env v universe l (Suc k) t'" by (rule setvelocity_atom_step)
  qed
  with assms(2) have vel: "vel (atom universe' ! i) = vec3d_mul
      (fst (vec3d_marsaglia env (((snd \<circ> vec3d_marsaglia env) ^^ i) (rand_state l)))) v"
    by (simp add: velocities_set_def)
  have "0 \<le> 3 * C_BOLTZMANN env * temperature universe / m_mol"
    using assms(4,5) by (simp add: m_mol_def mult.assoc)
  then have "0 \<le> v" by (simp add: v_def)
  then have "vec3d_mag (vel (atom universe' ! i)) = v"
    by (simp add: vel vec3d_mag_mul assms(3))
  then show ?thesis
    using vel assms(3) unfolding Let_def m_mol_def[symmetric] v_def[symmetric] by simp
qed


theorem setvelocity_speed_witness:
  "universe_setvelocity ex_env (ex_universe, ex_libc)
     = Inr (ex_thermal, \<lparr>heap_free = 1000, rand_state = 4\<rparr>)
   \<and> (3::nat) < atom_nb ex_universe
   \<and> (\<forall>g. vec3d_mag (fst (vec3d_marsaglia ex_env g)) = 1)
   \<and> (\<Sum>j<ref_atom_nb ex_universe. model_mass ex_env (element (ref_atom ex_universe ! j))) = 3
   \<and> C_BOLTZMANN ex_env * temperature ex_universe = 4
   \<and> vel (atom ex_thermal ! 3) = \<lparr>vec3d_x = 0, vec3d_y = 0, vec3d_z = 2\<rparr>
   \<and> vec3d_mag (vel (atom ex_thermal ! 3)) = 2"
proof -
  have unit: "vec3d_mag (fst (vec3d_marsaglia ex_env g)) = 1" for g
    by (simp add: ex_env_def vec3d_mag_def)
  have mass: "(\<Sum>j<ref_atom_nb ex_universe.
      model_mass ex_env (element (ref_atom ex_universe ! j))) = 3"
    by (simp add: ex_env_def ex_universe_def)
  have kT: "C_BOLTZMANN ex_env * temperature ex_universe = 4"
    by (simp add: ex_env_def ex_universe_def)
  have i: "(3::nat) < atom_nb ex_universe"
    by (simp add: ex_universe_def)
  have pos: "0 < (\<Sum>j<ref_atom_nb ex_universe.
      model_mass ex_env (element (ref_atom ex_universe ! j)))"
    by (simp only: mass)
  have nonneg: "0 \<le> C_BOLTZMANN ex_env * temperature ex_universe"
    by (simp only: kT)
  have "vec3d_mag (vel (atom ex_thermal ! 3))
      = sqrt (3 * C_BOLTZMANN ex_env * temperature ex_universe
          / (\<Sum>j<ref_atom_nb ex_universe.
               model_mass ex_env (element (ref_atom ex_universe ! j))))"
    using setvelocity_speed[OF ex_setvelocity i unit pos nonneg]
    unfolding Let_def by blast
  also have "\<dots> = sqrt (3 * 4 / 3)"
    by (simp only: mass mult.assoc kT)
  also have "\<dots> = 2"
    using real_sqrt_abs[of 2] by simp
  finally have speed: "vec3d_mag (vel (atom ex_thermal ! 3)) = 2" .
  have "vel (atom ex_thermal ! 3) = \<lparr>vec3d_x = 0, vec3d_y = 0, vec3d_z = 2\<rparr>"
    by (simp add: ex_thermal_def ex_blank_def numeral_eq_Suc)
  then show ?thesis
    using ex_setvelocity i unit mass kT speed by blast
qed

section \<open>universe_simulate: when frames are written (C10)\<close>

text \<open>
  C10. In a run of \<open>universe_simulate\<close> that returns successfully, every frame is
  written before an integration step: each header added to the file carries an
  iteration index that is at least the index at the start and strictly below the
  index at the end, so the state after the last step is never written. When the
  loop runs at all (and the stream accepts the items), the first items added are
  the frame of the initial state, before any integration. When the time has already
  reached \<open>max_time\<close>, the loop exits at once: nothing is written and the universe
  is unchanged.
\<close>

theorem simulate_frames_before_steps:
  assumes "universe_simulate env args universe = Some (Inr universe')"
  shows "(\<exists>items. written (output_file universe') = written (output_file universe) @ items
            \<and> (\<forall>n it. Header n it \<in> set items
                  \<longrightarrow> iterations universe \<le> it \<and> it < iterations universe')
            \<and> (time universe < max_time args \<and> room (output_file universe) = None
                  \<longrightarrow> (\<exists>rest. items = frame_of env universe @ rest)))
         \<and> (\<not> time universe < max_time args \<longrightarrow> universe' = universe)"
proof -
  have loop: "simulate_loop env args 0 universe = Some (Inr universe')"
    using assms by (simp add: universe_simulate_def)
  from simulate_loop_emitted[OF loop] obtain items where
    w: "written (output_file universe') = written (output_file universe) @ items"
    and h: "\<forall>n it. Header n it \<in> set items
        \<longrightarrow> iterations universe \<le> it \<and> it < iterations universe'"
    by (auto simp: emitted_before_def)
  have first: "\<exists>rest. items = frame_of env universe @ rest"
    if t: "time universe < max_time args" and r: "room (output_file universe) = None"
  proof -
    from simulate_loop_step[OF t loop] obtain u1 u2 where
      p: "universe_printstate env universe = Inr u1"
      and it: "universe_iterate env args u1 = Inr u2"
      and rec: "simulate_loop env args (frameskip args)
          (u2\<lparr>time := double_add env (time u2) (timestep args), iterations := iterations u2 + 1\<rparr>)
          = Some (Inr universe')"
      by auto
    have w1: "written (output_file u1) = written (output_file universe) @ frame_of env universe"
      using universe_printstate_result[OF p] r by (simp add: accepted_def)
    have f2: "u2 = u1\<lparr>atom := atom u2\<rparr>"
      using it by (rule universe_iterate_frame)
    have o2: "output_file u2 = output_file u1"
      using arg_cong[OF f2, of output_file] by simp
    from simulate_loop_emitted[OF rec] obtain rest where
      "written (output_file universe') = written (output_file u1) @ rest"
      by (auto simp: emitted_before_def o2)
    then have "written (output_file universe) @ items
        = written (output_file universe) @ (frame_of env universe @ rest)"
      by (simp add: w w1)
    then show ?thesis by simp
  qed
  have unchanged: "universe' = universe" if "\<not> time universe < max_time args"
    using simulate_loop_exit[OF that, of env 0] loop by simp
  have "written (output_file universe') = written (output_file universe) @ items
      \<and> (\<forall>n it. Header n it \<in> set items
            \<longrightarrow> iterations universe \<le> it \<and> it < iterations universe')
      \<and> (time universe < max_time args \<and> room (output_file universe) = None
            \<longrightarrow> (\<exists>rest. items = frame_of env universe @ rest))"
    using w h first by simp
  then have "\<exists>items. written (output_file universe') = written (output_file universe) @ items
      \<and> (\<forall>n it. Header n it \<in> set items
            \<longrightarrow> iterations universe \<le> it \<and> it < iterations universe')
      \<and> (time universe < max_time args \<and> room (output_file universe) = None
            \<longrightarrow> (\<exists>rest. items = frame_of env universe @ rest))"
    by (rule exI)
  then show ?thesis
    using unchanged by simp
qed


lemmas simulate_defs = universe_simulate_def simulate_loop.simps universe_printstate_def
  printstate_atom_def universe_iterate_def atom_pass_def pbc_pass_def fprintf_def
  array_get_def array_set_def Let_def

lemma ex_simulate: "universe_simulate ex_env ex_args ex_single = Some (Inr ex_simulated)"
  by (simp add: simulate_defs ex_defs ex_single_def ex_args_def ex_simulated_def)

theorem simulate_frames_before_steps_witness:
  "universe_simulate ex_env ex_args ex_single = Some (Inr ex_simulated)
   \<and> iterations ex_single = 0 \<and> iterations ex_simulated = 20
   \<and> time ex_single < max_time ex_args \<and> room (output_file ex_single) = None
   \<and> frame_of ex_env ex_single = [Header 1 0, AtomLine ''H'' 0 0 0]
   \<and> frame_indices (written (output_file ex_simulated)) = [0, 5, 10, 15]"
  using simulate_frames_before_steps[OF ex_simulate] ex_simulate
  by (simp add: ex_defs ex_single_def ex_args_def ex_simulated_def frame_of_def atom_line_def
      frame_indices_def)

section \<open>universe_simulate: the frames of twenty steps with a frame skip of four (C2)\<close>

text \<open>
  C2 as stated (five frames, indices 0, 5, 10, 15, 20) fails: on the small system
  with \<open>timestep = 1\<close>, \<open>max_time = 20\<close> and \<open>frameskip = 4\<close> the file holds four
  frames, with indices 0, 5, 10 and 15. The sums 0 + 1, 1 + 1, ... are exact in
  doubles, so the time reaches \<open>max_time\<close> after the twentieth step and the loop
  ends there: a frame is only written at the start of a step.
\<close>

theorem simulate_frameskip_counterexample:
  "max_time ex_args / timestep ex_args = 20 \<and> frameskip ex_args = 4
   \<and> simulated_frames ex_env ex_args ex_single = Some [0, 5, 10, 15]
   \<and> simulated_frames ex_env ex_args ex_single \<noteq> Some [0, 5, 10, 15, 20]"
proof -
  have "simulated_frames ex_env ex_args ex_single = Some [0, 5, 10, 15]"
    by (simp add: simulated_frames_def ex_simulate ex_simulated_def frame_indices_def)
  then show ?thesis
    by (simp add: ex_args_def)
qed

text \<open>
  C2, amended. The frames depend on the number of steps that the loop makes, which
  the counter \<open>iterations\<close> holds. With \<open>frameskip = 4\<close>, a run of \<open>universe_simulate\<close>
  that starts at iteration 0 on a stream that accepts every write, and returns
  successfully, has written the frames whose iteration indices are the multiples of
  5 below the number of steps made. After exactly 20 steps these are the four frames
  0, 5, 10 and 15; the five frames 0, 5, 10, 15 and 20 are those of a run of 21
  steps. With \<open>max_time = 20 * timestep\<close>, a positive time step and the time
  starting at 0, the run makes exactly 20 steps when each of the twenty sums
  \<open>m * timestep + timestep\<close> is computed exactly, as it is for a time step of 1.
  Nothing else is assumed about the rounding of the sums.
\<close>

theorem simulate_frameskip_four:
  assumes "universe_simulate env args universe = Some (Inr universe')"
    and "frameskip args = 4" and "iterations universe = 0"
    and "room (output_file universe) = None"
  shows "frame_indices (written (output_file universe'))
         = frame_indices (written (output_file universe))
           @ filter (\<lambda>it. it mod 5 = 0) [0..<iterations universe']
     \<and> (iterations universe' = 20
          \<longrightarrow> frame_indices (written (output_file universe'))
                = frame_indices (written (output_file universe)) @ [0, 5, 10, 15])
     \<and> (iterations universe' = 21
          \<longrightarrow> frame_indices (written (output_file universe'))
                = frame_indices (written (output_file universe)) @ [0, 5, 10, 15, 20])
     \<and> (time universe = 0 \<and> 0 < timestep args \<and> max_time args = 20 * timestep args
          \<and> (\<forall>m<20. double_add env (real m * timestep args) (timestep args)
                = real (Suc m) * timestep args)
          \<longrightarrow> iterations universe' = 20)"
proof -
  have loop: "simulate_loop env args 0 universe = Some (Inr universe')"
    using assms(1) by (simp add: universe_simulate_def)
  have k: "iterations universe' = iterations universe + iterations universe'"
    using assms(3) by simp
  have "schedule 4 0 0 (iterations universe') = filter (due 4 0 0) [0..<0 + iterations universe']"
    by (rule schedule_filter) simp
  moreover have "due 4 0 0 = (\<lambda>it. it mod 5 = 0)"
    by (rule ext) (simp add: due_def)
  ultimately have s: "schedule 4 0 0 (iterations universe')
      = filter (\<lambda>it. it mod 5 = 0) [0..<iterations universe']"
    by simp
  have frames: "frame_indices (written (output_file universe'))
      = frame_indices (written (output_file universe))
        @ filter (\<lambda>it. it mod 5 = 0) [0..<iterations universe']"
    using simulate_loop_frames[OF loop assms(4) k] by (simp add: assms(2,3) s)
  have f20: "filter (\<lambda>it. it mod 5 = 0) [0..<20] = [0, 5, 10, 15 :: nat]"
    by (simp add: upt_rec)
  have f21: "filter (\<lambda>it. it mod 5 = 0) [0..<21] = [0, 5, 10, 15, 20 :: nat]"
    by (simp add: upt_rec)
  have steps: "iterations universe' = 20"
    if "time universe = 0" and "0 < timestep args" and "max_time args = 20 * timestep args"
      and "\<forall>m<20. double_add env (real m * timestep args) (timestep args)
                = real (Suc m) * timestep args"
  proof -
    have t: "time universe = real 0 * timestep args"
      using that(1) by simp
    have m: "max_time args = real (0 + 20) * timestep args"
      using that(3) by simp
    have e: "\<forall>m. 0 \<le> m \<and> m < 0 + 20
          \<longrightarrow> double_add env (real m * timestep args) (timestep args)
                = real (Suc m) * timestep args"
      using that(4) by simp
    from simulate_loop_exact_steps[OF loop that(2) t m e] show ?thesis
      by (simp add: assms(3))
  qed
  show ?thesis
    using frames f20 f21 steps by simp
qed

lemma ex_simulate_long:
  "universe_simulate ex_env ex_args_long ex_single = Some (Inr ex_simulated_long)"
  by (simp add: simulate_defs ex_defs ex_single_def ex_args_def ex_args_long_def
      ex_simulated_long_def)

theorem simulate_frameskip_four_witness:
  "universe_simulate ex_env ex_args ex_single = Some (Inr ex_simulated)
   \<and> frameskip ex_args = 4 \<and> iterations ex_single = 0
   \<and> room (output_file ex_single) = None \<and> written (output_file ex_single) = []
   \<and> time ex_single = 0 \<and> 0 < timestep ex_args
   \<and> max_time ex_args = 20 * timestep ex_args
   \<and> double_add ex_env (19 * timestep ex_args) (timestep ex_args) = 20 * timestep ex_args
   \<and> iterations ex_simulated = 20
   \<and> frame_indices (written (output_file ex_simulated)) = [0, 5, 10, 15]
   \<and> universe_simulate ex_env ex_args_long ex_single = Some (Inr ex_simulated_long)
   \<and> frameskip ex_args_long = 4 \<and> iterations ex_simulated_long = 21
   \<and> frame_indices (written (output_file ex_simulated_long)) = [0, 5, 10, 15, 20]"
proof -
  have h: "frameskip ex_args = 4" "iterations ex_single = 0"
    "room (output_file ex_single) = None"
    by (simp_all add: ex_single_def ex_universe_def ex_args_def)
  have g: "time ex_single = 0" "0 < timestep ex_args"
    "max_time ex_args = 20 * timestep ex_args"
    "\<forall>m<20. double_add ex_env (real m * timestep ex_args) (timestep ex_args)
         = real (Suc m) * timestep ex_args"
    by (simp_all add: ex_single_def ex_universe_def ex_args_def ex_env_def)
  have e: "written (output_file ex_single) = []"
    by (simp add: ex_single_def ex_universe_def)
  have d: "double_add ex_env (19 * timestep ex_args) (timestep ex_args) = 20 * timestep ex_args"
    by (simp add: ex_args_def ex_env_def)
  have n: "iterations ex_simulated = 20"
    using simulate_frameskip_four[OF ex_simulate h] g by blast
  have "frame_indices (written (output_file ex_simulated))
      = frame_indices (written (output_file ex_single)) @ [0, 5, 10, 15]"
    using simulate_frameskip_four[OF ex_simulate h] n by blast
  then have f: "frame_indices (written (output_file ex_simulated)) = [0, 5, 10, 15]"
    by (simp add: e frame_indices_def)
  have h': "frameskip ex_args_long = 4"
    by (simp add: ex_args_long_def ex_args_def)
  have n': "iterations ex_simulated_long = 21"
    by (simp add: ex_simulated_long_def)
  have "frame_indices (written (output_file ex_simulated_long))
      = frame_indices (written (output_file ex_single)) @ [0, 5, 10, 15, 20]"
    using simulate_frameskip_four[OF ex_simulate_long h' h(2,3)] n' by blast
  then have f': "frame_indices (written (output_file ex_simulated_long)) = [0, 5, 10, 15, 20]"
    by (simp add: e frame_indices_def)
  show ?thesis
    using ex_simulate h g(1-3) d e n f ex_simulate_long h' n' f' by blast
qed

section \<open>universe_simulate: a frame write that fails (C4)\<close>

text \<open>
  C4 asks that a frame is written in full or the run aborts, and that a failing
  write is reported. \<open>universe_printstate\<close> drops the result of every \<open>fprintf\<close> and
  always returns the universe, so the test of line 343 never sees a failure. On a
  stream that accepts only the header, the atom line is refused (\<open>fprintf\<close> returns
  a negative value), the file keeps a header without its atom line, and
  \<open>universe_simulate\<close> goes on for both steps and returns successfully.
\<close>

theorem simulate_partial_frame:
  "snd (fprintf \<lparr>written = [Header 1 0], room = Some 0\<rparr> (AtomLine ''H'' 0 0 0)) = - 1
   \<and> universe_simulate ex_env ex_args_short ex_full
     = Some (Inr (ex_full\<lparr>time := 2, iterations := 2,
          output_file := \<lparr>written = [Header 1 0], room = Some 0\<rparr>\<rparr>))"
  by (simp add: simulate_defs ex_defs ex_single_def ex_args_def ex_full_def ex_args_short_def)

section \<open>universe_montecarlo: the potential never rises (C1)\<close>

lemmas montecarlo_defs = universe_montecarlo_def montecarlo_atom_def montecarlo_loop.simps
  montecarlo_propose_def montecarlo_restore_def pbc_pass_def universe_energy_potential_def
  energy_potential_atom_def array_get_def vec3d_add_def vec3d_mul_def Let_def

lemma ex_montecarlo:
  "universe_montecarlo ex_bouncy (ex_single, ex_libc)
     = Some (Inr (ex_relaxed, \<lparr>heap_free = 1000, rand_state = 2\<rparr>))"
  by (simp add: montecarlo_defs ex_defs ex_bouncy_def ex_single_def ex_relaxed_def)

lemma ex_montecarlo_down:
  "montecarlo_propose ex_bouncy 0 (1 / 10 ^ 9) (ex_single, ex_libc)
     = Inr (ex_sunk, \<lparr>heap_free = 1000, rand_state = 1\<rparr>)"
  "universe_energy_potential ex_bouncy ex_sunk = Inr (1 / 10 ^ 9)"
  by (simp_all add: montecarlo_defs ex_defs ex_bouncy_def ex_single_def ex_sunk_def)

text \<open>
  C1. When \<open>universe_montecarlo\<close> terminates and returns successfully, the total
  potential energy of the system after the call is at most the one before the call
  (strictly lower as soon as there is an atom). The loop of each atom is left only
  by a proposal whose total potential is strictly below the one computed before the
  loop, and that proposal was made on the universe as it was when the loop started:
  the universe returned is reached from the initial one by one accepted proposal
  per atom (\<open>relaxed\<close>). Every rejected move is undone exactly: after a proposal
  that is evaluated and not accepted, the loop goes on from the very universe it had
  before the proposal, with the state of the generator moved on.
\<close>

theorem montecarlo_lowers_potential:
  assumes "universe_montecarlo env (universe, l) = Some (Inr (universe', l'))"
  shows "(\<exists>before after. universe_energy_potential env universe = Inr before
            \<and> universe_energy_potential env universe' = Inr after
            \<and> after \<le> before \<and> (0 < atom_nb universe \<longrightarrow> after < before))
       \<and> relaxed env [0..<atom_nb universe] (universe, l) (universe', l')
       \<and> (\<forall>part_id potential tries mag u0 l0 u2 l2 potential_new.
            montecarlo_propose env part_id (if tries < 50 then mag else mag * (1 / 10)) (u0, l0)
              = Inr (u2, l2)
            \<and> universe_energy_potential env u2 = Inr potential_new
            \<and> \<not> potential_new < potential
            \<longrightarrow> montecarlo_loop env part_id potential tries mag (u0, l0)
                  = montecarlo_loop env part_id potential (if tries < 50 then tries + 1 else 0)
                      (if tries < 50 then mag else mag * (1 / 10)) (u0, l2))"
proof -
  have loop: "montecarlo_for env [0..<atom_nb universe] (universe, l) = Some (Inr (universe', l'))"
    using assms by (simp add: universe_montecarlo_def)
  have "\<exists>before after. universe_energy_potential env universe = Inr before
            \<and> universe_energy_potential env universe' = Inr after
            \<and> after \<le> before \<and> (0 < atom_nb universe \<longrightarrow> after < before)"
    using montecarlo_for_decreases[OF loop]
  proof
    assume "[0..<atom_nb universe] = [] \<and> universe' = universe \<and> l' = l"
    then have "atom_nb universe = 0" "universe' = universe" by simp_all
    then have "universe_energy_potential env universe = Inr 0
        \<and> universe_energy_potential env universe' = Inr 0"
      by (simp add: universe_energy_potential_def)
    then show ?thesis using \<open>atom_nb universe = 0\<close> by simp
  next
    assume "[0..<atom_nb universe] \<noteq> [] \<and> (\<exists>e0 e1. universe_energy_potential env universe = Inr e0
           \<and> universe_energy_potential env universe' = Inr e1 \<and> e1 < e0)"
    then show ?thesis by force
  qed
  moreover have "relaxed env [0..<atom_nb universe] (universe, l) (universe', l')"
    using loop by (rule montecarlo_for_relaxed)
  ultimately show ?thesis
    using montecarlo_loop_rejected by blast
qed

theorem montecarlo_lowers_potential_witness:
  "universe_montecarlo ex_bouncy (ex_single, ex_libc)
     = Some (Inr (ex_relaxed, \<lparr>heap_free = 1000, rand_state = 2\<rparr>))
   \<and> universe_energy_potential ex_bouncy ex_single = Inr 0
   \<and> universe_energy_potential ex_bouncy ex_relaxed = Inr (- (1 / 10 ^ 9))
   \<and> montecarlo_propose ex_bouncy 0 (1 / 10 ^ 9) (ex_single, ex_libc)
       = Inr (ex_sunk, \<lparr>heap_free = 1000, rand_state = 1\<rparr>)
   \<and> universe_energy_potential ex_bouncy ex_sunk = Inr (1 / 10 ^ 9)
   \<and> montecarlo_loop ex_bouncy 0 0 0 (1 / 10 ^ 9) (ex_single, ex_libc)
       = montecarlo_loop ex_bouncy 0 0 1 (1 / 10 ^ 9)
           (ex_single, \<lparr>heap_free = 1000, rand_state = 1\<rparr>)
   \<and> relaxed ex_bouncy [0] (ex_single, ex_libc)
       (ex_relaxed, \<lparr>heap_free = 1000, rand_state = 2\<rparr>)
   \<and> vec3d_z (pos (atom ex_single ! 0)) = 0
   \<and> vec3d_z (pos (atom ex_sunk ! 0)) = - (1 / 10 ^ 9)
   \<and> vec3d_z (pos (atom ex_relaxed ! 0)) = 1 / 10 ^ 9"
proof -
  note run = montecarlo_lowers_potential[OF ex_montecarlo]
  have e: "universe_energy_potential ex_bouncy ex_single = Inr 0"
    "universe_energy_potential ex_bouncy ex_relaxed = Inr (- (1 / 10 ^ 9))"
    by (simp_all add: universe_energy_potential_def energy_potential_atom_def ex_defs
        ex_bouncy_def ex_single_def ex_relaxed_def)
  have n: "[0..<atom_nb ex_single] = [0]"
    by (simp add: ex_single_def)
  have chain: "relaxed ex_bouncy [0] (ex_single, ex_libc)
      (ex_relaxed, \<lparr>heap_free = 1000, rand_state = 2\<rparr>)"
    using run n by simp
  have "montecarlo_propose ex_bouncy 0 (if (0 :: u64) < 50 then 1 / 10 ^ 9 else 1 / 10 ^ 9 * (1 / 10))
        (ex_single, ex_libc) = Inr (ex_sunk, \<lparr>heap_free = 1000, rand_state = 1\<rparr>)
      \<and> universe_energy_potential ex_bouncy ex_sunk = Inr (1 / 10 ^ 9)
      \<and> \<not> (1 / 10 ^ 9 :: real) < 0"
    using ex_montecarlo_down by simp
  with run have "montecarlo_loop ex_bouncy 0 0 0 (1 / 10 ^ 9) (ex_single, ex_libc)
      = montecarlo_loop ex_bouncy 0 0 (if (0 :: u64) < 50 then 0 + 1 else 0)
          (if (0 :: u64) < 50 then 1 / 10 ^ 9 else 1 / 10 ^ 9 * (1 / 10))
          (ex_single, \<lparr>heap_free = 1000, rand_state = 1\<rparr>)"
    by blast
  then have again: "montecarlo_loop ex_bouncy 0 0 0 (1 / 10 ^ 9) (ex_single, ex_libc)
       = montecarlo_loop ex_bouncy 0 0 1 (1 / 10 ^ 9)
           (ex_single, \<lparr>heap_free = 1000, rand_state = 1\<rparr>)"
    by simp
  have z: "vec3d_z (pos (atom ex_single ! 0)) = 0"
    "vec3d_z (pos (atom ex_sunk ! 0)) = - (1 / 10 ^ 9)"
    "vec3d_z (pos (atom ex_relaxed ! 0)) = 1 / 10 ^ 9"
    by (simp_all add: ex_single_def ex_sunk_def ex_relaxed_def ex_universe_def ex_blank_def
        vec3d_zero_def)
  show ?thesis
    using ex_montecarlo e ex_montecarlo_down chain again z by blast
qed


section \<open>universe_montecarlo: no retry cap (C3)\<close>




section \<open>universe_load: the bond lists of the reference atoms (C6)\<close>

lemmas ex_load_defs = load_defs ex_defs ex_empty_def upt_rec replicate_numeral

lemma ex_load_water:
  "universe_load ex_env ex_water (ex_empty, ex_libc)
     = Inr (ex_water_loaded, \<lparr>heap_free = 439, rand_state = 0\<rparr>)"
  by (simp add: ex_load_defs ex_water_def ex_water_loaded_def ex_atom_def)

lemma mentions_le: "mentions inp k j \<le> 2 * k"
  by (induction k) (simp_all add: mentions_Suc mentions_def)

text \<open>
  C6 asks for a symmetric bond relation after \<open>universe_load\<close> has returned. The code
  enters each bond at the offset its eight-bit counter holds, and the counters of the
  atoms from index \<open>ref_bond_nb\<close> on are not zeroed (the \<open>memset\<close> of line 167 covers
  \<open>ref_bond_nb\<close> bytes). For the water molecule (two bonds, three atoms) the counter
  of the third atom keeps the content of the allocation; when that byte is 1, the
  partner of the third atom is stored at offset 1 of an array of one entry: the
  access is outside the array, and the bond list of the third atom never receives
  its partner, while the C function goes on and returns the universe.
\<close>

theorem load_water_unzeroed:
  "in_atom_nb ex_water = 3 \<and> in_bond_nb ex_water = 2 \<and> uninit_u8 ex_dirty 2 = 1
   \<and> universe_load ex_dirty ex_water (ex_empty, ex_libc) = Inl Undefined"
  by (simp add: ex_load_defs ex_dirty_def ex_water_def)

text \<open>
  What the code does establish: when \<open>universe_load\<close> succeeds within the bounds of
  its arrays, \<open>atom_init\<close> starts the bond count at zero, and no atom is named more
  than 256 times (the counters have eight bits), every bond line is found in the
  lists of both of its atoms with its strength, and the length of each list is the
  number of times the atom is named.
\<close>

lemma load_bonds_symmetric:
  assumes ok: "universe_load env inp (u, l) = Inr (u', l')"
    and init: "\<forall>a. bond_nb (atom_init env a) = 0"
    and cap: "\<forall>j. mentions inp (in_bond_nb inp) j \<le> 256"
  shows "(\<forall>i<in_bond_nb inp.
           let b = in_bonds inp ! i; first = unat (bl_a1 b - 1); second = unat (bl_a2 b - 1)
           in first < in_atom_nb inp \<and> second < in_atom_nb inp
            \<and> (\<exists>p<length (bond (ref_atom u' ! first)).
                  bond (ref_atom u' ! first) ! p = bl_a2 b - 1
                \<and> bond_strength (ref_atom u' ! first) ! p = bl_strength b)
            \<and> (\<exists>q<length (bond (ref_atom u' ! second)).
                  bond (ref_atom u' ! second) ! q = bl_a1 b - 1
                \<and> bond_strength (ref_atom u' ! second) ! q = bl_strength b))
       \<and> (\<forall>j<in_atom_nb inp.
             length (bond (ref_atom u' ! j)) = mentions inp (in_bond_nb inp) j
           \<and> length (bond_strength (ref_atom u' ! j)) = mentions inp (in_bond_nb inp) j
           \<and> bond_nb (ref_atom u' ! j) = mentions inp (in_bond_nb inp) j)"
proof -
  let ?c0 = "replicate (in_bond_nb inp) 0
        @ drop (in_bond_nb inp) (map (uninit_u8 env) [0..<8 * in_atom_nb inp])"
  let ?st = "\<lparr>l_universe = u', l_a1 = [], l_a2 = [], l_bond_strength = [], l_bond_index = []\<rparr>"
  from universe_load_summary[OF ok cap] have
    atoms: "\<And>j. j < in_atom_nb inp \<Longrightarrow>
        bond_nb (ref_atom u' ! j)
              = bond_nb (atom_init env (uninit_atom env j)) + mentions inp (in_bond_nb inp) j
            \<and> length (bond (ref_atom u' ! j)) = bond_nb (ref_atom u' ! j)
            \<and> length (bond_strength (ref_atom u' ! j)) = bond_nb (ref_atom u' ! j)"
    and recs: "\<And>i. i < in_bond_nb inp \<Longrightarrow> first_of inp i < in_atom_nb inp
        \<and> second_of inp i < in_atom_nb inp \<and> entered inp ?c0 i ?st"
    unfolding load_summary_def Let_def by blast+
  have one: "let b = in_bonds inp ! i; first = unat (bl_a1 b - 1); second = unat (bl_a2 b - 1)
           in first < in_atom_nb inp \<and> second < in_atom_nb inp
            \<and> (\<exists>p<length (bond (ref_atom u' ! first)).
                  bond (ref_atom u' ! first) ! p = bl_a2 b - 1
                \<and> bond_strength (ref_atom u' ! first) ! p = bl_strength b)
            \<and> (\<exists>q<length (bond (ref_atom u' ! second)).
                  bond (ref_atom u' ! second) ! q = bl_a1 b - 1
                \<and> bond_strength (ref_atom u' ! second) ! q = bl_strength b)"
    if "i < in_bond_nb inp" for i
    using recs[OF that]
    unfolding entered_def Let_def first_of_def second_of_def bonds_of_def strengths_of_def
    by auto
  have two: "length (bond (ref_atom u' ! j)) = mentions inp (in_bond_nb inp) j
           \<and> length (bond_strength (ref_atom u' ! j)) = mentions inp (in_bond_nb inp) j
           \<and> bond_nb (ref_atom u' ! j) = mentions inp (in_bond_nb inp) j"
    if "j < in_atom_nb inp" for j
    using atoms[OF that] init by simp
  show ?thesis using one two by blast
qed

section \<open>universe_load: counters that memset does not reach (C9)\<close>

lemma ex_load_lone:
  "universe_load ex_env ex_lone (ex_empty, ex_libc)
     = Inr (ex_lone_loaded, \<lparr>heap_free = 822, rand_state = 0\<rparr>)"
  by (simp add: ex_load_defs ex_lone_def ex_lone_loaded_def ex_atom_def)

lemma ex_load_lone_dirty:
  "universe_load ex_dirty ex_lone (ex_empty, ex_libc)
     = Inr (ex_lone_loaded, \<lparr>heap_free = 822, rand_state = 0\<rparr>)"
  by (simp add: ex_load_defs ex_dirty_def ex_lone_def ex_lone_loaded_def ex_atom_def)

lemma ex_load_ring:
  "universe_load ex_env ex_ring (ex_empty, ex_libc)
     = Inr (ex_ring_loaded, \<lparr>heap_free = 238, rand_state = 0\<rparr>)"
  by (simp add: ex_load_defs ex_ring_def ex_ring_loaded_def ex_atom_def)

lemma ex_load_ring_dirty:
  "universe_load ex_dirty ex_ring (ex_empty, ex_libc)
     = Inr (ex_ring_loaded, \<lparr>heap_free = 238, rand_state = 0\<rparr>)"
  by (simp add: ex_load_defs ex_dirty_def ex_ring_def ex_ring_loaded_def ex_atom_def)

text \<open>
  C9 says that whenever \<open>ref_bond_nb < ref_atom_nb\<close> some of the counters that are
  read and incremented while the bonds are loaded were not zeroed. As stated this
  fails: the condition leaves counters unzeroed, but it does not make the loading
  loop read one of them. For a single atom without bonds (0 bonds, 1 atom) the loop
  of lines 191 to 204 makes no iteration and reads no counter. For a ring of three
  atoms next to an unbound fourth atom (3 bonds, 4 atoms) the bond lines name the
  atoms 0, 1 and 2 only, whose counters are the three that \<open>memset\<close> zeroed; the
  counter of the fourth atom keeps the content of the allocation and is neither
  read nor incremented. In both cases the result is the same whether the allocation
  held zeroes or not.
\<close>

theorem load_unzeroed_counterexample:
  "in_bond_nb ex_lone < in_atom_nb ex_lone \<and> in_bond_nb ex_lone = 0
   \<and> universe_load ex_env ex_lone (ex_empty, ex_libc)
       = Inr (ex_lone_loaded, \<lparr>heap_free = 822, rand_state = 0\<rparr>)
   \<and> universe_load ex_dirty ex_lone (ex_empty, ex_libc)
       = Inr (ex_lone_loaded, \<lparr>heap_free = 822, rand_state = 0\<rparr>)
   \<and> in_bond_nb ex_ring < in_atom_nb ex_ring
   \<and> map (first_of ex_ring) [0, 1, 2] = [0, 1, 2]
   \<and> map (second_of ex_ring) [0, 1, 2] = [1, 2, 0]
   \<and> universe_load ex_env ex_ring (ex_empty, ex_libc)
       = Inr (ex_ring_loaded, \<lparr>heap_free = 238, rand_state = 0\<rparr>)
   \<and> universe_load ex_dirty ex_ring (ex_empty, ex_libc)
       = Inr (ex_ring_loaded, \<lparr>heap_free = 238, rand_state = 0\<rparr>)"
  using ex_load_lone ex_load_lone_dirty ex_load_ring ex_load_ring_dirty
  by (simp add: ex_lone_def ex_ring_def first_of_def second_of_def)

text \<open>
  C9, amended. The counters are bytes of an allocation of \<open>8 * ref_atom_nb\<close> bytes,
  of which \<open>memset\<close> zeroes the first \<open>ref_bond_nb\<close>. Take a run in which the part
  of \<open>universe_load\<close> before the loop of lines 191 to 204 has succeeded (it never
  reads the counters) and the loop has reached bond line \<open>i\<close>. Then:

  \<^item> \<open>ref_bond_nb \<le> 8 * ref_atom_nb\<close>, and there are \<open>8 * ref_atom_nb\<close> counters;

  \<^item> counter \<open>n\<close> holds, on eight bits, the number of times the lines before \<open>i\<close>
    name atom \<open>n\<close>, added to 0 when \<open>n < ref_bond_nb\<close> and to the content that the
    allocation had at byte \<open>n\<close> when \<open>n \<ge> ref_bond_nb\<close>: the counter read for an
    atom of index below \<open>ref_bond_nb\<close> is always initialised, the counter read for
    an atom of index \<open>ref_bond_nb\<close> or more never is;

  \<^item> each of the two atoms \<open>j\<close> that line \<open>i\<close> names is a reference atom; its bond
    array has as many entries as the bond count that \<open>atom_init\<close> gave it plus the
    number of times the file names it; when the counter of \<open>j\<close> is not below that
    length, the store of line 196 or 199 is outside the array (and so is the outcome
    of \<open>universe_load\<close>);

  \<^item> when iteration \<open>i\<close> completes, the partner of each of the two atoms is in
    the bond array of the atom at the offset that the counter of the atom held.

  So \<open>ref_bond_nb < ref_atom_nb\<close> leaves the counters of the atoms from index
  \<open>ref_bond_nb\<close> on unzeroed, but such a counter is read and incremented, and gives
  the offset of a bond entry, only if a bond line names its atom. In the run below
  (two bonds, four atoms, every fresh byte 1) the first line names atom 3: its
  counter holds 1, the partner is stored at offset 1 while offset 0 keeps the
  content of the allocation, and the second line finds the counter at 2, outside the
  array of two entries.
\<close>

theorem load_unzeroed_offset:
  assumes arrays: "load_arrays env inp (u, l) = Inr (st0, l0)"
    and reach: "for_loop [0..<i] load_bond st0 = Inr st"
    and i: "i < in_bond_nb inp"
  shows "in_bond_nb inp \<le> 8 * in_atom_nb inp
     \<and> length (l_bond_index st) = 8 * in_atom_nb inp
     \<and> (\<forall>n<8 * in_atom_nb inp.
           l_bond_index st ! n
             = (if n < in_bond_nb inp then 0 else uninit_u8 env n) + of_nat (mentions inp i n))
     \<and> (\<forall>j\<in>{first_of inp i, second_of inp i}.
           j < in_atom_nb inp
         \<and> length (bond (ref_atom (l_universe st) ! j))
             = bond_nb (atom_init env (uninit_atom env j)) + mentions inp (in_bond_nb inp) j
         \<and> (length (bond (ref_atom (l_universe st) ! j)) \<le> unat (l_bond_index st ! j)
              \<longrightarrow> load_bond i st = Inl Undefined
                \<and> universe_load env inp (u, l) = Inl Undefined))
     \<and> (\<forall>st'. load_bond i st = Inr st'
           \<longrightarrow> unat (l_bond_index st ! first_of inp i)
                  < length (bond (ref_atom (l_universe st') ! first_of inp i))
             \<and> bond (ref_atom (l_universe st') ! first_of inp i)
                 ! unat (l_bond_index st ! first_of inp i) = bl_a2 (in_bonds inp ! i) - 1
             \<and> unat (l_bond_index st ! second_of inp i)
                  < length (bond (ref_atom (l_universe st') ! second_of inp i))
             \<and> bond (ref_atom (l_universe st') ! second_of inp i)
                 ! unat (l_bond_index st ! second_of inp i) = bl_a1 (in_bonds inp ! i) - 1)"
proof -
  let ?R = "in_atom_nb inp" and ?B = "in_bond_nb inp"
  let ?f = "first_of inp i" and ?s = "second_of inp i"
  note ar = load_arrays_result[OF arrays]
  have cnt: "counted inp st0 i st"
    using counted_loop[OF reach ar(3)] i by simp
  then have sh: "same_shape st0 st"
    and cs: "\<forall>j<length (l_bond_index st0).
        l_bond_index st ! j = l_bond_index st0 ! j + of_nat (mentions inp i j)"
    by (simp_all add: counted_def)
  have len0: "length (l_bond_index st0) = 8 * ?R"
    using ar(1) by (simp add: ar(2))
  have len: "length (l_bond_index st) = 8 * ?R"
    using sh len0 by (simp add: same_shape_def)
  have c0: "l_bond_index st0 ! n = (if n < ?B then 0 else uninit_u8 env n)" if "n < 8 * ?R" for n
    using that ar(1) by (simp add: ar(2) nth_append)
  have counters: "l_bond_index st ! n
      = (if n < ?B then 0 else uninit_u8 env n) + of_nat (mentions inp i n)" if "n < 8 * ?R" for n
    using cs that c0[OF that] len0 by simp
  have a1: "l_a1 st ! i = bl_a1 (in_bonds inp ! i)"
    and a2: "l_a2 st ! i = bl_a2 (in_bonds inp ! i)"
    using sh ar(3) i by (simp_all add: same_shape_def lines_read_def)
  have f': "unat (l_a1 st ! i - 1) = ?f" and s': "unat (l_a2 st ! i - 1) = ?s"
    by (simp_all add: first_of_def second_of_def a1 a2)
  have rng: "?f < ?R" "?s < ?R"
    using ar(10)[OF i] by simp_all
  have size: "length (bond (ref_atom (l_universe st) ! j))
      = bond_nb (atom_init env (uninit_atom env j)) + mentions inp ?B j" if "j < ?R" for j
  proof -
    have "length (bonds_of st j) = length (bonds_of st0 j)"
      using sh by (simp add: same_shape_def)
    then show ?thesis
      using ar(11)[OF that] by (simp add: bonds_of_def)
  qed
  have outside: "load_bond i st = Inl Undefined \<and> universe_load env inp (u, l) = Inl Undefined"
    if j: "j = ?f \<or> j = ?s"
      and big: "length (bond (ref_atom (l_universe st) ! j)) \<le> unat (l_bond_index st ! j)" for j
  proof -
    have step: "load_bond i st = Inl Undefined"
    proof (cases "load_bond i st")
      case (Inl e)
      then show ?thesis using load_bond_failure[OF Inl] by simp
    next
      case (Inr st')
      note r = load_bond_result[OF Inr, unfolded f' s']
      from r(5,7) j big show ?thesis by (auto simp: bonds_of_def)
    qed
    have "for_loop [0..<?B] load_bond st0 = Inl Undefined"
      using reach step i by (rule for_loop_fails_at)
    then have "universe_load env inp (u, l) = Inl Undefined"
      by (simp add: universe_load_arrays arrays ar(7))
    with step show ?thesis by simp
  qed
  have placed: "unat (l_bond_index st ! ?f) < length (bond (ref_atom (l_universe st') ! ?f))
      \<and> bond (ref_atom (l_universe st') ! ?f) ! unat (l_bond_index st ! ?f)
          = bl_a2 (in_bonds inp ! i) - 1
      \<and> unat (l_bond_index st ! ?s) < length (bond (ref_atom (l_universe st') ! ?s))
      \<and> bond (ref_atom (l_universe st') ! ?s) ! unat (l_bond_index st ! ?s)
          = bl_a1 (in_bonds inp ! i) - 1"
    if step: "load_bond i st = Inr st'" for st'
  proof -
    note r = load_bond_result[OF step, unfolded f' s']
    let ?p = "unat (l_bond_index st ! ?f)" and ?q = "unat (l_bond_index st ! ?s)"
    have b: "bonds_of st' j = twice_set (bonds_of st j) j ?f ?p (bl_a2 (in_bonds inp ! i) - 1)
        ?s ?q (bl_a1 (in_bonds inp ! i) - 1)" for j
      using r(11)[of j] by (simp add: a1 a2)
    have same: "bl_a1 (in_bonds inp ! i) - 1 = bl_a2 (in_bonds inp ! i) - 1" if "?f = ?s"
      using that by (simp add: first_of_def second_of_def word_unat_eq_iff)
    have "?p < length (bonds_of st' ?f)" "?q < length (bonds_of st' ?s)"
      using r(5,7) by (simp_all add: b twice_set_length)
    moreover have "bonds_of st' ?f ! ?p = bl_a2 (in_bonds inp ! i) - 1"
      using r(5,7) same by (auto simp: b twice_set_def Let_def nth_list_update)
    moreover have "bonds_of st' ?s ! ?q = bl_a1 (in_bonds inp ! i) - 1"
      using r(5,7) same by (auto simp: b twice_set_def Let_def nth_list_update)
    ultimately show ?thesis
      by (simp add: bonds_of_def)
  qed
  have atoms: "\<forall>j\<in>{?f, ?s}.
           j < ?R
         \<and> length (bond (ref_atom (l_universe st) ! j))
             = bond_nb (atom_init env (uninit_atom env j)) + mentions inp ?B j
         \<and> (length (bond (ref_atom (l_universe st) ! j)) \<le> unat (l_bond_index st ! j)
              \<longrightarrow> load_bond i st = Inl Undefined
                \<and> universe_load env inp (u, l) = Inl Undefined)"
    using rng size outside by blast
  show ?thesis
    using ar(1) len counters atoms placed by blast
qed


lemma ex_load_fork:
  "load_arrays ex_dirty ex_fork (ex_empty, ex_libc)
     = Inr (ex_fork_arrays, \<lparr>heap_free = 199, rand_state = 0\<rparr>)"
  by (simp add: load_arrays_def ex_load_defs ex_dirty_def ex_fork_def ex_fork_arrays_def
      ex_fork_atom_def)

lemma ex_load_fork_first: "for_loop [0..<1] load_bond ex_fork_arrays = Inr ex_fork_first"
  by (simp add: ex_load_defs ex_fork_arrays_def ex_fork_first_def ex_fork_atom_def)

theorem load_unzeroed_offset_witness:
  "load_arrays ex_dirty ex_fork (ex_empty, ex_libc)
     = Inr (ex_fork_arrays, \<lparr>heap_free = 199, rand_state = 0\<rparr>)
   \<and> for_loop [0..<0] load_bond ex_fork_arrays = Inr ex_fork_arrays
   \<and> for_loop [0..<1] load_bond ex_fork_arrays = Inr ex_fork_first
   \<and> in_bond_nb ex_fork = 2 \<and> in_atom_nb ex_fork = 4
   \<and> first_of ex_fork 0 = 3 \<and> first_of ex_fork 1 = 3
   \<and> uninit_u8 ex_dirty 3 = 1
   \<and> l_bond_index ex_fork_arrays ! 3 = 1
   \<and> bond (ref_atom (l_universe ex_fork_arrays) ! 3) = [0, 0]
   \<and> bond (ref_atom (l_universe ex_fork_first) ! 3) = [0, 1]
   \<and> load_bond 0 ex_fork_arrays = Inr ex_fork_first
   \<and> bond (ref_atom (l_universe ex_fork_first) ! 3) ! 1 = bl_a2 (in_bonds ex_fork ! 0) - 1
   \<and> bl_a2 (in_bonds ex_fork ! 0) - 1 = 1
   \<and> l_bond_index ex_fork_first ! 3 = 2
   \<and> load_bond 1 ex_fork_first = Inl Undefined
   \<and> universe_load ex_dirty ex_fork (ex_empty, ex_libc) = Inl Undefined"
proof -
  have n: "in_bond_nb ex_fork = 2" "in_atom_nb ex_fork = 4"
    by (simp_all add: ex_fork_def)
  have f: "first_of ex_fork 0 = 3" "first_of ex_fork 1 = 3"
    by (simp_all add: first_of_def ex_fork_def)
  have g: "uninit_u8 ex_dirty 3 = 1"
    by (simp add: ex_dirty_def)
  have m: "mentions ex_fork 0 3 = 0" "mentions ex_fork (Suc 0) 3 = 1"
    by (simp_all add: mentions_def first_of_def second_of_def ex_fork_def)
  have start: "for_loop [0..<0] load_bond ex_fork_arrays = Inr ex_fork_arrays"
    by simp
  have i0: "0 < in_bond_nb ex_fork" and i1: "1 < in_bond_nb ex_fork"
    by (simp_all add: n)
  note at0 = load_unzeroed_offset[OF ex_load_fork start i0]
  note at1 = load_unzeroed_offset[OF ex_load_fork ex_load_fork_first i1]
  have c0: "l_bond_index ex_fork_arrays ! 3 = 1"
    using at0 by (simp add: n g m)
  have c1: "l_bond_index ex_fork_first ! 3 = 2"
    using at1 by (simp add: n g m)
  have b0: "bond (ref_atom (l_universe ex_fork_arrays) ! 3) = [0, 0]"
    and b1: "bond (ref_atom (l_universe ex_fork_first) ! 3) = [0, 1]"
    by (simp_all add: ex_fork_arrays_def ex_fork_first_def ex_fork_atom_def)
  have p: "bl_a2 (in_bonds ex_fork ! 0) - 1 = 1"
    by (simp add: ex_fork_def)
  have step: "load_bond 0 ex_fork_arrays = Inr ex_fork_first"
    using ex_load_fork_first by (simp split: sum.splits)
  from at0 step have "bond (ref_atom (l_universe ex_fork_first) ! first_of ex_fork 0)
      ! unat (l_bond_index ex_fork_arrays ! first_of ex_fork 0) = bl_a2 (in_bonds ex_fork ! 0) - 1"
    by blast
  then have e: "bond (ref_atom (l_universe ex_fork_first) ! 3) ! 1
      = bl_a2 (in_bonds ex_fork ! 0) - 1"
    unfolding f c0 by simp
  have "length (bond (ref_atom (l_universe ex_fork_first) ! first_of ex_fork 1))
      \<le> unat (l_bond_index ex_fork_first ! first_of ex_fork 1)"
    unfolding f c1 b1 by simp
  with at1 have out: "load_bond 1 ex_fork_first = Inl Undefined
      \<and> universe_load ex_dirty ex_fork (ex_empty, ex_libc) = Inl Undefined"
    by blast
  show ?thesis
    using ex_load_fork start ex_load_fork_first n f g c0 b0 b1 step e p c1 out by blast
qed

end
